theory Spec2Isabelle
  imports Main "HOL-Library.AList"
begin

section \<open>Data model\<close>

text \<open>
  The speaking gateway (\<^verbatim>\<open>speaking.gateway.ts\<close>) keeps one mutable
  \<^verbatim>\<open>SessionContext\<close> object per admitted exam session in a JavaScript
  \<^verbatim>\<open>Map\<close> keyed by the socket id. Timer callbacks and Gemini callbacks close over
  the socket and over the context \<^emph>\<open>object\<close>, so the model keeps the objects in an
  explicit store (\<open>heap\<close>) and lets the registry and the closures hold references.
  A JavaScript \<^verbatim>\<open>Map\<close> iterates in insertion order and \<^verbatim>\<open>set\<close> on an existing
  key keeps its position: this is \<open>AList.update\<close> on an association list.
  Times are milliseconds since the epoch (\<^verbatim>\<open>Date.now()\<close>) as \<open>int\<close>.
\<close>

type_synonym clientId = string
type_synonym sessionId = string
type_synonym handle = nat
type_synonym ref = nat

datatype speaker = Elena | Student

record ConversationMessage =
  speaker :: speaker
  msg_text :: string
  timestamp :: int

datatype status = Active | Paused | GracePeriod | Interrupted

record SessionContext =
  clientId :: clientId
  sessionId :: sessionId
  studentId :: string
  teilNumber :: int
  conversationHistory :: "ConversationMessage list"
  status :: status
  startTime :: int
  elapsedSeconds :: int
  timeLimit :: "int option"
  expectedEndTime :: "int option"
  disconnectTimer :: "handle option"
  pauseTimer :: "handle option"
  lastAudioTimestamp :: int
  pausePending :: bool
  geminiConnectionAttempts :: nat
  lastGeminiError :: "string option"
  chunkTimestamps :: "int list"
  timerHandles :: "handle list"
  pauseGeminiCloseTimer :: "handle option"

text \<open>Events emitted to a socket (\<^verbatim>\<open>client.emit\<close>), with the payload fields the
  properties below speak about.\<close>

datatype client_event =
    ConnectionError nat string
  | SessionReady sessionId int "int option" string
  | ErrorEvent string
  | GeminiError string
  | AudioResponse "string option"
  | TimeWarning int
  | SessionPaused int
  | SessionResumed
  | PauseTimeout
  | SessionEnded string

text \<open>Side effects that leave the process, in the order the code performs them:
  socket emissions and forced disconnects, the transcript upsert
  (\<^verbatim>\<open>saveConversationHistory\<close>, which swallows its own errors), the
  \<^verbatim>\<open>exam_sessions\<close> status update (status, \<^verbatim>\<open>elapsed_time\<close>), and the calls on the
  provider's streaming handle.\<close>

datatype effect =
    Emit clientId client_event
  | Disconnect clientId
  | SaveTranscript sessionId "ConversationMessage list"
  | UpdateExamSession sessionId string "int option"
  | ProviderClose sessionId
  | ProviderSend sessionId string
  | ProviderConnect sessionId "ConversationMessage list"
  | LogWarn string

section \<open>GeminiService: the adapter's bookkeeping\<close>

datatype gemini_status = Connecting | Connected | Disconnected

record GeminiSessionData =
  g_teilNumber :: int
  g_status :: gemini_status
  setupComplete :: bool

type_synonym activeSessions = "(sessionId \<times> GeminiSessionData) list"

text \<open>\<^verbatim>\<open>getSystemInstruction\<close> reads the prompt cache, which \<^verbatim>\<open>loadPrompts\<close> fills at
  start-up for Teil 1, 2 and 3 (start-up fails when a prompt file cannot be read). For any
  other Teil it throws. The prompt text is not modelled: the result only says whether a
  prompt is cached.\<close>

definition getSystemInstruction :: "int \<Rightarrow> unit option" where
  "getSystemInstruction teil =
     (if teil = 1 \<or> teil = 2 \<or> teil = 3 then Some () else None)"

text \<open>How the provider answers one \<^verbatim>\<open>createLiveSession\<close> call. The method first
  fetches the system instruction; when that throws, the promise rejects before the provider
  is contacted and the bookkeeping is untouched. Otherwise the promise resolves
  only on the provider's \<^verbatim>\<open>setupComplete\<close> message; it rejects when
  \<^verbatim>\<open>connect\<close> fails, when the 10 s setup timer fires (which deletes the entry), or
  when the socket closes before setup completes (which marks the entry disconnected).
  \<open>SetupCompleteEarly\<close> is the order in which the \<^verbatim>\<open>setupComplete\<close> message is
  handled before the \<^verbatim>\<open>connect\<close> promise has stored the entry: the promise resolves
  and the entry is stored afterwards, still \<^verbatim>\<open>connecting\<close>.\<close>

datatype create_outcome =
    SetupComplete | SetupCompleteEarly | ConnectFailed | SetupTimeout | ClosedDuringSetup

definition createLiveSession ::
  "sessionId \<Rightarrow> int \<Rightarrow> ConversationMessage list \<Rightarrow> create_outcome \<Rightarrow> activeSessions
     \<Rightarrow> bool \<times> activeSessions \<times> effect list" where
  "createLiveSession sid teil history outcome as =
     (case getSystemInstruction teil of
        None \<Rightarrow> (False, as, [])
      | Some systemInstruction \<Rightarrow>
     (case outcome of
        SetupComplete \<Rightarrow>
          (True,
           AList.update sid \<lparr>g_teilNumber = teil, g_status = Connected, setupComplete = True\<rparr> as,
           [ProviderConnect sid history])
      | SetupCompleteEarly \<Rightarrow>
          (True,
           AList.update sid \<lparr>g_teilNumber = teil, g_status = Connecting, setupComplete = False\<rparr> as,
           [ProviderConnect sid history])
      | ConnectFailed \<Rightarrow> (False, as, [ProviderConnect sid history])
      | SetupTimeout \<Rightarrow> (False, AList.delete sid as, [ProviderConnect sid history])
      | ClosedDuringSetup \<Rightarrow>
          (False,
           AList.update sid \<lparr>g_teilNumber = teil, g_status = Disconnected, setupComplete = False\<rparr> as,
           [ProviderConnect sid history])))"

definition isSessionActive :: "activeSessions \<Rightarrow> sessionId \<Rightarrow> bool" where
  "isSessionActive as sid =
     (case map_of as sid of
        None \<Rightarrow> False
      | Some d \<Rightarrow> setupComplete d \<and> g_status d = Connected)"

text \<open>\<^verbatim>\<open>sendAudioChunk\<close> throws when the entry is missing or setup is not complete,
  and when the provider's \<^verbatim>\<open>sendRealtimeInput\<close> throws (\<open>sendThrows\<close>). The result
  is \<open>Inl\<close> the error message or \<open>Inr\<close> the effects.\<close>

definition sendAudioChunk ::
  "sessionId \<Rightarrow> string \<Rightarrow> bool \<Rightarrow> activeSessions \<Rightarrow> string + effect list" where
  "sendAudioChunk sid audioData sendThrows as =
     (case map_of as sid of
        None \<Rightarrow> Inl ''Gemini session not found for sessionId''
      | Some d \<Rightarrow>
          if \<not> setupComplete d then Inl ''GEMINI_SETUP_NOT_COMPLETE''
          else if sendThrows then Inl ''sendRealtimeInput failed''
          else Inr [ProviderSend sid audioData])"

text \<open>\<^verbatim>\<open>closeLiveSession\<close>. The provider's own \<^verbatim>\<open>session.close()\<close> may throw
  (\<open>closeThrows\<close>); the inner \<^verbatim>\<open>try/catch\<close> turns that into a warning and the
  entry is deleted afterwards in either case. The first component is the exception that
  escapes the method, if any.\<close>

definition session_close :: "sessionId \<Rightarrow> bool \<Rightarrow> string + effect list" where
  "session_close sid closeThrows =
     (if closeThrows then Inl ''close failed'' else Inr [ProviderClose sid])"

definition closeLiveSession ::
  "sessionId \<Rightarrow> bool \<Rightarrow> activeSessions \<Rightarrow> string option \<times> activeSessions \<times> effect list" where
  "closeLiveSession sid closeThrows as =
     (case map_of as sid of
        None \<Rightarrow> (None, as, [LogWarn ''Attempted to close non-existent Gemini session''])
      | Some d \<Rightarrow>
          (case session_close sid closeThrows of
             Inl e \<Rightarrow> (None, AList.delete sid as, [LogWarn ''Error closing Gemini WebSocket''])
           | Inr es \<Rightarrow> (None, AList.delete sid as, es)))"

definition provider_closes :: "effect list \<Rightarrow> nat" where
  "provider_closes es = length (filter (\<lambda>e. case e of ProviderClose _ \<Rightarrow> True | _ \<Rightarrow> False) es)"

section \<open>The gateway state\<close>

text \<open>A scheduled callback (\<^verbatim>\<open>setTimeout\<close>) is kept as data: which closure it is and
  the socket id and context object the closure captured when it was created.\<close>

datatype timer_body =
    GraceTimeout clientId ref
  | PauseCloseTimer clientId ref
  | WarningTimer clientId ref int
  | AutoEndTimer clientId ref
  | IdleTimer ref

record gateway =
  sessions :: "(clientId \<times> ref) list"
  heap :: "(ref \<times> SessionContext) list"
  idleTimeouts :: "(clientId \<times> handle) list"
  timers :: "(handle \<times> int \<times> timer_body) list"
  nextHandle :: handle
  gemini :: activeSessions
  connected :: "clientId list"

definition init_gateway :: gateway where
  "init_gateway = \<lparr>sessions = [], heap = [], idleTimeouts = [], timers = [], nextHandle = 0,
     gemini = [], connected = []\<rparr>"

definition ctxAt :: "gateway \<Rightarrow> ref \<Rightarrow> SessionContext option" where
  "ctxAt gw r = map_of (heap gw) r"

text \<open>\<open>modify r f\<close> is an assignment to fields of the context object \<open>r\<close>;
  \<open>alloc\<close> is the object literal that creates a context. A reference held by the
  registry or by a closure always denotes an allocated object; the \<open>None\<close> branches
  on \<open>ctxAt\<close> in the handlers below only make the functions total.\<close>

definition modify :: "ref \<Rightarrow> (SessionContext \<Rightarrow> SessionContext) \<Rightarrow> gateway \<Rightarrow> gateway" where
  "modify r f gw = gw\<lparr>heap := AList.map_entry r f (heap gw)\<rparr>"

definition alloc :: "SessionContext \<Rightarrow> gateway \<Rightarrow> ref \<times> gateway" where
  "alloc c gw = (length (heap gw), gw\<lparr>heap := heap gw @ [(length (heap gw), c)]\<rparr>)"

text \<open>\<^verbatim>\<open>setTimeout(body, delay)\<close> called at time \<open>now\<close> returns a fresh handle and
  records the instant at which the callback becomes due; \<^verbatim>\<open>clearTimeout\<close> removes
  a pending callback and does nothing for a handle that already fired or was cleared.\<close>

definition setTimeout :: "timer_body \<Rightarrow> int \<Rightarrow> int \<Rightarrow> gateway \<Rightarrow> handle \<times> gateway" where
  "setTimeout b delay now gw =
     (nextHandle gw,
      gw\<lparr>timers := timers gw @ [(nextHandle gw, (now + delay, b))],
         nextHandle := Suc (nextHandle gw)\<rparr>)"

definition clearTimeout :: "handle \<Rightarrow> gateway \<Rightarrow> gateway" where
  "clearTimeout h gw = gw\<lparr>timers := AList.delete h (timers gw)\<rparr>"

definition clearTimeoutOpt :: "handle option \<Rightarrow> gateway \<Rightarrow> gateway" where
  "clearTimeoutOpt ho gw = (case ho of None \<Rightarrow> gw | Some h \<Rightarrow> clearTimeout h gw)"

definition clearTimeouts :: "handle list \<Rightarrow> gateway \<Rightarrow> gateway" where
  "clearTimeouts hs gw = foldl (\<lambda>g h. clearTimeout h g) gw hs"

text \<open>The recurring block
  \<^verbatim>\<open>if (this.idleTimeouts.has(id)) { clearTimeout(this.idleTimeouts.get(id)); this.idleTimeouts.delete(id); }\<close>\<close>

definition clearIdle :: "clientId \<Rightarrow> gateway \<Rightarrow> gateway" where
  "clearIdle cid gw =
     (case map_of (idleTimeouts gw) cid of
        None \<Rightarrow> gw
      | Some h \<Rightarrow> (clearTimeout h gw)\<lparr>idleTimeouts := AList.delete cid (idleTimeouts gw)\<rparr>)"

definition isConnected :: "gateway \<Rightarrow> clientId \<Rightarrow> bool" where
  "isConnected gw cid = (cid \<in> set (connected gw))"

definition markDisconnected :: "clientId \<Rightarrow> gateway \<Rightarrow> gateway" where
  "markDisconnected cid gw = gw\<lparr>connected := removeAll cid (connected gw)\<rparr>"

text \<open>JavaScript truthiness of a \<^verbatim>\<open>number | null\<close> and of a \<^verbatim>\<open>string | undefined\<close>.\<close>

definition truthyNum :: "int option \<Rightarrow> bool" where
  "truthyNum x = (case x of None \<Rightarrow> False | Some n \<Rightarrow> n \<noteq> 0)"

definition truthyStr :: "string option \<Rightarrow> bool" where
  "truthyStr x = (case x of None \<Rightarrow> False | Some s \<Rightarrow> s \<noteq> [])"

section \<open>Gateway helpers\<close>

definition getElapsedSeconds :: "SessionContext \<Rightarrow> int \<Rightarrow> int" where
  "getElapsedSeconds c now =
     (if status c \<noteq> Active then elapsedSeconds c else (now - startTime c) div 1000)"

definition findSessionBySessionId :: "gateway \<Rightarrow> sessionId \<Rightarrow> (clientId \<times> ref) option" where
  "findSessionBySessionId gw sid =
     find (\<lambda>(c, r). case ctxAt gw r of None \<Rightarrow> False | Some ctx \<Rightarrow> sessionId ctx = sid)
       (sessions gw)"

definition pushTimerHandle :: "ref \<Rightarrow> handle \<Rightarrow> gateway \<Rightarrow> gateway" where
  "pushTimerHandle r h gw = modify r (\<lambda>c. c\<lparr>timerHandles := timerHandles c @ [h]\<rparr>) gw"

definition setupWarning :: "clientId \<Rightarrow> ref \<Rightarrow> int \<Rightarrow> int \<Rightarrow> gateway \<Rightarrow> int \<Rightarrow> gateway" where
  "setupWarning cid r lim now gw threshold =
     (let delay = (lim - threshold) * 1000 in
      if delay > 0
      then (let (h, gw') = setTimeout (WarningTimer cid r threshold) delay now gw
            in pushTimerHandle r h gw')
      else gw)"

definition setupTimerWarnings :: "clientId \<Rightarrow> ref \<Rightarrow> int \<Rightarrow> gateway \<Rightarrow> gateway" where
  "setupTimerWarnings cid r now gw =
     (case ctxAt gw r of
        None \<Rightarrow> gw
      | Some c \<Rightarrow>
          if \<not> truthyNum (timeLimit c) \<or> expectedEndTime c = None then gw
          else (case timeLimit c of
                  None \<Rightarrow> gw
                | Some lim \<Rightarrow> foldl (setupWarning cid r lim now) gw [120, 60, 30]))"

definition setupAutoEnd :: "clientId \<Rightarrow> ref \<Rightarrow> int \<Rightarrow> gateway \<Rightarrow> gateway" where
  "setupAutoEnd cid r now gw =
     (case ctxAt gw r of
        None \<Rightarrow> gw
      | Some c \<Rightarrow>
          if \<not> truthyNum (timeLimit c) \<or> expectedEndTime c = None then gw
          else (case timeLimit c of
                  None \<Rightarrow> gw
                | Some lim \<Rightarrow>
                    (let (h, gw') = setTimeout (AutoEndTimer cid r) (lim * 1000) now gw
                     in pushTimerHandle r h gw')))"

text \<open>Every admission rejection is the same two statements:
  \<^verbatim>\<open>client.emit('connection_error', {code, message}); client.disconnect(true)\<close>.\<close>

datatype rejection =
    MissingTarget | MissingCredential | InvalidCredential | OwnershipMismatch
  | DuplicateConnection | NotFound | WrongStatus | StudentValidationFailed
  | NoActiveActivationCode | ExpiredEntitlement | UpstreamInitFailed | UnexpectedFailure

text \<open>The \<^verbatim>\<open>code\<close> literal of each rejecting branch of \<^verbatim>\<open>handleConnection\<close>.\<close>

fun rejectionCode :: "rejection \<Rightarrow> nat" where
  "rejectionCode MissingTarget = 4001"
| "rejectionCode MissingCredential = 4008"
| "rejectionCode InvalidCredential = 4009"
| "rejectionCode OwnershipMismatch = 4010"
| "rejectionCode DuplicateConnection = 4006"
| "rejectionCode NotFound = 4001"
| "rejectionCode WrongStatus = 4002"
| "rejectionCode StudentValidationFailed = 4003"
| "rejectionCode NoActiveActivationCode = 4004"
| "rejectionCode ExpiredEntitlement = 4005"
| "rejectionCode UpstreamInitFailed = 4007"
| "rejectionCode UnexpectedFailure = 5000"

definition reject :: "clientId \<Rightarrow> rejection \<Rightarrow> string \<Rightarrow> gateway \<Rightarrow> gateway \<times> effect list" where
  "reject cid cause message gw =
     (markDisconnected cid gw,
      [Emit cid (ConnectionError (rejectionCode cause) message), Disconnect cid])"

section \<open>handleConnection\<close>

text \<open>What the handler reads from the socket handshake and from its collaborators.
  \<open>token\<close> is the result of the \<^verbatim>\<open>auth.token || query.token || header\<close> chain;
  \<open>verifyAccessToken\<close> is \<open>None\<close> when the token service throws and otherwise the
  \<^verbatim>\<open>studentId\<close> of the payload. A Supabase \<^verbatim>\<open>.single()\<close> query yields a row,
  or no usable row (\<^verbatim>\<open>error || !data\<close>), or the call itself throws.\<close>

record handshake =
  query_sessionId :: "string option"
  token :: "string option"

datatype 'a query_result = Threw | NoRow | Row 'a

record exam_session =
  es_status :: string
  student_id :: string
  teil_number :: int
  server_start_time :: int
  elapsed_time :: "int option"
  use_timer :: bool

record activation_code =
  ac_status :: string
  expires_at :: "int option"

record conn_env =
  verifyAccessToken :: "string option"
  examSessionQ :: "exam_session query_result"
  studentQ :: "string query_result"
  activationQ :: "activation_code query_result"
  createOutcome :: create_outcome

definition unexpected :: "clientId \<Rightarrow> gateway \<Rightarrow> gateway \<times> effect list" where
  "unexpected cid gw = reject cid UnexpectedFailure ''Unexpected server error'' gw"

text \<open>Reconnection during the grace period: the branch guarded by
  \<^verbatim>\<open>if (existingContext.disconnectTimer)\<close>, after the ownership check.\<close>

definition reconnect ::
  "clientId \<Rightarrow> sessionId \<Rightarrow> clientId \<Rightarrow> ref \<Rightarrow> SessionContext \<Rightarrow> handle \<Rightarrow> int \<Rightarrow> gateway
     \<Rightarrow> gateway \<times> effect list" where
  "reconnect cid sid oldClientId r existingContext h now gw =
     (let gw1 = clearTimeout h gw;
          gw2 = modify r (\<lambda>c. c\<lparr>disconnectTimer := None\<rparr>) gw1;
          gw3 = clearIdle oldClientId gw2;
          gw4 = modify r (\<lambda>c. c\<lparr>clientId := cid, status := Active, lastAudioTimestamp := now\<rparr>) gw3;
          gw5 = gw4\<lparr>sessions := AList.update cid r (AList.delete oldClientId (sessions gw4))\<rparr>
      in (gw5,
          [Emit cid (SessionReady sid (teilNumber existingContext) (timeLimit existingContext)
             ''reconnected'')]))"

definition newSessionContext :: "clientId \<Rightarrow> sessionId \<Rightarrow> exam_session \<Rightarrow> int \<Rightarrow> SessionContext" where
  "newSessionContext cid sid examSession now =
     \<lparr>clientId = cid,
      sessionId = sid,
      studentId = student_id examSession,
      teilNumber = teil_number examSession,
      conversationHistory = [],
      status = Active,
      startTime = server_start_time examSession,
      elapsedSeconds = (case elapsed_time examSession of None \<Rightarrow> 0 | Some e \<Rightarrow> e),
      timeLimit =
        (if use_timer examSession
         then Some (if teil_number examSession = 1 then 240 else 360) else None),
      expectedEndTime =
        (if use_timer examSession
         then Some (server_start_time examSession
                      + (if teil_number examSession = 1 then 240000 else 360000))
         else None),
      disconnectTimer = None,
      pauseTimer = None,
      lastAudioTimestamp = now,
      pausePending = False,
      geminiConnectionAttempts = 1,
      lastGeminiError = None,
      chunkTimestamps = [],
      timerHandles = [],
      pauseGeminiCloseTimer = None\<rparr>"

text \<open>Steps 4 to 8 of a fresh admission, once every validation has passed.\<close>

definition admit ::
  "clientId \<Rightarrow> sessionId \<Rightarrow> exam_session \<Rightarrow> create_outcome \<Rightarrow> int \<Rightarrow> gateway
     \<Rightarrow> gateway \<times> effect list" where
  "admit cid sid examSession outcome now gw =
     (let sessionContext = newSessionContext cid sid examSession now;
          (r, gw1) = alloc sessionContext gw;
          (resolved, as', es) =
             createLiveSession sid (teil_number examSession) [] outcome (gemini gw1);
          gw2 = gw1\<lparr>gemini := as'\<rparr>
      in if \<not> resolved then
           (let (gw3, es') = reject cid UpstreamInitFailed ''Gemini API initialization failed'' gw2
            in (gw3, es @ es'))
         else if \<not> isSessionActive (gemini gw2) sid then
           (let (gw3, es') = reject cid UpstreamInitFailed ''Gemini session initialization failed'' gw2
            in (gw3, es @ es'))
         else
           (let gw3 = gw2\<lparr>sessions := AList.update cid r (sessions gw2)\<rparr>;
                gw4 = (if truthyNum (timeLimit sessionContext)
                          \<and> expectedEndTime sessionContext \<noteq> None
                       then setupAutoEnd cid r now (setupTimerWarnings cid r now gw3)
                       else gw3)
            in (gw4,
                es @ [Emit cid (SessionReady sid (teil_number examSession)
                        (timeLimit sessionContext) ''ready'')])))"

text \<open>The database validations of a fresh admission (steps 1 to 3).\<close>

definition freshAdmission ::
  "clientId \<Rightarrow> sessionId \<Rightarrow> string \<Rightarrow> conn_env \<Rightarrow> int \<Rightarrow> gateway \<Rightarrow> gateway \<times> effect list" where
  "freshAdmission cid sid authenticatedStudentId env now gw =
     (case examSessionQ env of
        Threw \<Rightarrow> unexpected cid gw
      | NoRow \<Rightarrow> reject cid NotFound ''Session not found'' gw
      | Row examSession \<Rightarrow>
          if es_status examSession \<noteq> ''active'' then
            reject cid WrongStatus (''Invalid session status: '' @ es_status examSession) gw
          else if student_id examSession \<noteq> authenticatedStudentId then
            reject cid OwnershipMismatch ''Session does not belong to authenticated student'' gw
          else
            (case studentQ env of
               Threw \<Rightarrow> unexpected cid gw
             | NoRow \<Rightarrow> reject cid StudentValidationFailed ''Student validation failed'' gw
             | Row student_activation_code \<Rightarrow>
                 (case activationQ env of
                    Threw \<Rightarrow> unexpected cid gw
                  | NoRow \<Rightarrow> reject cid NoActiveActivationCode ''No active activation code'' gw
                  | Row activationCode \<Rightarrow>
                      if ac_status activationCode \<noteq> ''active'' then
                        reject cid NoActiveActivationCode ''No active activation code'' gw
                      else if (case expires_at activationCode of
                                 None \<Rightarrow> False | Some e \<Rightarrow> e < now) then
                        reject cid ExpiredEntitlement ''Activation code expired'' gw
                      else admit cid sid examSession (createOutcome env) now gw)))"

definition handleConnection ::
  "clientId \<Rightarrow> handshake \<Rightarrow> conn_env \<Rightarrow> int \<Rightarrow> gateway \<Rightarrow> gateway \<times> effect list" where
  "handleConnection cid hs env now gw =
     (case query_sessionId hs of
        None \<Rightarrow> reject cid MissingTarget ''Missing sessionId'' gw
      | Some sid \<Rightarrow>
          if sid = [] then reject cid MissingTarget ''Missing sessionId'' gw
          else if \<not> truthyStr (token hs) then reject cid MissingCredential ''Authentication required'' gw
          else
            (case verifyAccessToken env of
               None \<Rightarrow> reject cid InvalidCredential ''Invalid or expired token'' gw
             | Some authenticatedStudentId \<Rightarrow>
                 (case findSessionBySessionId gw sid of
                    Some (oldClientId, r) \<Rightarrow>
                      (case ctxAt gw r of
                         None \<Rightarrow> unexpected cid gw
                       | Some existingContext \<Rightarrow>
                           (case disconnectTimer existingContext of
                              Some h \<Rightarrow>
                                if studentId existingContext \<noteq> authenticatedStudentId then
                                  reject cid OwnershipMismatch
                                    ''Session does not belong to authenticated student'' gw
                                else reconnect cid sid oldClientId r existingContext h now gw
                            | None \<Rightarrow> reject cid DuplicateConnection ''Session already connected'' gw))
                  | None \<Rightarrow> freshAdmission cid sid authenticatedStudentId env now gw)))"

text \<open>\<^verbatim>\<open>handleConnection\<close> is an \<^verbatim>\<open>async\<close> method. Its statements up to the
  registry lookup run without interruption; a fresh admission then waits for the
  \<^verbatim>\<open>exam_sessions\<close> query (and later for the student query, the activation-code query
  and \<^verbatim>\<open>createLiveSession\<close>) before \<^verbatim>\<open>this.sessions.set\<close>, and other handlers run
  while it waits. \<open>admissionChecks\<close> is the part before the first \<^verbatim>\<open>await\<close>: it
  either finishes the handler (\<open>Settled\<close>) or leaves it suspended with the session id and
  the authenticated student (\<open>AwaitingStore\<close>), the gateway state untouched.
  \<open>freshAdmission\<close> is the continuation. It does not look at the registry again; of the
  shared state it reads and writes only the adapter's bookkeeping (in
  \<^verbatim>\<open>createLiveSession\<close>) before it registers the context, so it is run in one piece,
  at the instant at which it registers.\<close>

datatype admission_check = Settled "gateway \<times> effect list" | AwaitingStore sessionId string

definition admissionChecks ::
  "clientId \<Rightarrow> handshake \<Rightarrow> conn_env \<Rightarrow> int \<Rightarrow> gateway \<Rightarrow> admission_check" where
  "admissionChecks cid hs env now gw =
     (case query_sessionId hs of
        None \<Rightarrow> Settled (reject cid MissingTarget ''Missing sessionId'' gw)
      | Some sid \<Rightarrow>
          if sid = [] then Settled (reject cid MissingTarget ''Missing sessionId'' gw)
          else if \<not> truthyStr (token hs) then
            Settled (reject cid MissingCredential ''Authentication required'' gw)
          else
            (case verifyAccessToken env of
               None \<Rightarrow> Settled (reject cid InvalidCredential ''Invalid or expired token'' gw)
             | Some authenticatedStudentId \<Rightarrow>
                 (case findSessionBySessionId gw sid of
                    Some (oldClientId, r) \<Rightarrow>
                      (case ctxAt gw r of
                         None \<Rightarrow> Settled (unexpected cid gw)
                       | Some existingContext \<Rightarrow>
                           (case disconnectTimer existingContext of
                              Some h \<Rightarrow>
                                if studentId existingContext \<noteq> authenticatedStudentId then
                                  Settled (reject cid OwnershipMismatch
                                    ''Session does not belong to authenticated student'' gw)
                                else Settled (reconnect cid sid oldClientId r existingContext h now gw)
                            | None \<Rightarrow>
                                Settled (reject cid DuplicateConnection
                                  ''Session already connected'' gw)))
                  | None \<Rightarrow> AwaitingStore sid authenticatedStudentId)))"

section \<open>handleDisconnect and the grace-period callback\<close>

definition saveIfNonEmpty :: "sessionId \<Rightarrow> ConversationMessage list \<Rightarrow> effect list" where
  "saveIfNonEmpty sid history = (if history \<noteq> [] then [SaveTranscript sid history] else [])"

definition handleDisconnect :: "clientId \<Rightarrow> int \<Rightarrow> gateway \<Rightarrow> gateway \<times> effect list" where
  "handleDisconnect cid now gw =
     (case map_of (sessions gw) cid of
        None \<Rightarrow> (gw, [])
      | Some r \<Rightarrow>
          (case ctxAt gw r of
             None \<Rightarrow> (gw, [])
           | Some context \<Rightarrow>
               (let gw1 = clearTimeoutOpt (disconnectTimer context) gw;
                    gw2 = clearTimeoutOpt (pauseTimer context) gw1;
                    gw3 = modify r (\<lambda>c. c\<lparr>timerHandles := []\<rparr>)
                            (clearTimeouts (timerHandles context) gw2);
                    gw4 = (case pauseGeminiCloseTimer context of
                             None \<Rightarrow> gw3
                           | Some h \<Rightarrow>
                               modify r (\<lambda>c. c\<lparr>pauseGeminiCloseTimer := None\<rparr>)
                                 (clearTimeout h gw3));
                    gw5 = clearIdle cid gw4;
                    es = saveIfNonEmpty (sessionId context) (conversationHistory context);
                    gw6 = modify r (\<lambda>c. c\<lparr>elapsedSeconds := getElapsedSeconds c now\<rparr>) gw5;
                    gw7 = modify r (\<lambda>c. c\<lparr>status := GracePeriod\<rparr>) gw6;
                    (graceTimeout, gw8) = setTimeout (GraceTimeout cid r) 5000 now gw7;
                    gw9 = modify r (\<lambda>c. c\<lparr>disconnectTimer := Some graceTimeout\<rparr>) gw8
                in (gw9, es))))"

text \<open>What a timer callback finds when it runs: whether the provider's close throws and
  what the \<^verbatim>\<open>exam_sessions\<close> status query returns.\<close>

record timer_env =
  closeThrows :: bool
  statusQ :: "string query_result"

definition closeGemini :: "sessionId \<Rightarrow> bool \<Rightarrow> gateway \<Rightarrow> gateway \<times> effect list" where
  "closeGemini sid t gw =
     (let (raised, as', es) = closeLiveSession sid t (gemini gw)
      in (gw\<lparr>gemini := as'\<rparr>, es))"

text \<open>The callback passed to \<^verbatim>\<open>setTimeout(..., 5000)\<close> in \<^verbatim>\<open>handleDisconnect\<close>.
  It uses the captured \<^verbatim>\<open>context\<close> and \<^verbatim>\<open>client\<close>. A throwing status query is
  caught and logged, so the registry entry is then not deleted.\<close>

definition graceTimeoutBody ::
  "clientId \<Rightarrow> ref \<Rightarrow> timer_env \<Rightarrow> gateway \<Rightarrow> gateway \<times> effect list" where
  "graceTimeoutBody cid r env gw =
     (case ctxAt gw r of
        None \<Rightarrow> (gw, [])
      | Some context \<Rightarrow>
          (let (gw1, es) = closeGemini (sessionId context) (closeThrows env) gw in
           case statusQ env of
             Threw \<Rightarrow> (gw1, es)
           | NoRow \<Rightarrow> (gw1\<lparr>sessions := AList.delete cid (sessions gw1)\<rparr>, es)
           | Row st \<Rightarrow>
               (gw1\<lparr>sessions := AList.delete cid (sessions gw1)\<rparr>,
                es @ (if st = ''active'' \<or> st = ''paused''
                      then [UpdateExamSession (sessionId context) ''interrupted''
                              (Some (elapsedSeconds context))]
                      else []))))"


text \<open>The grace callback is \<^verbatim>\<open>async\<close> too: it closes the adapter handle, then waits
  for the \<^verbatim>\<open>exam_sessions\<close> status query, and only afterwards persists and deletes
  the registry entry. \<open>graceTimeoutBegin\<close> is the part before the \<^verbatim>\<open>await\<close> and
  \<open>graceTimeoutFinish\<close> the part after it, which reads the captured context again
  (\<^verbatim>\<open>context.sessionId\<close>, \<^verbatim>\<open>context.elapsedSeconds\<close>) but not the registry.\<close>

definition graceTimeoutBegin :: "ref \<Rightarrow> bool \<Rightarrow> gateway \<Rightarrow> gateway \<times> effect list" where
  "graceTimeoutBegin r t gw =
     (case ctxAt gw r of
        None \<Rightarrow> (gw, [])
      | Some context \<Rightarrow> closeGemini (sessionId context) t gw)"

definition graceTimeoutFinish ::
  "clientId \<Rightarrow> ref \<Rightarrow> string query_result \<Rightarrow> gateway \<Rightarrow> gateway \<times> effect list" where
  "graceTimeoutFinish cid r q gw =
     (case ctxAt gw r of
        None \<Rightarrow> (gw, [])
      | Some context \<Rightarrow>
          (case q of
             Threw \<Rightarrow> (gw, [])
           | NoRow \<Rightarrow> (gw\<lparr>sessions := AList.delete cid (sessions gw)\<rparr>, [])
           | Row st \<Rightarrow>
               (gw\<lparr>sessions := AList.delete cid (sessions gw)\<rparr>,
                if st = ''active'' \<or> st = ''paused''
                then [UpdateExamSession (sessionId context) ''interrupted''
                        (Some (elapsedSeconds context))]
                else [])))"

section \<open>handleAudioChunk\<close>

text \<open>\<open>audioData\<close> is \<^verbatim>\<open>payload.data\<close>, \<open>None\<close> when it is missing or not a string;
  \<open>validBase64\<close> is the outcome of the runtime's round trip
  \<^verbatim>\<open>Buffer.from(str, 'base64').toString('base64') === str\<close>; \<open>sendThrows\<close> says
  whether the provider's \<^verbatim>\<open>sendRealtimeInput\<close> throws.\<close>

record audio_env =
  audioData :: "string option"
  validBase64 :: bool
  sendThrows :: bool

definition errorEvent :: "clientId \<Rightarrow> string \<Rightarrow> effect list" where
  "errorEvent cid code = [Emit cid (ErrorEvent code)]"

definition recentChunks :: "SessionContext \<Rightarrow> int \<Rightarrow> int list" where
  "recentChunks context now = filter (\<lambda>t. now - t < 1000) (chunkTimestamps context)"

text \<open>\<^verbatim>\<open>push(now)\<close> followed by \<^verbatim>\<open>slice(-100)\<close> when more than 100 are held.\<close>

definition recordChunk :: "int \<Rightarrow> int list \<Rightarrow> int list" where
  "recordChunk now ts =
     (let ts' = ts @ [now]
      in if length ts' > 100 then drop (length ts' - 100) ts' else ts')"

text \<open>The \<^verbatim>\<open>catch (geminiError)\<close> block around the forward to the provider.\<close>

definition audioForwardFailed ::
  "clientId \<Rightarrow> ref \<Rightarrow> string \<Rightarrow> int \<Rightarrow> gateway \<Rightarrow> gateway \<times> effect list" where
  "audioForwardFailed cid r message now gw =
     (let gw1 = modify r (\<lambda>c. c\<lparr>lastGeminiError := Some message\<rparr>) gw;
          gw2 = modify r (\<lambda>c. c\<lparr>status := Interrupted\<rparr>) gw1
      in case ctxAt gw2 r of
           None \<Rightarrow> (gw2, [])
         | Some context \<Rightarrow>
             (gw2,
              [Emit cid (GeminiError ''AUDIO_FORWARD_FAILED'')]
              @ saveIfNonEmpty (sessionId context) (conversationHistory context)
              @ [UpdateExamSession (sessionId context) ''interrupted''
                   (Some (getElapsedSeconds context now))]))"

definition forwardAudio ::
  "clientId \<Rightarrow> ref \<Rightarrow> SessionContext \<Rightarrow> string \<Rightarrow> bool \<Rightarrow> int \<Rightarrow> gateway
     \<Rightarrow> gateway \<times> effect list" where
  "forwardAudio cid r context d throws now gw =
     (if \<not> isSessionActive (gemini gw) (sessionId context) then
        (gw, errorEvent cid ''GEMINI_SESSION_NOT_FOUND'')
      else
        (case sendAudioChunk (sessionId context) d throws (gemini gw) of
           Inl message \<Rightarrow> audioForwardFailed cid r message now gw
         | Inr es \<Rightarrow>
             (let (idleTimeout, gw1) = setTimeout (IdleTimer r) 60000 now gw
              in (gw1\<lparr>idleTimeouts := AList.update cid idleTimeout (idleTimeouts gw1)\<rparr>, es))))"

definition handleAudioChunk ::
  "clientId \<Rightarrow> audio_env \<Rightarrow> int \<Rightarrow> gateway \<Rightarrow> gateway \<times> effect list" where
  "handleAudioChunk cid env now gw =
     (case map_of (sessions gw) cid of
        None \<Rightarrow> (gw, errorEvent cid ''SESSION_NOT_FOUND'')
      | Some r \<Rightarrow>
          (case ctxAt gw r of
             None \<Rightarrow> (gw, errorEvent cid ''SESSION_NOT_FOUND'')
           | Some context \<Rightarrow>
               if status context \<noteq> Active then (gw, errorEvent cid ''SESSION_NOT_ACTIVE'')
               else
                 (let gw1 = clearIdle cid (modify r (\<lambda>c. c\<lparr>lastAudioTimestamp := now\<rparr>) gw) in
                  case audioData env of
                    None \<Rightarrow> (gw1, errorEvent cid ''INVALID_AUDIO_FORMAT'')
                  | Some d \<Rightarrow>
                      if d = [] then (gw1, errorEvent cid ''INVALID_AUDIO_FORMAT'')
                      else if \<not> validBase64 env then (gw1, errorEvent cid ''INVALID_BASE64'')
                      else if int (length d) > 100 * 1024 then
                        (gw1, errorEvent cid ''AUDIO_CHUNK_TOO_LARGE'')
                      else if length (recentChunks context now) \<ge> 50 then
                        (gw1, errorEvent cid ''RATE_LIMIT_EXCEEDED'')
                      else
                        forwardAudio cid r context d (sendThrows env) now
                          (modify r (\<lambda>c. c\<lparr>chunkTimestamps :=
                                               recordChunk now (chunkTimestamps c)\<rparr>) gw1))))"

section \<open>handlePauseSession, handleResumeSession and the pause callback\<close>

definition handlePauseSession ::
  "clientId \<Rightarrow> bool \<Rightarrow> int \<Rightarrow> gateway \<Rightarrow> gateway \<times> effect list" where
  "handlePauseSession cid dbError now gw =
     (case map_of (sessions gw) cid of
        None \<Rightarrow> (gw, errorEvent cid ''SESSION_NOT_FOUND'')
      | Some r \<Rightarrow>
          (case ctxAt gw r of
             None \<Rightarrow> (gw, errorEvent cid ''SESSION_NOT_FOUND'')
           | Some context \<Rightarrow>
               if status context \<noteq> Active then
                 (gw, errorEvent cid ''INVALID_SESSION_STATE'')
               else
                 (let gw1 = clearIdle cid gw;
                      gw2 = (if timerHandles context \<noteq> []
                             then modify r (\<lambda>c. c\<lparr>timerHandles := []\<rparr>)
                                    (clearTimeouts (timerHandles context) gw1)
                             else gw1);
                      gw3 = modify r (\<lambda>c. c\<lparr>status := Paused\<rparr>) gw2;
                      gw4 = modify r (\<lambda>c. c\<lparr>elapsedSeconds := getElapsedSeconds c now\<rparr>) gw3;
                      elapsed = (case ctxAt gw4 r of
                                   None \<Rightarrow> elapsedSeconds context
                                 | Some c \<Rightarrow> elapsedSeconds c);
                      upd = UpdateExamSession (sessionId context) ''paused'' (Some elapsed)
                  in if dbError then (gw4, upd # errorEvent cid ''DATABASE_ERROR'')
                     else
                       (let (pauseCloseTimer, gw5) =
                              setTimeout (PauseCloseTimer cid r) 60000 now gw4;
                            gw6 = modify r (\<lambda>c. c\<lparr>pauseGeminiCloseTimer :=
                                                   Some pauseCloseTimer\<rparr>) gw5
                        in (gw6, [upd, Emit cid (SessionPaused elapsed)])))))"

text \<open>\<^verbatim>\<open>handlePauseSession\<close> waits for the \<^verbatim>\<open>exam_sessions\<close> update between
  marking the context paused and scheduling the pause callback. \<open>pauseBegin\<close> is the
  part before the \<^verbatim>\<open>await\<close>; its second component is the captured context when
  the handler is suspended there and \<open>None\<close> when it has returned. \<open>pauseComplete\<close>
  is the part after the \<^verbatim>\<open>await\<close>, run at the instant the update has answered.\<close>

definition pauseBegin ::
  "clientId \<Rightarrow> int \<Rightarrow> gateway \<Rightarrow> (gateway \<times> effect list) \<times> ref option" where
  "pauseBegin cid now gw =
     (case map_of (sessions gw) cid of
        None \<Rightarrow> ((gw, errorEvent cid ''SESSION_NOT_FOUND''), None)
      | Some r \<Rightarrow>
          (case ctxAt gw r of
             None \<Rightarrow> ((gw, errorEvent cid ''SESSION_NOT_FOUND''), None)
           | Some context \<Rightarrow>
               if status context \<noteq> Active then
                 ((gw, errorEvent cid ''INVALID_SESSION_STATE''), None)
               else
                 (let gw1 = clearIdle cid gw;
                      gw2 = (if timerHandles context \<noteq> []
                             then modify r (\<lambda>c. c\<lparr>timerHandles := []\<rparr>)
                                    (clearTimeouts (timerHandles context) gw1)
                             else gw1);
                      gw3 = modify r (\<lambda>c. c\<lparr>status := Paused\<rparr>) gw2;
                      gw4 = modify r (\<lambda>c. c\<lparr>elapsedSeconds := getElapsedSeconds c now\<rparr>) gw3;
                      elapsed = (case ctxAt gw4 r of
                                   None \<Rightarrow> elapsedSeconds context
                                 | Some c \<Rightarrow> elapsedSeconds c)
                  in ((gw4, [UpdateExamSession (sessionId context) ''paused'' (Some elapsed)]),
                      Some r))))"

definition pauseComplete ::
  "clientId \<Rightarrow> ref \<Rightarrow> bool \<Rightarrow> int \<Rightarrow> gateway \<Rightarrow> gateway \<times> effect list" where
  "pauseComplete cid r dbError now gw =
     (if dbError then (gw, errorEvent cid ''DATABASE_ERROR'')
      else
        (let (pauseCloseTimer, gw5) = setTimeout (PauseCloseTimer cid r) 60000 now gw;
             gw6 = modify r (\<lambda>c. c\<lparr>pauseGeminiCloseTimer := Some pauseCloseTimer\<rparr>) gw5
         in (gw6,
             (case ctxAt gw6 r of
                None \<Rightarrow> []
              | Some context \<Rightarrow> [Emit cid (SessionPaused (elapsedSeconds context))]))))"

text \<open>The callback passed to \<^verbatim>\<open>setTimeout(..., 60000)\<close> in
  \<^verbatim>\<open>handlePauseSession\<close>; it uses the captured \<^verbatim>\<open>context\<close> and \<^verbatim>\<open>client\<close>.\<close>

definition pauseCloseBody ::
  "clientId \<Rightarrow> ref \<Rightarrow> timer_env \<Rightarrow> gateway \<Rightarrow> gateway \<times> effect list" where
  "pauseCloseBody cid r env gw =
     (case ctxAt gw r of
        None \<Rightarrow> (gw, [])
      | Some context \<Rightarrow>
          (let (gw1, es) = closeGemini (sessionId context) (closeThrows env) gw;
               gw2 = modify r (\<lambda>c. c\<lparr>status := GracePeriod\<rparr>) gw1
           in (gw2, es @ (if isConnected gw2 cid then [Emit cid PauseTimeout] else []))))"

text \<open>The tail of \<^verbatim>\<open>handleResumeSession\<close> after the provider session is known to
  exist: status, the shifted start time, the timers, the status update.\<close>

definition resumeContext :: "clientId \<Rightarrow> ref \<Rightarrow> int \<Rightarrow> gateway \<Rightarrow> gateway \<times> effect list" where
  "resumeContext cid r now gw =
     (let gw1 = modify r (\<lambda>c. c\<lparr>status := Active, lastAudioTimestamp := now\<rparr>) gw;
          gw2 = modify r (\<lambda>c. c\<lparr>startTime := now - elapsedSeconds c * 1000\<rparr>) gw1
      in case ctxAt gw2 r of
           None \<Rightarrow> (gw2, [])
         | Some context \<Rightarrow>
             (let gw3 = modify r (\<lambda>c. c\<lparr>timerHandles := []\<rparr>)
                          (clearTimeouts (timerHandles context) gw2);
                  gw4 = (if truthyNum (timeLimit context) \<and> expectedEndTime context \<noteq> None
                         then
                           setupAutoEnd cid r now
                             (setupTimerWarnings cid r now
                                (modify r (\<lambda>c. c\<lparr>expectedEndTime :=
                                     (case timeLimit c of
                                        None \<Rightarrow> None
                                      | Some lim \<Rightarrow> Some (startTime c + lim * 1000))\<rparr>) gw3))
                         else gw3)
              in (gw4,
                  [UpdateExamSession (sessionId context) ''active'' None,
                   Emit cid SessionResumed])))"

definition handleResumeSession ::
  "clientId \<Rightarrow> create_outcome \<Rightarrow> int \<Rightarrow> gateway \<Rightarrow> gateway \<times> effect list" where
  "handleResumeSession cid outcome now gw =
     (case map_of (sessions gw) cid of
        None \<Rightarrow> (gw, errorEvent cid ''SESSION_NOT_FOUND'')
      | Some r \<Rightarrow>
          (case ctxAt gw r of
             None \<Rightarrow> (gw, errorEvent cid ''SESSION_NOT_FOUND'')
           | Some context \<Rightarrow>
               if status context \<noteq> Paused \<and> status context \<noteq> GracePeriod then
                 (gw, errorEvent cid ''INVALID_SESSION_STATE'')
               else
                 (let gw1 = (case pauseGeminiCloseTimer context of
                               None \<Rightarrow> gw
                             | Some h \<Rightarrow>
                                 modify r (\<lambda>c. c\<lparr>pauseGeminiCloseTimer := None\<rparr>)
                                   (clearTimeout h gw))
                  in if \<not> isSessionActive (gemini gw1) (sessionId context) then
                       (let (resolved, as', es) =
                              createLiveSession (sessionId context) (teilNumber context)
                                (conversationHistory context) outcome (gemini gw1);
                            gw2 = gw1\<lparr>gemini := as'\<rparr>
                        in if \<not> resolved then
                             (gw2, es @ errorEvent cid ''GEMINI_REINIT_FAILED'')
                           else (let (gw3, es') = resumeContext cid r now gw2
                                 in (gw3, es @ es')))
                     else resumeContext cid r now gw1)))"

section \<open>Timer callbacks of the exam timer, and the provider callback\<close>

definition warningBody :: "clientId \<Rightarrow> ref \<Rightarrow> int \<Rightarrow> gateway \<Rightarrow> gateway \<times> effect list" where
  "warningBody cid r threshold gw =
     (if map_of (sessions gw) cid \<noteq> None \<and> isConnected gw cid
      then (gw, [Emit cid (TimeWarning threshold)])
      else (gw, []))"

text \<open>The auto-end callback. \<open>currentContext\<close> is re-read from the registry by socket
  id; \<^verbatim>\<open>context\<close> is the captured object, whose \<^verbatim>\<open>sessionId\<close> and
  \<^verbatim>\<open>timeLimit\<close> go into the status update.\<close>

definition autoEndBody ::
  "clientId \<Rightarrow> ref \<Rightarrow> timer_env \<Rightarrow> gateway \<Rightarrow> gateway \<times> effect list" where
  "autoEndBody cid r env gw =
     (case map_of (sessions gw) cid of
        None \<Rightarrow> (gw, [])
      | Some r' \<Rightarrow>
          (case ctxAt gw r' of
             None \<Rightarrow> (gw, [])
           | Some currentContext \<Rightarrow>
               if status currentContext \<noteq> Active \<and> status currentContext \<noteq> Paused
               then (gw, [])
               else
                 (case ctxAt gw r of
                    None \<Rightarrow> (gw, [])
                  | Some context \<Rightarrow>
                      (let es1 = saveIfNonEmpty (sessionId currentContext)
                                   (conversationHistory currentContext);
                           es2 = [UpdateExamSession (sessionId context) ''completed''
                                    (timeLimit context)];
                           (gw1, es3) = closeGemini (sessionId context) (closeThrows env) gw;
                           es4 = [Emit cid (SessionEnded ''timer_expired'')];
                           gw2 = gw1\<lparr>sessions := AList.delete cid (sessions gw1)\<rparr>;
                           gw3 = clearIdle cid gw2;
                           gw4 = markDisconnected cid gw3
                       in (gw4, es1 @ es2 @ es3 @ es4 @ [Disconnect cid])))))"

text \<open>The runtime running a due callback: the handle stops being pending and the closure
  runs. A handle that was cleared, or already fired, runs nothing. The idle callback only
  logs. The instant of the firing is not constrained by the recorded due time, so every
  order in which pending callbacks may run is covered.\<close>

definition fireTimer :: "handle \<Rightarrow> timer_env \<Rightarrow> gateway \<Rightarrow> gateway \<times> effect list" where
  "fireTimer h env gw =
     (case map_of (timers gw) h of
        None \<Rightarrow> (gw, [])
      | Some (due, body) \<Rightarrow>
          (let gw' = clearTimeout h gw in
           case body of
             GraceTimeout cid r \<Rightarrow> graceTimeoutBody cid r env gw'
           | PauseCloseTimer cid r \<Rightarrow> pauseCloseBody cid r env gw'
           | WarningTimer cid r threshold \<Rightarrow> warningBody cid r threshold gw'
           | AutoEndTimer cid r \<Rightarrow> autoEndBody cid r env gw'
           | IdleTimer r \<Rightarrow> (gw', [])))"

text \<open>\<^verbatim>\<open>onAudioResponse\<close> of \<^verbatim>\<open>createGeminiCallbacks(client, context)\<close>: the
  only place that appends to the conversation history.\<close>

definition onAudioResponse ::
  "clientId \<Rightarrow> ref \<Rightarrow> string option \<Rightarrow> int \<Rightarrow> gateway \<Rightarrow> gateway \<times> effect list" where
  "onAudioResponse cid r response_text now gw =
     (if isConnected gw cid then
        (modify r (\<lambda>c. c\<lparr>conversationHistory := conversationHistory c @
            [\<lparr>speaker = Elena,
              msg_text = (if truthyStr response_text
                          then (case response_text of Some s \<Rightarrow> s | None \<Rightarrow> [])
                          else ''[Audio response received]''),
              timestamp = now\<rparr>]\<rparr>) gw,
         [Emit cid (AudioResponse response_text)])
      else (gw, []))"


section \<open>The explicit end of a session (SpeakingService.endSession)\<close>

text \<open>The REST path \<^verbatim>\<open>POST /api/speaking/session/:sessionId/end\<close>. The row is the
  result of the ownership-filtered \<^verbatim>\<open>exam_sessions\<close> query; \<open>updateError\<close> is the
  error field of the status update. The result is the thrown exception or the computed
  duration with the evaluable flag; the word and message counts of the response are not
  modelled. The effects are in the order the method performs them.\<close>

record end_session_row =
  row_status :: string
  row_server_start_time :: int
  row_elapsed_time :: int
  row_pause_timestamp :: "int option"

definition totalElapsedSeconds :: "end_session_row \<Rightarrow> int \<Rightarrow> int" where
  "totalElapsedSeconds session now =
     (case row_pause_timestamp session of
        Some pauseTime \<Rightarrow>
          if row_status session = ''paused''
          then row_elapsed_time session + (now - pauseTime) div 1000
          else (now - row_server_start_time session) div 1000
      | None \<Rightarrow> (now - row_server_start_time session) div 1000)"

definition endSession ::
  "sessionId \<Rightarrow> string \<Rightarrow> string option \<Rightarrow> ConversationMessage list option
     \<Rightarrow> end_session_row option \<Rightarrow> bool \<Rightarrow> int \<Rightarrow> (string + int \<times> bool) \<times> effect list" where
  "endSession sid student reason history sessionQ updateError now =
     (case sessionQ of
        None \<Rightarrow> (Inl ''SESSION_NOT_FOUND'', [])
      | Some session \<Rightarrow>
          (let total = totalElapsedSeconds session now;
               isEvaluable = (total \<ge> 120);
               upd = UpdateExamSession sid
                       (if reason = Some ''cancelled'' then ''cancelled'' else ''completed'')
                       (Some total)
           in if updateError then (Inl ''FAILED_TO_END_SESSION'', [upd])
              else (Inr (total, isEvaluable),
                    upd # (case history of
                             None \<Rightarrow> []
                           | Some conversation \<Rightarrow> saveIfNonEmpty sid conversation))))"

section \<open>Events and reachable states\<close>

text \<open>One event is one run of a handler or of a due callback, taken together with its
  continuations: \<open>step\<close>, \<open>run\<close> and \<open>reachable\<close> describe the runs in which no
  other handler starts while one is waiting at an \<^verbatim>\<open>await\<close>. Runs in which handlers
  overlap are put together from the parts of the handlers (\<open>admissionChecks\<close> and
  \<open>freshAdmission\<close>, \<open>pauseBegin\<close> and \<open>pauseComplete\<close>,
  \<open>graceTimeoutBegin\<close> and \<open>graceTimeoutFinish\<close>). The socket layer marks a socket
  connected before \<^verbatim>\<open>handleConnection\<close> runs and disconnected before
  \<^verbatim>\<open>handleDisconnect\<close> runs. A socket id is fresh when the connection is made, and
  only a connected socket delivers messages.\<close>

definition markConnected :: "clientId \<Rightarrow> gateway \<Rightarrow> gateway" where
  "markConnected cid gw = gw\<lparr>connected := List.insert cid (connected gw)\<rparr>"

datatype event =
    Connect clientId handshake conn_env
  | ClientGone clientId
  | AudioChunk clientId audio_env
  | PauseRequest clientId bool
  | ResumeRequest clientId create_outcome
  | TimerFires handle timer_env
  | ProviderResponse clientId ref "string option"

fun step :: "event \<Rightarrow> int \<Rightarrow> gateway \<Rightarrow> gateway \<times> effect list" where
  "step (Connect cid hs env) now gw = handleConnection cid hs env now (markConnected cid gw)"
| "step (ClientGone cid) now gw = handleDisconnect cid now (markDisconnected cid gw)"
| "step (AudioChunk cid env) now gw = handleAudioChunk cid env now gw"
| "step (PauseRequest cid dbError) now gw = handlePauseSession cid dbError now gw"
| "step (ResumeRequest cid outcome) now gw = handleResumeSession cid outcome now gw"
| "step (TimerFires h env) now gw = fireTimer h env gw"
| "step (ProviderResponse cid r response_text) now gw = onAudioResponse cid r response_text now gw"

fun enabled :: "event \<Rightarrow> gateway \<Rightarrow> bool" where
  "enabled (Connect cid hs env) gw =
     (\<not> isConnected gw cid \<and> map_of (sessions gw) cid = None)"
| "enabled (ClientGone cid) gw = True"
| "enabled (AudioChunk cid env) gw = isConnected gw cid"
| "enabled (PauseRequest cid dbError) gw = isConnected gw cid"
| "enabled (ResumeRequest cid outcome) gw = isConnected gw cid"
| "enabled (TimerFires h env) gw = True"
| "enabled (ProviderResponse cid r response_text) gw = True"

inductive reachable :: "gateway \<Rightarrow> bool" where
  reachable_init: "reachable init_gateway"
| reachable_step: "reachable gw \<Longrightarrow> enabled e gw \<Longrightarrow> reachable (fst (step e now gw))"

text \<open>Running a list of timed events from a state, collecting the effects.\<close>

fun run :: "(event \<times> int) list \<Rightarrow> gateway \<Rightarrow> gateway \<times> effect list" where
  "run [] gw = (gw, [])"
| "run ((e, now) # rest) gw =
     (let (gw1, es1) = step e now gw; (gw2, es2) = run rest gw1 in (gw2, es1 @ es2))"


text \<open>\<open>runnable\<close>: every event of the list is enabled in the state in which it runs.\<close>

fun runnable :: "(event \<times> int) list \<Rightarrow> gateway \<Rightarrow> bool" where
  "runnable [] gw = True"
| "runnable ((e, now) # rest) gw = (enabled e gw \<and> runnable rest (fst (step e now gw)))"


section \<open>A sample session\<close>

text \<open>A timed Teil 1 session \<open>s\<close> of student \<open>stu\<close>, started at instant 0, admitted for
  socket \<open>A\<close>; used to run the handlers on concrete inputs.\<close>

definition sample_exam :: exam_session where
  "sample_exam = \<lparr>es_status = ''active'', student_id = ''stu'', teil_number = 1,
     server_start_time = 0, elapsed_time = None, use_timer = True\<rparr>"

definition sample_env :: conn_env where
  "sample_env = \<lparr>verifyAccessToken = Some ''stu'', examSessionQ = Row sample_exam,
     studentQ = Row ''code'', activationQ = Row \<lparr>ac_status = ''active'', expires_at = None\<rparr>,
     createOutcome = SetupComplete\<rparr>"

definition sample_handshake :: handshake where
  "sample_handshake = \<lparr>query_sessionId = Some ''s'', token = Some ''t''\<rparr>"

definition quiet :: timer_env where
  "quiet = \<lparr>closeThrows = False, statusQ = Row ''active''\<rparr>"

text \<open>Admitted at 0, paused after 100 s, resumed 30 s later.\<close>

definition paused_resumed :: gateway where
  "paused_resumed =
     fst (run [(Connect ''A'' sample_handshake sample_env, 0),
               (PauseRequest ''A'' False, 100000),
               (ResumeRequest ''A'' SetupComplete, 130000)] init_gateway)"


text \<open>The sample session right after admission, and after \<open>n\<close> well-formed audio
  chunks that all arrive at instant 500; \<open>flooded\<close> is the state after fifty of them.\<close>

definition admitted :: gateway where
  "admitted = fst (step (Connect ''A'' sample_handshake sample_env) 0 init_gateway)"

definition sample_audio :: audio_env where
  "sample_audio = \<lparr>audioData = Some ''AAAA'', validBase64 = True, sendThrows = False\<rparr>"

text \<open>Two payloads that fail a check: \<^verbatim>\<open>!!!!\<close> decodes to nothing, so the Base64
  round trip does not give it back; 102404 letters \<^verbatim>\<open>A\<close> are valid Base64 (76803 zero
  bytes) and longer than 100 KB.\<close>

definition malformed_audio :: audio_env where
  "malformed_audio = \<lparr>audioData = Some ''!!!!'', validBase64 = False, sendThrows = False\<rparr>"

definition oversized_audio :: audio_env where
  "oversized_audio =
     \<lparr>audioData = Some (replicate 102404 (CHR ''A'')), validBase64 = True, sendThrows = False\<rparr>"

definition arrivals :: "nat \<Rightarrow> gateway" where
  "arrivals n = ((\<lambda>gw. fst (step (AudioChunk ''A'' sample_audio) 500 gw)) ^^ n) admitted"

definition flooded :: gateway where
  "flooded = arrivals 50"


text \<open>The sample session paused after 100 s and left paused until the 60 s pause
  callback (handle 4) has fired.\<close>

definition pause_expired :: gateway where
  "pause_expired =
     fst (run [(Connect ''A'' sample_handshake sample_env, 0),
               (PauseRequest ''A'' False, 100000),
               (TimerFires 4 quiet, 160000)] init_gateway)"

text \<open>The sample session after the examiner spoke once and the socket dropped at 100 s.\<close>

definition dropped :: gateway where
  "dropped =
     fst (run [(Connect ''A'' sample_handshake sample_env, 0),
               (ProviderResponse ''A'' 0 (Some ''Guten Tag''), 2000),
               (ClientGone ''A'', 100000)] init_gateway)"


text \<open>The sample session paused after 100 s (the pause callback, handle 4, is pending).\<close>

definition paused :: gateway where
  "paused =
     fst (run [(Connect ''A'' sample_handshake sample_env, 0),
               (PauseRequest ''A'' False, 100000)] init_gateway)"

text \<open>The same run for a session whose row already records 100 s of elapsed time.\<close>

definition paused_resumed_from_row :: gateway where
  "paused_resumed_from_row =
     fst (run [(Connect ''A'' sample_handshake
                  (sample_env\<lparr>examSessionQ := Row (sample_exam\<lparr>elapsed_time := Some 100\<rparr>)\<rparr>), 0),
               (PauseRequest ''A'' False, 100000),
               (ResumeRequest ''A'' SetupComplete, 130000)] init_gateway)"


text \<open>The sample session after a forward to the provider failed at 5 s: the context is
  interrupted and still registered, and the exam timers (handles 0 to 3) are pending.\<close>

definition forward_failed :: gateway where
  "forward_failed =
     fst (step (AudioChunk ''A'' (sample_audio\<lparr>sendThrows := True\<rparr>)) 5000 admitted)"


text \<open>The sample session after the examiner spoke once.\<close>

definition spoken :: gateway where
  "spoken =
     fst (run [(Connect ''A'' sample_handshake sample_env, 0),
               (ProviderResponse ''A'' 0 (Some ''Guten Tag''), 2000)] init_gateway)"


text \<open>Two sockets \<open>A\<close> and \<open>B\<close> both name the sample session. \<open>A\<close> connects at
  instant 0 and \<open>B\<close> at instant 10, while the handler of \<open>A\<close> is waiting for the
  \<^verbatim>\<open>exam_sessions\<close> query: in \<open>both_connecting\<close> both handlers are suspended and
  the registry is still empty. The continuation of \<open>A\<close> runs at instant 20 and the
  continuation of \<open>B\<close> at instant 30.\<close>

definition both_connecting :: gateway where
  "both_connecting = markConnected ''B'' (markConnected ''A'' init_gateway)"

definition first_admitted :: gateway where
  "first_admitted = fst (freshAdmission ''A'' ''s'' ''stu'' sample_env 20 both_connecting)"

definition both_admitted :: gateway where
  "both_admitted = fst (freshAdmission ''B'' ''s'' ''stu'' sample_env 30 first_admitted)"

text \<open>The sample session receives \<^verbatim>\<open>pause_session\<close> at 100 s and
  \<^verbatim>\<open>resume_session\<close> 5 ms later, while the pause handler is still waiting for its
  database update; the update answers at 100.010 s and the pause handler then schedules
  the pause callback (handle 8).\<close>

definition pause_overtaken :: gateway where
  "pause_overtaken =
     (let gw1 = fst (fst (pauseBegin ''A'' 100000 admitted));
          gw2 = fst (handleResumeSession ''A'' SetupComplete 100005 gw1)
      in fst (pauseComplete ''A'' 0 False 100010 gw2))"

text \<open>The socket of the sample session dropped at 100 s (\<open>dropped\<close>). The grace
  callback (handle 4) starts at 105 s, closes the adapter handle and waits for the status
  query; 1 ms later the same student reconnects on socket \<open>B\<close>.\<close>

definition grace_overtaken :: gateway where
  "grace_overtaken =
     (let gw1 = fst (graceTimeoutBegin 0 False (clearTimeout 4 dropped))
      in fst (handleConnection ''B'' sample_handshake sample_env 105001 (markConnected ''B'' gw1)))"

text \<open>The row of the sample session as the explicit end reads it, and the message the
  examiner has spoken in \<open>spoken\<close>.\<close>

definition sample_row :: end_session_row where
  "sample_row = \<lparr>row_status = ''active'', row_server_start_time = 0, row_elapsed_time = 0,
     row_pause_timestamp = None\<rparr>"

definition greeting :: ConversationMessage where
  "greeting = \<lparr>speaker = Elena, msg_text = ''Guten Tag'', timestamp = 2000\<rparr>"

section \<open>Observations on states and effect traces\<close>

definition persisted :: "effect list \<Rightarrow> (sessionId \<times> string \<times> int option) list" where
  "persisted es =
     concat (map (\<lambda>e. case e of UpdateExamSession s st el \<Rightarrow> [(s, st, el)] | _ \<Rightarrow> []) es)"

definition transcriptSaves :: "effect list \<Rightarrow> (sessionId \<times> ConversationMessage list) list" where
  "transcriptSaves es =
     concat (map (\<lambda>e. case e of SaveTranscript s h \<Rightarrow> [(s, h)] | _ \<Rightarrow> []) es)"

definition providerSends :: "effect list \<Rightarrow> (sessionId \<times> string) list" where
  "providerSends es =
     concat (map (\<lambda>e. case e of ProviderSend s d \<Rightarrow> [(s, d)] | _ \<Rightarrow> []) es)"

definition terminalStatus :: "string \<Rightarrow> bool" where
  "terminalStatus st = (st = ''interrupted'' \<or> st = ''completed'' \<or> st = ''cancelled'')"

text \<open>\<open>flushedFirst seen es\<close>: every terminal status update in \<open>es\<close> comes after a
  transcript save (\<open>seen\<close> says whether one happened before \<open>es\<close>).\<close>

fun flushedFirst :: "bool \<Rightarrow> effect list \<Rightarrow> bool" where
  "flushedFirst seen [] = True"
| "flushedFirst seen (SaveTranscript s h # es) = flushedFirst True es"
| "flushedFirst seen (UpdateExamSession s st el # es) =
     ((terminalStatus st \<longrightarrow> seen) \<and> flushedFirst seen es)"
| "flushedFirst seen (e # es) = flushedFirst seen es"

definition connectionErrorCodes :: "effect list \<Rightarrow> nat list" where
  "connectionErrorCodes es =
     concat (map (\<lambda>e. case e of Emit c (ConnectionError code m) \<Rightarrow> [code] | _ \<Rightarrow> []) es)"

text \<open>The registry entries whose context carries a given exam session id.\<close>

definition contextsFor :: "gateway \<Rightarrow> sessionId \<Rightarrow> (clientId \<times> ref) list" where
  "contextsFor gw sid =
     filter (\<lambda>(c, r). case ctxAt gw r of None \<Rightarrow> False | Some ctx \<Rightarrow> sessionId ctx = sid)
       (sessions gw)"

text \<open>The due instants of the pending auto-end callbacks of a context.\<close>

definition autoEndDue :: "gateway \<Rightarrow> ref \<Rightarrow> int list" where
  "autoEndDue gw r =
     concat (map (\<lambda>(h, due, b). case b of AutoEndTimer c r' \<Rightarrow> (if r' = r then [due] else [])
                                  | _ \<Rightarrow> []) (timers gw))"

definition readyEvents :: "effect list \<Rightarrow> (clientId \<times> string) list" where
  "readyEvents es =
     concat (map (\<lambda>e. case e of Emit c (SessionReady s t l st) \<Rightarrow> [(c, st)] | _ \<Rightarrow> []) es)"

text \<open>A trace closes the connection of \<open>cid\<close> with the code of \<open>cause\<close> when it ends
  with the \<^verbatim>\<open>connection_error\<close> event carrying that code followed by the forced
  disconnect.\<close>

definition closesWith :: "clientId \<Rightarrow> rejection \<Rightarrow> effect list \<Rightarrow> bool" where
  "closesWith cid cause es =
     (case rev es of
        Disconnect c # Emit c' (ConnectionError code m) # pre \<Rightarrow>
          c = cid \<and> c' = cid \<and> code = rejectionCode cause
      | _ \<Rightarrow> False)"


text \<open>The registry invariants. \<open>singleFlight\<close>: the registry keys are distinct, every
  entry refers to an allocated context, and no two entries carry the same exam session
  id (references of context objects are below the allocation counter). \<open>graceInv\<close>: a
  registered context with a grace-expiry timer set is in state \<open>GracePeriod\<close> and its
  socket is disconnected.\<close>

definition sessionIdAt :: "gateway \<Rightarrow> ref \<Rightarrow> sessionId option" where
  "sessionIdAt gw r = map_option sessionId (ctxAt gw r)"

definition statusAt :: "gateway \<Rightarrow> ref \<Rightarrow> status option" where
  "statusAt gw r = map_option status (ctxAt gw r)"

definition disconnectTimerAt :: "gateway \<Rightarrow> ref \<Rightarrow> handle option option" where
  "disconnectTimerAt gw r = map_option disconnectTimer (ctxAt gw r)"


definition singleFlight :: "gateway \<Rightarrow> bool" where
  "singleFlight gw =
     ((\<forall>k \<in> fst ` set (heap gw). k < length (heap gw))
      \<and> distinct (map fst (sessions gw))
      \<and> (\<forall>(c, r) \<in> set (sessions gw). ctxAt gw r \<noteq> None)
      \<and> (\<forall>(c1, r1) \<in> set (sessions gw). \<forall>(c2, r2) \<in> set (sessions gw).
            sessionIdAt gw r1 = sessionIdAt gw r2 \<longrightarrow> c1 = c2))"

definition graceInv :: "gateway \<Rightarrow> bool" where
  "graceInv gw =
     (\<forall>(c, r) \<in> set (sessions gw). \<forall>h. disconnectTimerAt gw r = Some (Some h) \<longrightarrow>
        statusAt gw r = Some GracePeriod \<and> c \<notin> set (connected gw))"


section \<open>Basic facts about the state primitives\<close>

lemma modify_fields [simp]:
  "sessions (modify r f gw) = sessions gw"
  "idleTimeouts (modify r f gw) = idleTimeouts gw"
  "timers (modify r f gw) = timers gw"
  "nextHandle (modify r f gw) = nextHandle gw"
  "gemini (modify r f gw) = gemini gw"
  "connected (modify r f gw) = connected gw"
  by (simp_all add: modify_def)

lemma ctxAt_modify [simp]:
  "ctxAt (modify r f gw) r' = (if r' = r then map_option f (ctxAt gw r) else ctxAt gw r')"
  by (auto simp: ctxAt_def modify_def map_of_map_entry split: option.splits)

lemma ctxAt_field_updates [simp]:
  "ctxAt (gw\<lparr>sessions := s\<rparr>) r = ctxAt gw r"
  "ctxAt (gw\<lparr>idleTimeouts := i\<rparr>) r = ctxAt gw r"
  "ctxAt (gw\<lparr>timers := t\<rparr>) r = ctxAt gw r"
  "ctxAt (gw\<lparr>nextHandle := n\<rparr>) r = ctxAt gw r"
  "ctxAt (gw\<lparr>gemini := g\<rparr>) r = ctxAt gw r"
  "ctxAt (gw\<lparr>connected := c\<rparr>) r = ctxAt gw r"
  by (simp_all add: ctxAt_def)


lemma clearTimeout_fields [simp]:
  "sessions (clearTimeout h gw) = sessions gw"
  "heap (clearTimeout h gw) = heap gw"
  "idleTimeouts (clearTimeout h gw) = idleTimeouts gw"
  "nextHandle (clearTimeout h gw) = nextHandle gw"
  "gemini (clearTimeout h gw) = gemini gw"
  "connected (clearTimeout h gw) = connected gw"
  "timers (clearTimeout h gw) = AList.delete h (timers gw)"
  by (simp_all add: clearTimeout_def)

lemma ctxAt_clearTimeout [simp]: "ctxAt (clearTimeout h gw) r = ctxAt gw r"
  by (simp add: ctxAt_def)

lemma clearTimeoutOpt_fields [simp]:
  "sessions (clearTimeoutOpt ho gw) = sessions gw"
  "heap (clearTimeoutOpt ho gw) = heap gw"
  "idleTimeouts (clearTimeoutOpt ho gw) = idleTimeouts gw"
  "nextHandle (clearTimeoutOpt ho gw) = nextHandle gw"
  "gemini (clearTimeoutOpt ho gw) = gemini gw"
  "connected (clearTimeoutOpt ho gw) = connected gw"
  by (simp_all add: clearTimeoutOpt_def split: option.splits)

lemma ctxAt_clearTimeoutOpt [simp]: "ctxAt (clearTimeoutOpt ho gw) r = ctxAt gw r"
  by (simp add: ctxAt_def)

lemma clearTimeouts_fields [simp]:
  "sessions (clearTimeouts hs gw) = sessions gw"
  "heap (clearTimeouts hs gw) = heap gw"
  "idleTimeouts (clearTimeouts hs gw) = idleTimeouts gw"
  "nextHandle (clearTimeouts hs gw) = nextHandle gw"
  "gemini (clearTimeouts hs gw) = gemini gw"
  "connected (clearTimeouts hs gw) = connected gw"
  unfolding clearTimeouts_def by (induction hs arbitrary: gw; simp)+

lemma ctxAt_clearTimeouts [simp]: "ctxAt (clearTimeouts hs gw) r = ctxAt gw r"
  by (simp add: ctxAt_def)

lemma clearIdle_fields [simp]:
  "sessions (clearIdle cid gw) = sessions gw"
  "heap (clearIdle cid gw) = heap gw"
  "nextHandle (clearIdle cid gw) = nextHandle gw"
  "gemini (clearIdle cid gw) = gemini gw"
  "connected (clearIdle cid gw) = connected gw"
  by (simp_all add: clearIdle_def split: option.splits)

lemma ctxAt_clearIdle [simp]: "ctxAt (clearIdle cid gw) r = ctxAt gw r"
  by (simp add: ctxAt_def)

lemma markDisconnected_fields [simp]:
  "sessions (markDisconnected cid gw) = sessions gw"
  "heap (markDisconnected cid gw) = heap gw"
  "idleTimeouts (markDisconnected cid gw) = idleTimeouts gw"
  "timers (markDisconnected cid gw) = timers gw"
  "nextHandle (markDisconnected cid gw) = nextHandle gw"
  "gemini (markDisconnected cid gw) = gemini gw"
  "connected (markDisconnected cid gw) = removeAll cid (connected gw)"
  by (simp_all add: markDisconnected_def)

lemma ctxAt_markDisconnected [simp]: "ctxAt (markDisconnected cid gw) r = ctxAt gw r"
  by (simp add: ctxAt_def)

lemma setTimeout_fields [simp]:
  "fst (setTimeout b d now gw) = nextHandle gw"
  "sessions (snd (setTimeout b d now gw)) = sessions gw"
  "heap (snd (setTimeout b d now gw)) = heap gw"
  "idleTimeouts (snd (setTimeout b d now gw)) = idleTimeouts gw"
  "gemini (snd (setTimeout b d now gw)) = gemini gw"
  "connected (snd (setTimeout b d now gw)) = connected gw"
  "nextHandle (snd (setTimeout b d now gw)) = Suc (nextHandle gw)"
  "timers (snd (setTimeout b d now gw)) = timers gw @ [(nextHandle gw, (now + d, b))]"
  by (simp_all add: setTimeout_def)

lemma ctxAt_setTimeout [simp]: "ctxAt (snd (setTimeout b d now gw)) r = ctxAt gw r"
  by (simp add: ctxAt_def)

lemma closeGemini_fields [simp]:
  "sessions (fst (closeGemini sid t gw)) = sessions gw"
  "heap (fst (closeGemini sid t gw)) = heap gw"
  "idleTimeouts (fst (closeGemini sid t gw)) = idleTimeouts gw"
  "timers (fst (closeGemini sid t gw)) = timers gw"
  "nextHandle (fst (closeGemini sid t gw)) = nextHandle gw"
  "connected (fst (closeGemini sid t gw)) = connected gw"
  by (simp_all add: closeGemini_def split: prod.splits)

lemma ctxAt_closeGemini [simp]: "ctxAt (fst (closeGemini sid t gw)) r = ctxAt gw r"
  by (simp add: ctxAt_def)

lemma closeGemini_effects:
  "persisted (snd (closeGemini sid t gw)) = []"
  "transcriptSaves (snd (closeGemini sid t gw)) = []"
  by (auto simp: closeGemini_def closeLiveSession_def session_close_def persisted_def
        transcriptSaves_def split: prod.splits option.splits)

section \<open>Handlers and their continuations\<close>

text \<open>Run without interruption, the two parts of each handler compose to the handler:
  the atomic definitions above are the runs in which nothing else happens while the
  handler waits.\<close>

lemma handleConnection_phases:
  "handleConnection cid hs env now gw =
     (case admissionChecks cid hs env now gw of
        Settled out \<Rightarrow> out
      | AwaitingStore sid student \<Rightarrow> freshAdmission cid sid student env now gw)"
  by (simp add: handleConnection_def admissionChecks_def split: option.splits prod.splits)

lemma admissionChecks_waiting:
  "admissionChecks cid hs env now gw = AwaitingStore sid student \<Longrightarrow>
     query_sessionId hs = Some sid \<and> verifyAccessToken env = Some student
     \<and> findSessionBySessionId gw sid = None"
  by (auto simp: admissionChecks_def split: option.splits prod.splits if_splits)

lemma graceTimeoutBody_phases:
  "graceTimeoutBody cid r env gw =
     (let (gw1, es) = graceTimeoutBegin r (closeThrows env) gw;
          (gw2, es') = graceTimeoutFinish cid r (statusQ env) gw1
      in (gw2, es @ es'))"
  by (simp add: graceTimeoutBody_def graceTimeoutBegin_def graceTimeoutFinish_def split_beta Let_def
        split: option.splits query_result.splits)

lemma handlePauseSession_phases:
  "handlePauseSession cid dbError now gw =
     (case pauseBegin cid now gw of
        (out, None) \<Rightarrow> out
      | ((gw1, es), Some r) \<Rightarrow>
          (let (gw2, es') = pauseComplete cid r dbError now gw1 in (gw2, es @ es')))"
  by (simp add: handlePauseSession_def pauseBegin_def pauseComplete_def split_beta Let_def
        errorEvent_def split: option.splits)


section \<open>Disconnect of an unknown connection\<close>

text \<open>
  Claim C10. For a disconnect event whose connection id has no SessionContext in the
  registry, the disconnect handler is a no-op: the whole gateway state (registry,
  context objects, pending timers, adapter bookkeeping) is returned unchanged and no
  effect (persistence, adapter close) is performed.
\<close>

theorem handleDisconnect_unknown_noop:
  "map_of (sessions gw) cid = None \<Longrightarrow> handleDisconnect cid now gw = (gw, [])"
  by (simp add: handleDisconnect_def)

theorem handleDisconnect_unknown_noop_witness:
  "map_of (sessions admitted) ''B'' = None
   \<and> handleDisconnect ''B'' 5 admitted = (admitted, [])"
proof -
  have n: "map_of (sessions admitted) ''B'' = None"
    by code_simp
  show ?thesis
    using handleDisconnect_unknown_noop [OF n, of 5] n by simp
qed

lemma persisted_simps [simp]:
  "persisted [] = []"
  "persisted (a @ b) = persisted a @ persisted b"
  "persisted (UpdateExamSession s st el # es) = (s, st, el) # persisted es"
  "persisted (Emit c ev # es) = persisted es"
  "persisted (Disconnect c # es) = persisted es"
  "persisted (SaveTranscript s h # es) = persisted es"
  "persisted (ProviderClose s # es) = persisted es"
  "persisted (ProviderSend s d # es) = persisted es"
  "persisted (ProviderConnect s h # es) = persisted es"
  "persisted (LogWarn m # es) = persisted es"
  by (simp_all add: persisted_def)

lemma transcriptSaves_simps [simp]:
  "transcriptSaves [] = []"
  "transcriptSaves (a @ b) = transcriptSaves a @ transcriptSaves b"
  "transcriptSaves (SaveTranscript s h # es) = (s, h) # transcriptSaves es"
  "transcriptSaves (Emit c ev # es) = transcriptSaves es"
  "transcriptSaves (Disconnect c # es) = transcriptSaves es"
  "transcriptSaves (UpdateExamSession s st el # es) = transcriptSaves es"
  "transcriptSaves (ProviderClose s # es) = transcriptSaves es"
  "transcriptSaves (ProviderSend s d # es) = transcriptSaves es"
  "transcriptSaves (ProviderConnect s h # es) = transcriptSaves es"
  "transcriptSaves (LogWarn m # es) = transcriptSaves es"
  by (simp_all add: transcriptSaves_def)

lemma providerSends_simps [simp]:
  "providerSends [] = []"
  "providerSends (a @ b) = providerSends a @ providerSends b"
  "providerSends (ProviderSend s d # es) = (s, d) # providerSends es"
  "providerSends (Emit c ev # es) = providerSends es"
  "providerSends (Disconnect c # es) = providerSends es"
  "providerSends (UpdateExamSession s st el # es) = providerSends es"
  "providerSends (ProviderClose s # es) = providerSends es"
  "providerSends (SaveTranscript s h # es) = providerSends es"
  "providerSends (ProviderConnect s h # es) = providerSends es"
  "providerSends (LogWarn m # es) = providerSends es"
  by (simp_all add: providerSends_def)

lemma saveIfNonEmpty_persisted [simp]: "persisted (saveIfNonEmpty s h) = []"
  by (simp add: saveIfNonEmpty_def)

lemma closeGemini_persisted [simp]: "persisted (snd (closeGemini sid t gw)) = []"
  by (rule closeGemini_effects)

section \<open>What the auto-end callback persists\<close>

lemma autoEndBody_persisted:
  assumes "map_of (sessions gw) cid = Some r'" "ctxAt gw r' = Some cur"
    "status cur = Active \<or> status cur = Paused" "ctxAt gw r = Some ctx"
  shows "persisted (snd (autoEndBody cid r env gw))
           = [(sessionId ctx, ''completed'', timeLimit ctx)]"
proof -
  obtain gw1 es3 where c: "closeGemini (sessionId ctx) (closeThrows env) gw = (gw1, es3)"
    by (cases "closeGemini (sessionId ctx) (closeThrows env) gw")
  have "persisted es3 = []"
    using closeGemini_persisted[of "sessionId ctx" "closeThrows env" gw] c by simp
  then show ?thesis using assms c by (auto simp: autoEndBody_def)
qed

text \<open>
  Claim C9. When the auto-end timer of a timed session fires and acts (the socket id
  still maps to a context whose status is active or paused), the one status update it
  persists is \<open>completed\<close> with \<^verbatim>\<open>elapsed_time\<close> equal to the \<^verbatim>\<open>timeLimit\<close> of the
  context the timer was scheduled for. The value does not depend on
  \<^verbatim>\<open>elapsedSeconds\<close>, \<^verbatim>\<open>startTime\<close> or the firing instant, so time spent paused does
  not change it.
\<close>

theorem autoEnd_persists_timeLimit:
  assumes "map_of (timers gw) h = Some (due, AutoEndTimer cid r)"
    and "map_of (sessions gw) cid = Some r'" and "ctxAt gw r' = Some cur"
    and "status cur = Active \<or> status cur = Paused" and "ctxAt gw r = Some ctx"
  shows "persisted (snd (fireTimer h env gw)) = [(sessionId ctx, ''completed'', timeLimit ctx)]"
  using assms autoEndBody_persisted[of "clearTimeout h gw" cid r' cur r ctx env]
  by (simp add: fireTimer_def)


theorem autoEnd_persists_timeLimit_witness:
  "persisted (snd (fireTimer 8 quiet paused_resumed)) = [(''s'', ''completed'', Some 240)]"
proof -
  have t: "map_of (timers paused_resumed) 8 = Some (370000, AutoEndTimer ''A'' 0)"
    by code_simp
  have s: "map_of (sessions paused_resumed) ''A'' = Some 0"
    by code_simp
  have "ctxAt paused_resumed 0 \<noteq> None"
    by code_simp
  then have c: "ctxAt paused_resumed 0 = Some (the (ctxAt paused_resumed 0))"
    by simp
  have st: "status (the (ctxAt paused_resumed 0)) = Active
            \<or> status (the (ctxAt paused_resumed 0)) = Paused"
    by code_simp
  have v: "sessionId (the (ctxAt paused_resumed 0)) = ''s''"
    "timeLimit (the (ctxAt paused_resumed 0)) = Some 240"
    by code_simp+
  show ?thesis
    using autoEnd_persists_timeLimit[OF t s c st c, of quiet] v by simp
qed


section \<open>Rate limiting of audio chunks\<close>


lemma recordChunk_last: "last (recordChunk now ts) = now" "now \<in> set (recordChunk now ts)" "recordChunk now ts \<noteq> []"
  by (auto simp: recordChunk_def Let_def last_drop)


lemma forwardAudio_chunkTimestamps:
  "map_option chunkTimestamps (ctxAt (fst (forwardAudio cid r c d t now gw)) r')
     = map_option chunkTimestamps (ctxAt gw r')"
  by (auto simp: forwardAudio_def audioForwardFailed_def Let_def option.map_comp comp_def split_beta
        split: sum.splits option.splits)

lemma forwardAudio_no_rate_error:
  "Emit cid (ErrorEvent ''RATE_LIMIT_EXCEEDED'') \<notin> set (snd (forwardAudio cid r c d t now gw))"
  by (auto simp: forwardAudio_def audioForwardFailed_def Let_def errorEvent_def sendAudioChunk_def saveIfNonEmpty_def split_beta
        split: sum.splits option.splits if_splits)

lemma forwardAudio_sends:
  "isSessionActive (gemini gw) (sessionId c) \<Longrightarrow> \<not> t \<Longrightarrow>
     snd (forwardAudio cid r c d t now gw) = [ProviderSend (sessionId c) d]"
  by (auto simp: forwardAudio_def isSessionActive_def sendAudioChunk_def Let_def split_beta
        split: sum.splits option.splits if_splits)

lemma audio_accepted:
  assumes reg: "map_of (sessions gw) cid = Some r" and ctx: "ctxAt gw r = Some c"
    and act: "status c = Active"
    and room: "length (recentChunks c now) < 50"
    and up: "isSessionActive (gemini gw) (sessionId c)"
  shows "sessions (fst (handleAudioChunk cid sample_audio now gw)) = sessions gw"
    and "ctxAt (fst (handleAudioChunk cid sample_audio now gw)) r
           = Some (c\<lparr>lastAudioTimestamp := now,
                     chunkTimestamps := recordChunk now (chunkTimestamps c)\<rparr>)"
    and "gemini (fst (handleAudioChunk cid sample_audio now gw)) = gemini gw"
  using assms
  by (simp_all add: handleAudioChunk_def forwardAudio_def sendAudioChunk_def isSessionActive_def
        sample_audio_def Let_def split_beta split: option.splits)

lemma arrivals_Suc:
  "arrivals (Suc n) = fst (handleAudioChunk ''A'' sample_audio 500 (arrivals n))"
  by (simp add: arrivals_def)

text \<open>Up to fifty chunks arriving at the same instant are all accepted: the session stays
  registered and active and the window holds one entry per chunk.\<close>

lemma arrivals_window:
  "n \<le> 50 \<Longrightarrow>
     map_of (sessions (arrivals n)) ''A'' = Some 0
     \<and> (\<exists>c. ctxAt (arrivals n) 0 = Some c \<and> status c = Active \<and> sessionId c = ''s''
            \<and> chunkTimestamps c = replicate n 500)
     \<and> isSessionActive (gemini (arrivals n)) ''s''"
proof (induction n)
  case 0
  have "map_of (sessions admitted) ''A'' = Some 0"
    by code_simp
  moreover have "ctxAt admitted 0 \<noteq> None"
    by code_simp
  moreover have "status (the (ctxAt admitted 0)) = Active"
    "sessionId (the (ctxAt admitted 0)) = ''s''"
    "chunkTimestamps (the (ctxAt admitted 0)) = []"
    by code_simp+
  moreover have "isSessionActive (gemini admitted) ''s''"
    by code_simp
  ultimately show ?case
    by (auto simp: arrivals_def)
next
  case (Suc n)
  then have n: "n < 50" by simp
  obtain c where reg: "map_of (sessions (arrivals n)) ''A'' = Some 0"
    and ctx: "ctxAt (arrivals n) 0 = Some c" and act: "status c = Active"
    and sid: "sessionId c = ''s''" and win: "chunkTimestamps c = replicate n 500"
    and up: "isSessionActive (gemini (arrivals n)) ''s''"
    using Suc.IH n by auto
  have room: "length (recentChunks c 500) < 50"
    using n by (simp add: recentChunks_def win)
  have up': "isSessionActive (gemini (arrivals n)) (sessionId c)"
    using up sid by simp
  have rc: "recordChunk 500 (replicate n 500) = replicate (Suc n) 500"
    using n by (simp add: recordChunk_def Let_def replicate_append_same)
  show ?case
    using audio_accepted[OF reg ctx act room up'] reg sid act win rc up
    by (simp add: arrivals_Suc)
qed

lemma flooded_window:
  "map_of (sessions flooded) ''A'' = Some 0
   \<and> (\<exists>c. ctxAt flooded 0 = Some c \<and> status c = Active \<and> sessionId c = ''s''
          \<and> chunkTimestamps c = replicate 50 500)
   \<and> isSessionActive (gemini flooded) ''s''"
  using arrivals_window[of 50] by (simp add: flooded_def)

text \<open>The payload checks come before the rate limit and return without touching the
  window.\<close>

lemma payload_checks_first:
  assumes reg: "map_of (sessions gw) cid = Some r" and ctx: "ctxAt gw r = Some c"
    and act: "status c = Active"
  shows "audioData env = None \<or> audioData env = Some [] \<Longrightarrow>
           snd (handleAudioChunk cid env now gw) = [Emit cid (ErrorEvent ''INVALID_AUDIO_FORMAT'')]"
    and "audioData env = Some d \<Longrightarrow> d \<noteq> [] \<Longrightarrow> \<not> validBase64 env \<Longrightarrow>
           snd (handleAudioChunk cid env now gw) = [Emit cid (ErrorEvent ''INVALID_BASE64'')]"
    and "audioData env = Some d \<Longrightarrow> d \<noteq> [] \<Longrightarrow> validBase64 env \<Longrightarrow>
         int (length d) > 100 * 1024 \<Longrightarrow>
           snd (handleAudioChunk cid env now gw) = [Emit cid (ErrorEvent ''AUDIO_CHUNK_TOO_LARGE'')]"
    and "audioData env = None \<or> audioData env = Some [] \<or> \<not> validBase64 env
           \<or> (\<exists>d. audioData env = Some d \<and> int (length d) > 100 * 1024) \<Longrightarrow>
           map_option chunkTimestamps (ctxAt (fst (handleAudioChunk cid env now gw)) r)
             = Some (chunkTimestamps c)"
  using assms
  by (auto simp: handleAudioChunk_def errorEvent_def Let_def split: option.splits)

text \<open>
  Claim C7 as stated does not hold for every chunk on an active session: the handler
  checks the payload before it counts arrivals. In \<open>flooded\<close> the sample session is
  active and fifty arrivals are recorded at instant 500, so at instant 1000 the cap is
  reached; a chunk that is not valid Base64, a chunk without data and a chunk longer than
  100 KB are then answered with \<open>INVALID_BASE64\<close>, \<open>INVALID_AUDIO_FORMAT\<close> and
  \<open>AUDIO_CHUNK_TOO_LARGE\<close>, not with the rate error. Right after admission the window
  is empty; a chunk that is not valid Base64 is rejected there too, and its arrival is not
  recorded.
\<close>

theorem malformed_chunk_skips_rate_limit:
  "map_option status (ctxAt flooded 0) = Some Active
   \<and> map_option chunkTimestamps (ctxAt flooded 0) = Some (replicate 50 500)
   \<and> snd (handleAudioChunk ''A'' malformed_audio 1000 flooded)
       = [Emit ''A'' (ErrorEvent ''INVALID_BASE64'')]
   \<and> snd (handleAudioChunk ''A'' (sample_audio\<lparr>audioData := None\<rparr>) 1000 flooded)
       = [Emit ''A'' (ErrorEvent ''INVALID_AUDIO_FORMAT'')]
   \<and> snd (handleAudioChunk ''A'' oversized_audio 1000 flooded)
       = [Emit ''A'' (ErrorEvent ''AUDIO_CHUNK_TOO_LARGE'')]
   \<and> map_option status (ctxAt admitted 0) = Some Active
   \<and> map_option chunkTimestamps (ctxAt admitted 0) = Some []
   \<and> snd (handleAudioChunk ''A'' malformed_audio 1000 admitted)
       = [Emit ''A'' (ErrorEvent ''INVALID_BASE64'')]
   \<and> map_option chunkTimestamps
        (ctxAt (fst (handleAudioChunk ''A'' malformed_audio 1000 admitted)) 0)
       = Some []"
proof -
  obtain c where s: "map_of (sessions flooded) ''A'' = Some 0" and c: "ctxAt flooded 0 = Some c"
    and a: "status c = Active" and w: "chunkTimestamps c = replicate 50 500"
    using flooded_window by blast
  have f1: "snd (handleAudioChunk ''A'' malformed_audio 1000 flooded)
       = [Emit ''A'' (ErrorEvent ''INVALID_BASE64'')]"
    by (rule payload_checks_first(2)[OF s c a, of _ "''!!!!''"]) (simp_all add: malformed_audio_def)
  have f2: "snd (handleAudioChunk ''A'' (sample_audio\<lparr>audioData := None\<rparr>) 1000 flooded)
       = [Emit ''A'' (ErrorEvent ''INVALID_AUDIO_FORMAT'')]"
    by (rule payload_checks_first(1)[OF s c a]) simp
  have f3: "snd (handleAudioChunk ''A'' oversized_audio 1000 flooded)
       = [Emit ''A'' (ErrorEvent ''AUDIO_CHUNK_TOO_LARGE'')]"
    by (rule payload_checks_first(3)[OF s c a, of _ "replicate 102404 (CHR ''A'')"])
       (simp_all add: oversized_audio_def)
  have g: "map_option status (ctxAt admitted 0) = Some Active
   \<and> map_option chunkTimestamps (ctxAt admitted 0) = Some []
   \<and> snd (handleAudioChunk ''A'' malformed_audio 1000 admitted)
       = [Emit ''A'' (ErrorEvent ''INVALID_BASE64'')]
   \<and> map_option chunkTimestamps
        (ctxAt (fst (handleAudioChunk ''A'' malformed_audio 1000 admitted)) 0)
       = Some []"
    by code_simp
  show ?thesis
    using c a w f1 f2 f3 g by simp
qed

text \<open>
  Claim C7, amended. For an inbound audio chunk on a registered session in state active
  whose payload passed the format and size checks (a non-empty string that is valid Base64
  and at most 100 KB long): if the arrivals recorded within the trailing
  second have reached 50, the only effect is the \<open>RATE_LIMIT_EXCEEDED\<close> error event,
  nothing is sent to the adapter and the recorded window is unchanged; otherwise the
  arrival instant is appended to the window (kept to the last 100), no rate error is
  emitted and the chunk goes on to the forwarding step, which sends it when the provider
  session is active and the send does not throw.
\<close>

theorem rate_limit_admission:
  assumes reg: "map_of (sessions gw) cid = Some r" and ctx: "ctxAt gw r = Some c"
    and act: "status c = Active"
    and pl: "audioData env = Some d" "d \<noteq> []" "validBase64 env" "int (length d) \<le> 100 * 1024"
  shows "(length (recentChunks c now) \<ge> 50 \<longrightarrow>
            snd (handleAudioChunk cid env now gw)
              = [Emit cid (ErrorEvent ''RATE_LIMIT_EXCEEDED'')]
          \<and> providerSends (snd (handleAudioChunk cid env now gw)) = []
          \<and> map_option chunkTimestamps (ctxAt (fst (handleAudioChunk cid env now gw)) r)
              = Some (chunkTimestamps c))
       \<and> (length (recentChunks c now) < 50 \<longrightarrow>
            map_option chunkTimestamps (ctxAt (fst (handleAudioChunk cid env now gw)) r)
              = Some (recordChunk now (chunkTimestamps c))
          \<and> last (recordChunk now (chunkTimestamps c)) = now
          \<and> Emit cid (ErrorEvent ''RATE_LIMIT_EXCEEDED'')
               \<notin> set (snd (handleAudioChunk cid env now gw))
          \<and> (isSessionActive (gemini gw) (sessionId c) \<and> \<not> sendThrows env \<longrightarrow>
                snd (handleAudioChunk cid env now gw) = [ProviderSend (sessionId c) d]))"
proof (intro conjI impI)
  assume full: "50 \<le> length (recentChunks c now)"
  then have h: "handleAudioChunk cid env now gw
      = (clearIdle cid (modify r (\<lambda>c. c\<lparr>lastAudioTimestamp := now\<rparr>) gw),
         [Emit cid (ErrorEvent ''RATE_LIMIT_EXCEEDED'')])"
    using assms by (simp add: handleAudioChunk_def errorEvent_def)
  show "snd (handleAudioChunk cid env now gw) = [Emit cid (ErrorEvent ''RATE_LIMIT_EXCEEDED'')]"
    by (simp add: h)
  show "providerSends (snd (handleAudioChunk cid env now gw)) = []"
    by (simp add: h)
  show "map_option chunkTimestamps (ctxAt (fst (handleAudioChunk cid env now gw)) r)
              = Some (chunkTimestamps c)"
    using ctx by (simp add: h)
next
  assume room: "length (recentChunks c now) < 50"
  let ?gw2 = "modify r (\<lambda>c. c\<lparr>chunkTimestamps := recordChunk now (chunkTimestamps c)\<rparr>)
               (clearIdle cid (modify r (\<lambda>c. c\<lparr>lastAudioTimestamp := now\<rparr>) gw))"
  have h: "handleAudioChunk cid env now gw = forwardAudio cid r c d (sendThrows env) now ?gw2"
    using assms room by (simp add: handleAudioChunk_def)
  show "map_option chunkTimestamps (ctxAt (fst (handleAudioChunk cid env now gw)) r)
              = Some (recordChunk now (chunkTimestamps c))"
    using ctx by (simp add: h forwardAudio_chunkTimestamps)
  show "last (recordChunk now (chunkTimestamps c)) = now"
    by (rule recordChunk_last)
  show "Emit cid (ErrorEvent ''RATE_LIMIT_EXCEEDED'') \<notin> set (snd (handleAudioChunk cid env now gw))"
    by (simp add: h forwardAudio_no_rate_error)
  show "snd (handleAudioChunk cid env now gw) = [ProviderSend (sessionId c) d]"
    if "isSessionActive (gemini gw) (sessionId c) \<and> \<not> sendThrows env"
    using that by (simp add: h forwardAudio_sends)
qed


theorem rate_limit_admission_witness:
  "snd (handleAudioChunk ''A'' sample_audio 1000 flooded)
     = [Emit ''A'' (ErrorEvent ''RATE_LIMIT_EXCEEDED'')]
   \<and> map_option chunkTimestamps (ctxAt (fst (handleAudioChunk ''A'' sample_audio 1000 flooded)) 0)
     = Some (replicate 50 500)
   \<and> snd (handleAudioChunk ''A'' sample_audio 1500 flooded) = [ProviderSend ''s'' ''AAAA'']
   \<and> map_option chunkTimestamps (ctxAt (fst (handleAudioChunk ''A'' sample_audio 1500 flooded)) 0)
     = Some (replicate 50 500 @ [1500])"
proof -
  obtain c where s: "map_of (sessions flooded) ''A'' = Some 0" and c: "ctxAt flooded 0 = Some c"
    and a: "status c = Active" and sid: "sessionId c = ''s''"
    and w: "chunkTimestamps c = replicate 50 500"
    and up: "isSessionActive (gemini flooded) ''s''"
    using flooded_window by blast
  have p: "audioData sample_audio = Some ''AAAA''" "''AAAA'' \<noteq> []"
    "validBase64 sample_audio" "int (length ''AAAA'') \<le> 100 * 1024"
    by (simp_all add: sample_audio_def)
  have full: "length (recentChunks c 1000) \<ge> 50"
    by (simp add: recentChunks_def w)
  have room: "length (recentChunks c 1500) < 50"
    by (simp add: recentChunks_def w)
  have g: "isSessionActive (gemini flooded) (sessionId c) \<and> \<not> sendThrows sample_audio"
    using up sid by (simp add: sample_audio_def)
  have r: "recordChunk 1500 (replicate 50 500) = replicate 50 500 @ [1500]"
    by (simp add: recordChunk_def Let_def)
  show ?thesis
    using rate_limit_admission[OF s c a p, of 1000] rate_limit_admission[OF s c a p, of 1500]
      full room g sid w r by simp
qed


section \<open>Admission rejection codes\<close>

lemma closesWith_reject [simp]: "closesWith cid cause (snd (reject cid cause m gw))"
  by (simp add: closesWith_def reject_def)

lemma closesWith_append_reject [simp]: "closesWith cid cause (es @ snd (reject cid cause m gw))"
  by (simp add: closesWith_def reject_def)

lemma ex_closesWith_reject [simp]:
  "\<exists>cause. closesWith cid cause (snd (reject cid c m gw))"
  "\<exists>cause. closesWith cid cause (es @ snd (reject cid c m gw))"
  by (rule exI[of _ c], simp)+

lemma readyEvents_simps [simp]:
  "readyEvents [] = []"
  "readyEvents (a @ b) = readyEvents a @ readyEvents b"
  "readyEvents (Emit c (SessionReady s t l st) # es) = (c, st) # readyEvents es"
  by (simp_all add: readyEvents_def)

lemma admit_outcome:
  "readyEvents (snd (admit cid sid ex oc now gw)) \<noteq> []
   \<or> closesWith cid UpstreamInitFailed (snd (admit cid sid ex oc now gw))"
  by (simp add: admit_def Let_def split_beta)

lemma freshAdmission_outcome:
  "readyEvents (snd (freshAdmission cid sid a env now gw)) \<noteq> []
   \<or> (\<exists>cause. closesWith cid cause (snd (freshAdmission cid sid a env now gw)))"
  using admit_outcome[of cid sid _ "createOutcome env" now gw]
  by (auto simp: freshAdmission_def unexpected_def split: query_result.splits)

text \<open>Every run of \<^verbatim>\<open>handleConnection\<close> either emits \<^verbatim>\<open>session_ready\<close> or ends
  with \<^verbatim>\<open>connection_error\<close> carrying a numeric code, followed by the forced
  disconnect.\<close>

lemma handleConnection_outcome:
  "readyEvents (snd (handleConnection cid hs env now gw)) \<noteq> []
   \<or> (\<exists>cause. closesWith cid cause (snd (handleConnection cid hs env now gw)))"
  using freshAdmission_outcome[of cid _ _ env now gw]
  by (auto simp: handleConnection_def unexpected_def reconnect_def Let_def split: option.splits)

lemma connectionErrorCodes_simps [simp]:
  "connectionErrorCodes [] = []"
  "connectionErrorCodes (a @ b) = connectionErrorCodes a @ connectionErrorCodes b"
  "connectionErrorCodes (Emit c (ConnectionError code m) # es) = code # connectionErrorCodes es"
  "connectionErrorCodes (Disconnect c # es) = connectionErrorCodes es"
  "connectionErrorCodes (ProviderConnect s h # es) = connectionErrorCodes es"
  by (simp_all add: connectionErrorCodes_def)

lemma connectionErrorCodes_reject [simp]:
  "connectionErrorCodes (snd (reject cid cause m gw)) = [rejectionCode cause]"
  by (simp add: reject_def)

text \<open>The code with which the handler answers each cause of rejection, in the order of
  its checks: the checks on the handshake, the checks against the registry, and the
  checks of a fresh admission against the store and the adapter.\<close>

lemma handshake_rejection_codes:
  "query_sessionId hs = None \<or> query_sessionId hs = Some [] \<Longrightarrow>
     connectionErrorCodes (snd (handleConnection cid hs env now gw)) = [4001]"
  "query_sessionId hs = Some sid \<Longrightarrow> sid \<noteq> [] \<Longrightarrow> \<not> truthyStr (token hs) \<Longrightarrow>
     connectionErrorCodes (snd (handleConnection cid hs env now gw)) = [4008]"
  "query_sessionId hs = Some sid \<Longrightarrow> sid \<noteq> [] \<Longrightarrow> truthyStr (token hs) \<Longrightarrow>
   verifyAccessToken env = None \<Longrightarrow>
     connectionErrorCodes (snd (handleConnection cid hs env now gw)) = [4009]"
  by (auto simp: handleConnection_def)

lemma registry_rejection_codes:
  assumes "query_sessionId hs = Some sid" "sid \<noteq> []" "truthyStr (token hs)"
    and "verifyAccessToken env = Some student"
    and "findSessionBySessionId gw sid = Some (old, r)" "ctxAt gw r = Some c"
  shows "disconnectTimer c = Some h \<Longrightarrow> studentId c \<noteq> student \<Longrightarrow>
           connectionErrorCodes (snd (handleConnection cid hs env now gw)) = [4010]"
    and "disconnectTimer c = None \<Longrightarrow>
           connectionErrorCodes (snd (handleConnection cid hs env now gw)) = [4006]"
  using assms by (simp_all add: handleConnection_def)

lemma store_rejection_codes:
  assumes "query_sessionId hs = Some sid" "sid \<noteq> []" "truthyStr (token hs)"
    and "verifyAccessToken env = Some student"
    and "findSessionBySessionId gw sid = None"
  shows "examSessionQ env = NoRow \<Longrightarrow>
           connectionErrorCodes (snd (handleConnection cid hs env now gw)) = [4001]"
    and "examSessionQ env = Row ex \<Longrightarrow> es_status ex \<noteq> ''active'' \<Longrightarrow>
           connectionErrorCodes (snd (handleConnection cid hs env now gw)) = [4002]"
    and "examSessionQ env = Row ex \<Longrightarrow> es_status ex = ''active'' \<Longrightarrow>
         student_id ex \<noteq> student \<Longrightarrow>
           connectionErrorCodes (snd (handleConnection cid hs env now gw)) = [4010]"
    and "examSessionQ env = Row ex \<Longrightarrow> es_status ex = ''active'' \<Longrightarrow>
         student_id ex = student \<Longrightarrow> studentQ env = NoRow \<Longrightarrow>
           connectionErrorCodes (snd (handleConnection cid hs env now gw)) = [4003]"
    and "examSessionQ env = Row ex \<Longrightarrow> es_status ex = ''active'' \<Longrightarrow>
         student_id ex = student \<Longrightarrow> studentQ env = Row code \<Longrightarrow>
         activationQ env = NoRow \<or> (\<exists>ac. activationQ env = Row ac \<and> ac_status ac \<noteq> ''active'') \<Longrightarrow>
           connectionErrorCodes (snd (handleConnection cid hs env now gw)) = [4004]"
    and "examSessionQ env = Row ex \<Longrightarrow> es_status ex = ''active'' \<Longrightarrow>
         student_id ex = student \<Longrightarrow> studentQ env = Row code \<Longrightarrow>
         activationQ env = Row ac \<Longrightarrow> ac_status ac = ''active'' \<Longrightarrow>
         expires_at ac = Some e \<Longrightarrow> e < now \<Longrightarrow>
           connectionErrorCodes (snd (handleConnection cid hs env now gw)) = [4005]"
    and "examSessionQ env = Threw \<Longrightarrow>
           connectionErrorCodes (snd (handleConnection cid hs env now gw)) = [5000]"
  using assms by (auto simp: handleConnection_def freshAdmission_def unexpected_def)

lemma adapter_rejection_code:
  assumes "query_sessionId hs = Some sid" "sid \<noteq> []" "truthyStr (token hs)"
    and "verifyAccessToken env = Some student"
    and "findSessionBySessionId gw sid = None"
    and "examSessionQ env = Row ex" "es_status ex = ''active''" "student_id ex = student"
    and "studentQ env = Row code" "activationQ env = Row ac" "ac_status ac = ''active''"
    and "expires_at ac = None \<or> (\<exists>e. expires_at ac = Some e \<and> \<not> e < now)"
    and "createOutcome env \<noteq> SetupComplete \<or> getSystemInstruction (teil_number ex) = None"
  shows "connectionErrorCodes (snd (handleConnection cid hs env now gw)) = [4007]"
proof -
  have a: "handleConnection cid hs env now gw = admit cid sid ex (createOutcome env) now gw"
    using assms by (auto simp: handleConnection_def freshAdmission_def)
  show ?thesis
    using assms(13) unfolding a
    by (cases "createOutcome env"; cases "getSystemInstruction (teil_number ex)")
       (simp_all add: admit_def alloc_def createLiveSession_def isSessionActive_def Let_def
          split_beta update_conv')
qed

text \<open>
  Claim C6. Every admission rejection closes the connection with a numeric code, and the
  claim asks that the codes of different causes differ, in particular that a missing
  target \<^verbatim>\<open>sessionId\<close> and a \<^verbatim>\<open>sessionId\<close> that the store does not have are told
  apart. The handler at the two inputs of the end-to-end test: a connection without
  \<^verbatim>\<open>sessionId\<close> and a connection naming the unknown session
  \<^verbatim>\<open>invalid-session-id-12345\<close>, each with a valid token. Both are closed with the
  same code 4001; only the message differs.
\<close>

theorem missing_and_unknown_session_share_code:
  "step (Connect ''B'' \<lparr>query_sessionId = None, token = Some ''t''\<rparr> sample_env) 0 init_gateway
     = (init_gateway, [Emit ''B'' (ConnectionError 4001 ''Missing sessionId''), Disconnect ''B''])
   \<and> step (Connect ''B'' \<lparr>query_sessionId = Some ''invalid-session-id-12345'', token = Some ''t''\<rparr>
             (sample_env\<lparr>examSessionQ := NoRow\<rparr>)) 0 init_gateway
     = (init_gateway, [Emit ''B'' (ConnectionError 4001 ''Session not found''), Disconnect ''B''])"
  by code_simp


section \<open>Reconnection during the grace period\<close>

text \<open>
  Claim C2 as stated does not hold for every context in state \<open>GracePeriod\<close>. The
  pause callback also puts a context into that state, with the socket still attached and
  no grace-expiry timer; a new connection of the same owner naming that session is then
  rejected as a duplicate (code 4006) and the context stays as it was.
\<close>

theorem grace_status_without_disconnect_is_duplicate:
  "findSessionBySessionId pause_expired ''s'' = Some (''A'', 0)
   \<and> map_option status (ctxAt pause_expired 0) = Some GracePeriod
   \<and> map_option studentId (ctxAt pause_expired 0) = verifyAccessToken sample_env
   \<and> snd (handleConnection ''B'' sample_handshake sample_env 170000 pause_expired)
        = [Emit ''B'' (ConnectionError 4006 ''Session already connected''), Disconnect ''B'']
   \<and> map_option status
        (ctxAt (fst (handleConnection ''B'' sample_handshake sample_env 170000 pause_expired)) 0)
        = Some GracePeriod
   \<and> map_option clientId
        (ctxAt (fst (handleConnection ''B'' sample_handshake sample_env 170000 pause_expired)) 0)
        = Some ''A''"
  by code_simp

lemma clearIdle_keeps_cleared:
  "map_of (timers gw) h = None \<Longrightarrow> map_of (timers (clearIdle cid gw)) h = None"
  by (auto simp: clearIdle_def delete_conv' split: option.splits)

text \<open>
  Claim C2, amended. For every new connection naming an exam session whose registered
  context has a grace-expiry timer set (the state a disconnect leaves): if the
  authenticated student differs from the context's owner the connection is rejected with
  code 4010 and the pending timers, the registry and the context objects are unchanged,
  so the grace-expiry timer keeps running; if the owner matches, the grace-expiry timer
  is no longer pending, the context is re-keyed under the new socket id with only
  \<^verbatim>\<open>disconnectTimer\<close>, \<^verbatim>\<open>clientId\<close>, \<^verbatim>\<open>status\<close> (now active) and
  \<^verbatim>\<open>lastAudioTimestamp\<close> changed, so the conversation history is preserved, and
  \<^verbatim>\<open>session_ready\<close> with status \<open>reconnected\<close> is emitted.
\<close>

theorem reconnection_during_grace:
  assumes sid: "query_sessionId hs = Some sid" "sid \<noteq> []"
    and tok: "truthyStr (token hs)"
    and auth: "verifyAccessToken env = Some student"
    and found: "findSessionBySessionId gw sid = Some (old, r)"
    and ctx: "ctxAt gw r = Some c"
    and timer: "disconnectTimer c = Some h"
  shows "(studentId c \<noteq> student \<longrightarrow>
            handleConnection cid hs env now gw
              = (markDisconnected cid gw,
                 [Emit cid (ConnectionError 4010
                    ''Session does not belong to authenticated student''), Disconnect cid])
          \<and> timers (fst (handleConnection cid hs env now gw)) = timers gw
          \<and> sessions (fst (handleConnection cid hs env now gw)) = sessions gw
          \<and> heap (fst (handleConnection cid hs env now gw)) = heap gw)
       \<and> (studentId c = student \<longrightarrow>
            map_of (timers (fst (handleConnection cid hs env now gw))) h = None
          \<and> ctxAt (fst (handleConnection cid hs env now gw)) r
              = Some (c\<lparr>disconnectTimer := None, clientId := cid, status := Active,
                        lastAudioTimestamp := now\<rparr>)
          \<and> map_option conversationHistory (ctxAt (fst (handleConnection cid hs env now gw)) r)
              = Some (conversationHistory c)
          \<and> map_of (sessions (fst (handleConnection cid hs env now gw))) cid = Some r
          \<and> (old \<noteq> cid \<longrightarrow>
                map_of (sessions (fst (handleConnection cid hs env now gw))) old = None)
          \<and> snd (handleConnection cid hs env now gw)
              = [Emit cid (SessionReady sid (teilNumber c) (timeLimit c) ''reconnected'')])"
proof (intro conjI impI)
  assume other: "studentId c \<noteq> student"
  then show rej: "handleConnection cid hs env now gw
              = (markDisconnected cid gw,
                 [Emit cid (ConnectionError 4010
                    ''Session does not belong to authenticated student''), Disconnect cid])"
    using assms by (simp add: handleConnection_def reject_def)
  show "timers (fst (handleConnection cid hs env now gw)) = timers gw"
    "sessions (fst (handleConnection cid hs env now gw)) = sessions gw"
    "heap (fst (handleConnection cid hs env now gw)) = heap gw"
    by (simp_all add: rej)
next
  assume same: "studentId c = student"
  have h: "handleConnection cid hs env now gw = reconnect cid sid old r c h now gw"
    using assms same by (simp add: handleConnection_def)
  have cl: "map_of (timers (clearTimeout h gw)) h = None"
    by (simp add: delete_conv')
  show "map_of (timers (fst (handleConnection cid hs env now gw))) h = None"
    using clearIdle_keeps_cleared[of "modify r (\<lambda>c. c\<lparr>disconnectTimer := None\<rparr>) (clearTimeout h gw)" h old]
    by (simp add: h reconnect_def Let_def delete_conv')
  show c': "ctxAt (fst (handleConnection cid hs env now gw)) r
              = Some (c\<lparr>disconnectTimer := None, clientId := cid, status := Active,
                        lastAudioTimestamp := now\<rparr>)"
    using ctx by (simp add: h reconnect_def Let_def)
  show "map_option conversationHistory (ctxAt (fst (handleConnection cid hs env now gw)) r)
              = Some (conversationHistory c)"
    by (simp add: c')
  show "map_of (sessions (fst (handleConnection cid hs env now gw))) cid = Some r"
    by (simp add: h reconnect_def Let_def update_conv')
  show "map_of (sessions (fst (handleConnection cid hs env now gw))) old = None" if "old \<noteq> cid"
    using that by (simp add: h reconnect_def Let_def update_conv' delete_conv')
  show "snd (handleConnection cid hs env now gw)
              = [Emit cid (SessionReady sid (teilNumber c) (timeLimit c) ''reconnected'')]"
    by (simp add: h reconnect_def Let_def)
qed


theorem reconnection_during_grace_witness:
  "snd (handleConnection ''B'' sample_handshake sample_env 102000 dropped)
     = [Emit ''B'' (SessionReady ''s'' 1 (Some 240) ''reconnected'')]
   \<and> map_option status
        (ctxAt (fst (handleConnection ''B'' sample_handshake sample_env 102000 dropped)) 0)
     = Some Active
   \<and> map_of (timers (fst (handleConnection ''B'' sample_handshake sample_env 102000 dropped))) 4
     = None
   \<and> snd (handleConnection ''B'' sample_handshake
            (sample_env\<lparr>verifyAccessToken := Some ''eve''\<rparr>) 102000 dropped)
     = [Emit ''B'' (ConnectionError 4010 ''Session does not belong to authenticated student''),
        Disconnect ''B'']
   \<and> timers (fst (handleConnection ''B'' sample_handshake
            (sample_env\<lparr>verifyAccessToken := Some ''eve''\<rparr>) 102000 dropped))
     = timers dropped"
proof -
  let ?c = "the (ctxAt dropped 0)"
  have q: "query_sessionId sample_handshake = Some ''s''" "''s'' \<noteq> []"
    "truthyStr (token sample_handshake)"
    by (simp_all add: sample_handshake_def truthyStr_def)
  have a1: "verifyAccessToken sample_env = Some ''stu''"
    by (simp add: sample_env_def)
  have a2: "verifyAccessToken (sample_env\<lparr>verifyAccessToken := Some ''eve''\<rparr>) = Some ''eve''"
    by simp
  have f: "findSessionBySessionId dropped ''s'' = Some (''A'', 0)"
    by code_simp
  have "ctxAt dropped 0 \<noteq> None"
    by code_simp
  then have c: "ctxAt dropped 0 = Some ?c"
    by simp
  have t: "disconnectTimer ?c = Some 4"
    by code_simp
  have v: "studentId ?c = ''stu''" "teilNumber ?c = 1" "timeLimit ?c = Some 240"
    by code_simp+
  show ?thesis
    using reconnection_during_grace[OF q a1 f c t, of "''B''" 102000]
      reconnection_during_grace[OF q a2 f c t, of "''B''" 102000] v
    by simp
qed


section \<open>Pause and resume timing\<close>

text \<open>
  Claim C1 says that a timed session paused at elapsed \<open>E\<close> and then resumed gets
  \<^verbatim>\<open>expectedEndTime\<close> equal to the resume instant plus \<open>timeLimit - E\<close> seconds, and
  that the rescheduled auto-end timer fires at that instant. The code at a concrete
  input: the sample session (limit 240 s, started at 0) is paused at 100 s, where its
  elapsed time is 100 s, and resumed at 130 s, so the claim asks for 270000 in both
  places. \<^verbatim>\<open>handlePauseSession\<close> sets the status to paused before it calls
  \<^verbatim>\<open>getElapsedSeconds\<close>, which then returns the old snapshot 0; the resume
  computes \<^verbatim>\<open>expectedEndTime\<close> 370000. When the snapshot happens to be right (the
  session row already recorded 100 s), \<^verbatim>\<open>expectedEndTime\<close> is 270000 but
  \<^verbatim>\<open>setupAutoEnd\<close> still schedules the auto-end a full limit after the resume, at
  370000.
\<close>

theorem resume_reschedules_from_full_limit:
  "map_option (\<lambda>c. getElapsedSeconds c 100000) (ctxAt admitted 0) = Some 100
   \<and> map_option elapsedSeconds (ctxAt paused 0) = Some 0
   \<and> map_option timeLimit (ctxAt paused_resumed 0) = Some (Some 240)
   \<and> map_option expectedEndTime (ctxAt paused_resumed 0) = Some (Some 370000)
   \<and> autoEndDue paused_resumed 0 = [370000]
   \<and> map_option expectedEndTime (ctxAt paused_resumed_from_row 0) = Some (Some 270000)
   \<and> autoEndDue paused_resumed_from_row 0 = [370000]"
  by code_simp

section \<open>Timer callbacks against stale state\<close>

lemma closeGemini_removes: "map_of (gemini (fst (closeGemini sid t gw))) sid = None"
  by (auto simp: closeGemini_def closeLiveSession_def session_close_def delete_conv' split: option.splits sum.splits)

text \<open>
  The auto-end and timer-warning callbacks re-read the registry by socket id before
  acting. Auto-end changes nothing and performs no effect when the socket id has no
  registered context or that context's status is neither active nor paused; the warning
  callback changes nothing and emits nothing when the socket id has no registered context
  or the socket is disconnected, and never changes state otherwise. (In each case the
  state returned is the one in which the fired handle is no longer pending.) The
  pause-expiry and grace-period-expiry callbacks act on the context captured when they
  were scheduled: the pause callback sets it to \<open>GracePeriod\<close> and both remove the
  adapter entry of its session.
\<close>

lemma exam_timer_callbacks_revalidate:
  assumes "map_of (timers gw) h = Some (due, b)"
  shows "(b = AutoEndTimer cid r
           \<and> (map_of (sessions gw) cid = None
               \<or> (\<exists>r' c. map_of (sessions gw) cid = Some r' \<and> ctxAt gw r' = Some c
                     \<and> status c \<noteq> Active \<and> status c \<noteq> Paused))
          \<longrightarrow> fireTimer h env gw = (clearTimeout h gw, []))
       \<and> (b = WarningTimer cid r threshold
           \<and> (map_of (sessions gw) cid = None \<or> \<not> isConnected gw cid)
          \<longrightarrow> fireTimer h env gw = (clearTimeout h gw, []))
       \<and> (b = WarningTimer cid r threshold \<longrightarrow> fst (fireTimer h env gw) = clearTimeout h gw)
       \<and> (b = PauseCloseTimer cid r \<and> ctxAt gw r = Some c' 
          \<longrightarrow> map_option status (ctxAt (fst (fireTimer h env gw)) r) = Some GracePeriod
            \<and> map_of (gemini (fst (fireTimer h env gw))) (sessionId c') = None)
       \<and> (b = GraceTimeout cid r \<and> ctxAt gw r = Some c'
          \<longrightarrow> map_of (gemini (fst (fireTimer h env gw))) (sessionId c') = None)"
  using assms closeGemini_removes[of "sessionId c'" "closeThrows env" "clearTimeout h gw"]
  by (auto simp: fireTimer_def autoEndBody_def warningBody_def isConnected_def pauseCloseBody_def graceTimeoutBody_def split_beta Let_def split: query_result.splits)

text \<open>The pending auto-end callback of the sample session does nothing once a failed
  forward has left the session interrupted.\<close>

lemma autoEnd_after_interruption_is_noop:
  "fireTimer 3 quiet forward_failed = (clearTimeout 3 forward_failed, [])"
proof -
  have t1: "map_of (timers forward_failed) 3 = Some (240000, AutoEndTimer ''A'' 0)"
    by code_simp
  have s1: "map_of (sessions forward_failed) ''A'' = Some 0"
    by code_simp
  have "ctxAt forward_failed 0 \<noteq> None"
    by code_simp
  then have c1: "ctxAt forward_failed 0 = Some (the (ctxAt forward_failed 0))"
    by simp
  have st1: "status (the (ctxAt forward_failed 0)) \<noteq> Active"
    "status (the (ctxAt forward_failed 0)) \<noteq> Paused"
    by code_simp+
  have stale: "\<exists>r' c. map_of (sessions forward_failed) ''A'' = Some r'
      \<and> ctxAt forward_failed r' = Some c \<and> status c \<noteq> Active \<and> status c \<noteq> Paused"
    using s1 c1 st1 by blast
  show ?thesis
    using exam_timer_callbacks_revalidate[OF t1, where cid="''A''" and r=0 and env=quiet] stale
    by blast
qed

text \<open>The pause and grace callbacks never read the registry: what they do is the same
  whatever the registry holds.\<close>

lemma pause_and_grace_callbacks_ignore_registry:
  "snd (pauseCloseBody cid r env (gw\<lparr>sessions := s\<rparr>)) = snd (pauseCloseBody cid r env gw)"
  "heap (fst (pauseCloseBody cid r env (gw\<lparr>sessions := s\<rparr>)))
     = heap (fst (pauseCloseBody cid r env gw))"
  "snd (graceTimeoutBegin r t (gw\<lparr>sessions := s\<rparr>)) = snd (graceTimeoutBegin r t gw)"
  "snd (graceTimeoutFinish cid r q (gw\<lparr>sessions := s\<rparr>)) = snd (graceTimeoutFinish cid r q gw)"
  by (simp_all add: pauseCloseBody_def graceTimeoutBegin_def graceTimeoutFinish_def
        closeGemini_def isConnected_def modify_def split_beta Let_def
        split: option.splits query_result.splits)

text \<open>
  Claim C5. Every timer callback is to re-read the current context and connection before
  acting and to do nothing when the context is deregistered or its state no longer
  matches what the timer was scheduled for. The auto-end and warning callbacks do so;
  the pause-expiry and grace-expiry callbacks act on the context they captured and are
  kept from stale state only by \<^verbatim>\<open>clearTimeout\<close> in the other handlers, which does
  not cover a handler that is waiting at an \<^verbatim>\<open>await\<close>.

  Pause callback. The sample session receives \<^verbatim>\<open>pause_session\<close> at 100 s and
  \<^verbatim>\<open>resume_session\<close> 5 ms later, while the pause handler waits for its database
  update. The resume finds no pause timer to cancel and makes the session active; the
  pause handler then schedules the pause callback. In \<open>pause_overtaken\<close> the session
  is registered and active with that callback pending; when it fires it closes the adapter
  handle and sets the active session to \<open>GracePeriod\<close>.

  Grace callback. After the drop at 100 s the grace callback starts at 105 s, closes the
  adapter handle and waits for the status query; the owner reconnects on socket \<open>B\<close>
  meanwhile (the context still holds its timer handle), so in \<open>grace_overtaken\<close> the
  context is active and registered under \<open>B\<close>. The rest of the callback still persists
  \<open>interrupted\<close> for it.
\<close>

theorem pause_and_grace_callbacks_act_on_stale_state:
  "snd (fst (pauseBegin ''A'' 100000 admitted)) = [UpdateExamSession ''s'' ''paused'' (Some 0)]
   \<and> snd (pauseBegin ''A'' 100000 admitted) = Some 0
   \<and> snd (handleResumeSession ''A'' SetupComplete 100005 (fst (fst (pauseBegin ''A'' 100000 admitted))))
       = [UpdateExamSession ''s'' ''active'' None, Emit ''A'' SessionResumed]
   \<and> map_of (sessions pause_overtaken) ''A'' = Some 0
   \<and> map_option status (ctxAt pause_overtaken 0) = Some Active
   \<and> map_of (timers pause_overtaken) 8 = Some (160010, PauseCloseTimer ''A'' 0)
   \<and> snd (fireTimer 8 quiet pause_overtaken) = [ProviderClose ''s'', Emit ''A'' PauseTimeout]
   \<and> map_option status (ctxAt (fst (fireTimer 8 quiet pause_overtaken)) 0) = Some GracePeriod
   \<and> map_of (timers dropped) 4 = Some (105000, GraceTimeout ''A'' 0)
   \<and> snd (graceTimeoutBegin 0 False (clearTimeout 4 dropped)) = [ProviderClose ''s'']
   \<and> map_option disconnectTimer (ctxAt (fst (graceTimeoutBegin 0 False (clearTimeout 4 dropped))) 0)
       = Some (Some 4)
   \<and> sessions grace_overtaken = [(''B'', 0)]
   \<and> map_option status (ctxAt grace_overtaken 0) = Some Active
   \<and> graceTimeoutFinish ''A'' 0 (Row ''active'') grace_overtaken
       = (grace_overtaken, [UpdateExamSession ''s'' ''interrupted'' (Some 100)])"
  by code_simp


section \<open>Transcript flush before a terminal status\<close>

lemma flushedFirst_seen: "flushedFirst True es"
proof (induction es)
  case Nil
  show ?case by simp
next
  case (Cons e es)
  then show ?case by (cases e) simp_all
qed

lemma flushedFirst_after_save: "flushedFirst seen (SaveTranscript s h # es)"
  by (simp add: flushedFirst_seen)

lemma flushedFirst_skip_emit: "flushedFirst seen (Emit c ev # es) = flushedFirst seen es"
  by simp

lemma closeGemini_transcriptSaves [simp]: "transcriptSaves (snd (closeGemini sid t gw)) = []"
  by (rule closeGemini_effects)

lemma timers_subset_clearTimeout:
  "fst ` set (timers (clearTimeout h gw)) \<subseteq> fst ` set (timers gw)"
  by (auto simp: AList.delete_eq)

lemma timers_subset_clearTimeoutOpt:
  "fst ` set (timers (clearTimeoutOpt ho gw)) \<subseteq> fst ` set (timers gw)"
  using timers_subset_clearTimeout by (cases ho) (auto simp: clearTimeoutOpt_def)

lemma timers_subset_clearTimeouts:
  "fst ` set (timers (clearTimeouts hs gw)) \<subseteq> fst ` set (timers gw)"
  unfolding clearTimeouts_def
proof (induction hs arbitrary: gw)
  case Nil
  show ?case by simp
next
  case (Cons h hs)
  show ?case using Cons[of "clearTimeout h gw"] timers_subset_clearTimeout[of h gw] by auto
qed

lemma timers_subset_clearIdle:
  "fst ` set (timers (clearIdle cid gw)) \<subseteq> fst ` set (timers gw)"
  by (auto simp: clearIdle_def AList.delete_eq split: option.splits)

lemma map_of_snoc_fresh:
  "k \<notin> fst ` set xs \<Longrightarrow> map_of (xs @ [(k, v)]) k = Some v"
  by (simp add: map_of_eq_None_iff[symmetric] map_add_Some_iff)

lemma handleDisconnect_effects:
  assumes "map_of (sessions gw) cid = Some r" "ctxAt gw r = Some c"
  shows "snd (handleDisconnect cid now gw) = saveIfNonEmpty (sessionId c) (conversationHistory c)"
  using assms by (simp add: handleDisconnect_def Let_def split_beta)

lemma handleDisconnect_sessions:
  "sessions (fst (handleDisconnect cid now gw)) = sessions gw"
  by (simp add: handleDisconnect_def Let_def split_beta split: option.splits)

lemma handleDisconnect_gemini:
  "gemini (fst (handleDisconnect cid now gw)) = gemini gw"
  by (simp add: handleDisconnect_def Let_def split_beta split: option.splits)

lemma handleDisconnect_ctx:
  assumes "map_of (sessions gw) cid = Some r" "ctxAt gw r = Some c"
  shows "\<exists>c'. ctxAt (fst (handleDisconnect cid now gw)) r = Some c'
           \<and> sessionId c' = sessionId c \<and> conversationHistory c' = conversationHistory c
           \<and> elapsedSeconds c' = getElapsedSeconds c now \<and> status c' = GracePeriod
           \<and> disconnectTimer c' = Some (nextHandle gw)"
  using assms
  by (cases "pauseGeminiCloseTimer c")
     (simp_all add: handleDisconnect_def Let_def split_beta getElapsedSeconds_def)

lemma handleDisconnect_timer:
  assumes "map_of (sessions gw) cid = Some r" "ctxAt gw r = Some c"
    and fresh: "nextHandle gw \<notin> fst ` set (timers gw)"
  shows "map_of (timers (fst (handleDisconnect cid now gw))) (nextHandle gw)
           = Some (now + 5000, GraceTimeout cid r)"
proof -
  let ?g1 = "clearTimeoutOpt (disconnectTimer c) gw"
  let ?g2 = "clearTimeoutOpt (pauseTimer c) ?g1"
  let ?g3 = "clearTimeouts (timerHandles c) ?g2"
  let ?g4 = "clearTimeoutOpt (pauseGeminiCloseTimer c) ?g3"
  let ?g5 = "clearIdle cid ?g4"
  have sub: "fst ` set (timers ?g5) \<subseteq> fst ` set (timers gw)"
    using timers_subset_clearIdle[of cid ?g4] timers_subset_clearTimeoutOpt[of "pauseGeminiCloseTimer c" ?g3]
      timers_subset_clearTimeouts[of "timerHandles c" ?g2] timers_subset_clearTimeoutOpt[of "pauseTimer c" ?g1]
      timers_subset_clearTimeoutOpt[of "disconnectTimer c" gw]
    by blast
  have t: "timers (fst (handleDisconnect cid now gw))
       = timers ?g5 @ [(nextHandle gw, (now + 5000, GraceTimeout cid r))]"
    using assms(1,2)
    by (cases "pauseGeminiCloseTimer c")
       (simp_all add: handleDisconnect_def Let_def split_beta clearTimeoutOpt_def clearIdle_def split: option.splits)
  show ?thesis
    unfolding t using sub fresh by (intro map_of_snoc_fresh) blast
qed


lemma graceTimeoutBody_effects:
  assumes "ctxAt gw r = Some c"
  shows "transcriptSaves (snd (graceTimeoutBody cid r env gw)) = []"
    and "statusQ env = Row st \<Longrightarrow> st = ''active'' \<or> st = ''paused'' \<Longrightarrow>
           persisted (snd (graceTimeoutBody cid r env gw))
             = [(sessionId c, ''interrupted'', Some (elapsedSeconds c))]"
  using assms
  by (auto simp: graceTimeoutBody_def split_beta Let_def split: query_result.splits)

lemma grace_path:
  assumes reg: "map_of (sessions gw) cid = Some r" and ctx: "ctxAt gw r = Some c"
    and hist: "conversationHistory c \<noteq> []"
    and fresh: "nextHandle gw \<notin> fst ` set (timers gw)"
  shows "flushedFirst False (snd (handleDisconnect cid now gw)
            @ snd (fireTimer (nextHandle gw) env (fst (handleDisconnect cid now gw))))"
    and "transcriptSaves (snd (handleDisconnect cid now gw)
            @ snd (fireTimer (nextHandle gw) env (fst (handleDisconnect cid now gw))))
          = [(sessionId c, conversationHistory c)]"
    and "statusQ env = Row st \<Longrightarrow> st = ''active'' \<or> st = ''paused'' \<Longrightarrow>
         persisted (snd (handleDisconnect cid now gw)
            @ snd (fireTimer (nextHandle gw) env (fst (handleDisconnect cid now gw))))
          = [(sessionId c, ''interrupted'', Some (getElapsedSeconds c now))]"
proof -
  let ?gw1 = "fst (handleDisconnect cid now gw)"
  have es1: "snd (handleDisconnect cid now gw)
      = [SaveTranscript (sessionId c) (conversationHistory c)]"
    using handleDisconnect_effects[OF reg ctx] hist by (simp add: saveIfNonEmpty_def)
  obtain c' where c': "ctxAt ?gw1 r = Some c'" "sessionId c' = sessionId c"
      "elapsedSeconds c' = getElapsedSeconds c now"
    using handleDisconnect_ctx[OF reg ctx, of now] by blast
  have fire: "fireTimer (nextHandle gw) env ?gw1
      = graceTimeoutBody cid r env (clearTimeout (nextHandle gw) ?gw1)"
    using handleDisconnect_timer[OF reg ctx fresh, of now] by (simp add: fireTimer_def)
  have c'': "ctxAt (clearTimeout (nextHandle gw) ?gw1) r = Some c'"
    using c' by simp
  show "flushedFirst False (snd (handleDisconnect cid now gw)
            @ snd (fireTimer (nextHandle gw) env ?gw1))"
    by (simp add: es1 flushedFirst_seen)
  show "transcriptSaves (snd (handleDisconnect cid now gw)
            @ snd (fireTimer (nextHandle gw) env ?gw1))
          = [(sessionId c, conversationHistory c)]"
    using graceTimeoutBody_effects(1)[OF c''] by (simp add: es1 fire)
  show "persisted (snd (handleDisconnect cid now gw)
            @ snd (fireTimer (nextHandle gw) env ?gw1))
          = [(sessionId c, ''interrupted'', Some (getElapsedSeconds c now))]"
    if "statusQ env = Row st" "st = ''active'' \<or> st = ''paused''"
    using graceTimeoutBody_effects(2)[OF c'' that] c' by (simp add: es1 fire)
qed

lemma send_failure_path:
  assumes reg: "map_of (sessions gw) cid = Some r" and ctx: "ctxAt gw r = Some c"
    and hist: "conversationHistory c \<noteq> []"
    and act: "status c = Active"
    and pl: "audioData aenv = Some d" "d \<noteq> []" "validBase64 aenv"
      "int (length d) \<le> 100 * 1024"
    and room: "length (recentChunks c now) < 50"
    and up: "isSessionActive (gemini gw) (sessionId c)"
    and throws: "sendThrows aenv"
  shows "snd (handleAudioChunk cid aenv now gw)
    = [Emit cid (GeminiError ''AUDIO_FORWARD_FAILED''),
       SaveTranscript (sessionId c) (conversationHistory c),
       UpdateExamSession (sessionId c) ''interrupted'' (Some (elapsedSeconds c))]"
  using assms
  by (auto simp: handleAudioChunk_def forwardAudio_def audioForwardFailed_def sendAudioChunk_def
        isSessionActive_def saveIfNonEmpty_def getElapsedSeconds_def Let_def split_beta
        split: option.splits)

lemma autoEnd_path:
  assumes reg: "map_of (sessions gw) cid = Some r" and ctx: "ctxAt gw r = Some c"
    and hist: "conversationHistory c \<noteq> []"
    and pend: "map_of (timers gw) h = Some (due, AutoEndTimer cid r)"
    and live: "status c = Active \<or> status c = Paused"
  shows "\<exists>es. snd (fireTimer h env gw)
    = SaveTranscript (sessionId c) (conversationHistory c)
      # UpdateExamSession (sessionId c) ''completed'' (timeLimit c) # es
      \<and> transcriptSaves es = [] \<and> persisted es = []"
  using assms
  by (auto simp: fireTimer_def autoEndBody_def saveIfNonEmpty_def Let_def split_beta)


text \<open>
  The gateway paths. For a registered context with a non-empty conversation history, on
  each path of the gateway that persists a terminal status the transcript is saved before
  the status update:
  \<^item> disconnect followed by the grace-period callback it scheduled: the combined trace
    saves the transcript exactly once, before the \<open>interrupted\<close> update (made when the
    stored status is still active or paused, with the elapsed time frozen at disconnect);
  \<^item> a failed forward of an audio chunk on an active session: the transcript is saved
    once, then \<open>interrupted\<close> is persisted;
  \<^item> the auto-end callback of the context while it is active or paused: the transcript
    is saved once, then \<open>completed\<close> is persisted.
\<close>

lemma gateway_paths_flush_first:
  assumes reg: "map_of (sessions gw) cid = Some r" and ctx: "ctxAt gw r = Some c"
    and hist: "conversationHistory c \<noteq> []"
  shows "(nextHandle gw \<notin> fst ` set (timers gw) \<longrightarrow>
            flushedFirst False (snd (handleDisconnect cid now gw)
              @ snd (fireTimer (nextHandle gw) env (fst (handleDisconnect cid now gw))))
          \<and> transcriptSaves (snd (handleDisconnect cid now gw)
              @ snd (fireTimer (nextHandle gw) env (fst (handleDisconnect cid now gw))))
              = [(sessionId c, conversationHistory c)]
          \<and> (statusQ env = Row st \<and> (st = ''active'' \<or> st = ''paused'') \<longrightarrow>
                persisted (snd (handleDisconnect cid now gw)
                  @ snd (fireTimer (nextHandle gw) env (fst (handleDisconnect cid now gw))))
                  = [(sessionId c, ''interrupted'', Some (getElapsedSeconds c now))]))
       \<and> (status c = Active \<and> audioData aenv = Some d \<and> d \<noteq> [] \<and> validBase64 aenv
            \<and> int (length d) \<le> 100 * 1024 \<and> length (recentChunks c now) < 50
            \<and> isSessionActive (gemini gw) (sessionId c) \<and> sendThrows aenv \<longrightarrow>
            flushedFirst False (snd (handleAudioChunk cid aenv now gw))
          \<and> transcriptSaves (snd (handleAudioChunk cid aenv now gw))
              = [(sessionId c, conversationHistory c)]
          \<and> persisted (snd (handleAudioChunk cid aenv now gw))
              = [(sessionId c, ''interrupted'', Some (elapsedSeconds c))])
       \<and> (map_of (timers gw) h = Some (due, AutoEndTimer cid r)
            \<and> (status c = Active \<or> status c = Paused) \<longrightarrow>
            flushedFirst False (snd (fireTimer h env gw))
          \<and> transcriptSaves (snd (fireTimer h env gw)) = [(sessionId c, conversationHistory c)]
          \<and> persisted (snd (fireTimer h env gw)) = [(sessionId c, ''completed'', timeLimit c)])"
proof (intro conjI impI)
  assume fresh: "nextHandle gw \<notin> fst ` set (timers gw)"
  show "flushedFirst False (snd (handleDisconnect cid now gw)
              @ snd (fireTimer (nextHandle gw) env (fst (handleDisconnect cid now gw))))"
    by (rule grace_path(1)[OF reg ctx hist fresh])
  show "transcriptSaves (snd (handleDisconnect cid now gw)
              @ snd (fireTimer (nextHandle gw) env (fst (handleDisconnect cid now gw))))
              = [(sessionId c, conversationHistory c)]"
    by (rule grace_path(2)[OF reg ctx hist fresh])
  show "persisted (snd (handleDisconnect cid now gw)
                  @ snd (fireTimer (nextHandle gw) env (fst (handleDisconnect cid now gw))))
                  = [(sessionId c, ''interrupted'', Some (getElapsedSeconds c now))]"
    if "statusQ env = Row st \<and> (st = ''active'' \<or> st = ''paused'')"
    using grace_path(3)[OF reg ctx hist fresh, of env st now] that by blast
next
  assume a: "status c = Active \<and> audioData aenv = Some d \<and> d \<noteq> [] \<and> validBase64 aenv
            \<and> int (length d) \<le> 100 * 1024 \<and> length (recentChunks c now) < 50
            \<and> isSessionActive (gemini gw) (sessionId c) \<and> sendThrows aenv"
  then have es: "snd (handleAudioChunk cid aenv now gw)
    = [Emit cid (GeminiError ''AUDIO_FORWARD_FAILED''),
       SaveTranscript (sessionId c) (conversationHistory c),
       UpdateExamSession (sessionId c) ''interrupted'' (Some (elapsedSeconds c))]"
    using send_failure_path[OF reg ctx hist, of aenv d now] by blast
  show "flushedFirst False (snd (handleAudioChunk cid aenv now gw))"
    "transcriptSaves (snd (handleAudioChunk cid aenv now gw))
              = [(sessionId c, conversationHistory c)]"
    "persisted (snd (handleAudioChunk cid aenv now gw))
              = [(sessionId c, ''interrupted'', Some (elapsedSeconds c))]"
    by (simp_all add: es terminalStatus_def)
next
  assume a: "map_of (timers gw) h = Some (due, AutoEndTimer cid r)
            \<and> (status c = Active \<or> status c = Paused)"
  then obtain es where es: "snd (fireTimer h env gw)
    = SaveTranscript (sessionId c) (conversationHistory c)
      # UpdateExamSession (sessionId c) ''completed'' (timeLimit c) # es"
      "transcriptSaves es = []" "persisted es = []"
    using autoEnd_path[OF reg ctx hist, of h due env] by blast
  show "flushedFirst False (snd (fireTimer h env gw))"
    by (simp add: es flushedFirst_seen)
  show "transcriptSaves (snd (fireTimer h env gw)) = [(sessionId c, conversationHistory c)]"
    "persisted (snd (fireTimer h env gw)) = [(sessionId c, ''completed'', timeLimit c)]"
    by (simp_all add: es)
qed

lemma gateway_paths_flush_first_example:
  "persisted (snd (handleDisconnect ''A'' 100000 spoken)
       @ snd (fireTimer 4 quiet (fst (handleDisconnect ''A'' 100000 spoken))))
     = [(''s'', ''interrupted'', Some 100)]
   \<and> length (transcriptSaves (snd (handleDisconnect ''A'' 100000 spoken)
       @ snd (fireTimer 4 quiet (fst (handleDisconnect ''A'' 100000 spoken))))) = 1
   \<and> flushedFirst False
        (snd (handleAudioChunk ''A'' (sample_audio\<lparr>sendThrows := True\<rparr>) 5000 spoken))
   \<and> persisted (snd (handleAudioChunk ''A'' (sample_audio\<lparr>sendThrows := True\<rparr>) 5000 spoken))
     = [(''s'', ''interrupted'', Some 0)]
   \<and> flushedFirst False (snd (fireTimer 3 quiet spoken))
   \<and> persisted (snd (fireTimer 3 quiet spoken)) = [(''s'', ''completed'', Some 240)]"
proof -
  let ?c = "the (ctxAt spoken 0)"
  let ?a = "sample_audio\<lparr>sendThrows := True\<rparr>"
  have reg: "map_of (sessions spoken) ''A'' = Some 0"
    by code_simp
  have "ctxAt spoken 0 \<noteq> None"
    by code_simp
  then have ctx: "ctxAt spoken 0 = Some ?c"
    by simp
  have hist: "conversationHistory ?c \<noteq> []"
    by code_simp
  have nh: "nextHandle spoken = 4"
    by code_simp
  have fresh: "nextHandle spoken \<notin> fst ` set (timers spoken)"
    by code_simp
  have q: "statusQ quiet = Row ''active'' \<and> (''active'' = ''active'' \<or> ''active'' = ''paused'')"
    by (simp add: quiet_def)
  have a: "status ?c = Active \<and> audioData ?a = Some ''AAAA'' \<and> ''AAAA'' \<noteq> [] \<and> validBase64 ?a
            \<and> int (length ''AAAA'') \<le> 100 * 1024 \<and> length (recentChunks ?c 5000) < 50
            \<and> isSessionActive (gemini spoken) (sessionId ?c) \<and> sendThrows ?a"
    by code_simp
  have t: "map_of (timers spoken) 3 = Some (240000, AutoEndTimer ''A'' 0)
            \<and> (status ?c = Active \<or> status ?c = Paused)"
    by code_simp
  have v: "sessionId ?c = ''s''" "getElapsedSeconds ?c 100000 = 100" "elapsedSeconds ?c = 0"
    "timeLimit ?c = Some 240"
    by code_simp+
  show ?thesis
    using gateway_paths_flush_first[OF reg ctx hist, where now=100000
        and env=quiet and st="''active''" and aenv="?a" and d="''AAAA''" and h=3 and due=240000]
      gateway_paths_flush_first[OF reg ctx hist, where now=5000
        and env=quiet and st="''active''" and aenv="?a" and d="''AAAA''" and h=3 and due=240000]
      nh fresh q a t v
    by simp
qed

text \<open>
  Claim C4. On every path that persists a terminal status the non-empty conversation
  history is to be saved first. The three gateway paths above do so. The explicit end
  does not: \<^verbatim>\<open>endSession\<close>, called as the controller calls it (session, student,
  reason), writes \<open>completed\<close> without any transcript save. In \<open>spoken\<close> the sample
  session is connected and its history holds the examiner's greeting; an explicit end at
  200 s persists \<open>completed\<close> while that history is unsaved, and it reaches the
  transcript store only when the socket drops afterwards. The save that \<^verbatim>\<open>endSession\<close>
  makes itself when a caller hands it the history also comes after the status update.
\<close>

theorem explicit_end_persists_unsaved_history:
  "map_of (sessions spoken) ''A'' = Some 0
   \<and> map_option conversationHistory (ctxAt spoken 0) = Some [greeting]
   \<and> endSession ''s'' ''stu'' (Some ''completed'') None (Some sample_row) False 200000
       = (Inr (200, True), [UpdateExamSession ''s'' ''completed'' (Some 200)])
   \<and> snd (step (ClientGone ''A'') 201000 spoken) = [SaveTranscript ''s'' [greeting]]
   \<and> snd (endSession ''s'' ''stu'' (Some ''completed'') (Some [greeting]) (Some sample_row)
            False 200000)
       = [UpdateExamSession ''s'' ''completed'' (Some 200), SaveTranscript ''s'' [greeting]]"
  by code_simp


section \<open>The single-flight invariant\<close>


lemma map_fst_map_entry: "map fst (AList.map_entry k f xs) = map fst xs"
  by (induction xs) auto

lemma heap_keys_modify [simp]: "map fst (heap (modify r f gw)) = map fst (heap gw)"
  by (simp add: modify_def map_fst_map_entry)

lemma sessionIdAt_modify [simp]:
  "(\<And>c. sessionId (f c) = sessionId c) \<Longrightarrow> sessionIdAt (modify r f gw) r' = sessionIdAt gw r'"
  by (simp add: sessionIdAt_def option.map_comp comp_def)

lemma sessionIdAt_same_heap: "heap gw' = heap gw \<Longrightarrow> sessionIdAt gw' r = sessionIdAt gw r"
  by (simp add: sessionIdAt_def ctxAt_def)

lemma sessionIdAt_primitives [simp]:
  "sessionIdAt (clearTimeout h gw) r = sessionIdAt gw r"
  "sessionIdAt (clearTimeoutOpt ho gw) r = sessionIdAt gw r"
  "sessionIdAt (clearTimeouts hs gw) r = sessionIdAt gw r"
  "sessionIdAt (clearIdle cid gw) r = sessionIdAt gw r"
  "sessionIdAt (markDisconnected cid gw) r = sessionIdAt gw r"
  "sessionIdAt (snd (setTimeout b d now gw)) r = sessionIdAt gw r"
  "sessionIdAt (fst (closeGemini sid t gw)) r = sessionIdAt gw r"
  "sessionIdAt (gw\<lparr>sessions := s\<rparr>) r = sessionIdAt gw r"
  "sessionIdAt (gw\<lparr>idleTimeouts := i\<rparr>) r = sessionIdAt gw r"
  "sessionIdAt (gw\<lparr>timers := ts\<rparr>) r = sessionIdAt gw r"
  "sessionIdAt (gw\<lparr>gemini := g\<rparr>) r = sessionIdAt gw r"
  "sessionIdAt (gw\<lparr>connected := cs\<rparr>) r = sessionIdAt gw r"
  by (simp_all add: sessionIdAt_def)

lemma setupWarning_frame [simp]:
  "sessions (setupWarning cid r lim now gw th) = sessions gw"
  "connected (setupWarning cid r lim now gw th) = connected gw"
  "gemini (setupWarning cid r lim now gw th) = gemini gw"
  "map fst (heap (setupWarning cid r lim now gw th)) = map fst (heap gw)"
  "sessionIdAt (setupWarning cid r lim now gw th) r' = sessionIdAt gw r'"
  by (simp_all add: setupWarning_def Let_def split_beta pushTimerHandle_def)

lemma foldl_setupWarning_frame [simp]:
  "sessions (foldl (setupWarning cid r lim now) gw ths) = sessions gw"
  "connected (foldl (setupWarning cid r lim now) gw ths) = connected gw"
  "gemini (foldl (setupWarning cid r lim now) gw ths) = gemini gw"
  "map fst (heap (foldl (setupWarning cid r lim now) gw ths)) = map fst (heap gw)"
  "sessionIdAt (foldl (setupWarning cid r lim now) gw ths) r' = sessionIdAt gw r'"
  by (induction ths arbitrary: gw; simp)+

lemma setupTimerWarnings_frame [simp]:
  "sessions (setupTimerWarnings cid r now gw) = sessions gw"
  "connected (setupTimerWarnings cid r now gw) = connected gw"
  "gemini (setupTimerWarnings cid r now gw) = gemini gw"
  "map fst (heap (setupTimerWarnings cid r now gw)) = map fst (heap gw)"
  "sessionIdAt (setupTimerWarnings cid r now gw) r' = sessionIdAt gw r'"
  by (simp_all add: setupTimerWarnings_def del: foldl.simps split: option.splits)

lemma setupAutoEnd_frame [simp]:
  "sessions (setupAutoEnd cid r now gw) = sessions gw"
  "connected (setupAutoEnd cid r now gw) = connected gw"
  "gemini (setupAutoEnd cid r now gw) = gemini gw"
  "map fst (heap (setupAutoEnd cid r now gw)) = map fst (heap gw)"
  "sessionIdAt (setupAutoEnd cid r now gw) r' = sessionIdAt gw r'"
  by (simp_all add: setupAutoEnd_def Let_def split_beta pushTimerHandle_def split: option.splits)

lemma handleDisconnect_frame:
  "sessions (fst (handleDisconnect cid now gw)) = sessions gw"
  "connected (fst (handleDisconnect cid now gw)) = connected gw"
  "map fst (heap (fst (handleDisconnect cid now gw))) = map fst (heap gw)"
  "sessionIdAt (fst (handleDisconnect cid now gw)) r' = sessionIdAt gw r'"
  by (simp_all add: handleDisconnect_def Let_def split_beta split: option.splits)

lemma forwardAudio_frame:
  "sessions (fst (forwardAudio cid r c d t now gw)) = sessions gw"
  "connected (fst (forwardAudio cid r c d t now gw)) = connected gw"
  "map fst (heap (fst (forwardAudio cid r c d t now gw))) = map fst (heap gw)"
  "sessionIdAt (fst (forwardAudio cid r c d t now gw)) r' = sessionIdAt gw r'"
  by (simp_all add: forwardAudio_def audioForwardFailed_def Let_def split_beta
        split: option.splits sum.splits)

lemma handleAudioChunk_frame:
  "sessions (fst (handleAudioChunk cid env now gw)) = sessions gw"
  "connected (fst (handleAudioChunk cid env now gw)) = connected gw"
  "map fst (heap (fst (handleAudioChunk cid env now gw))) = map fst (heap gw)"
  "sessionIdAt (fst (handleAudioChunk cid env now gw)) r' = sessionIdAt gw r'"
  by (simp_all add: handleAudioChunk_def forwardAudio_frame Let_def split: option.splits)

lemma handlePauseSession_frame:
  "sessions (fst (handlePauseSession cid e now gw)) = sessions gw"
  "connected (fst (handlePauseSession cid e now gw)) = connected gw"
  "map fst (heap (fst (handlePauseSession cid e now gw))) = map fst (heap gw)"
  "sessionIdAt (fst (handlePauseSession cid e now gw)) r' = sessionIdAt gw r'"
  by (simp_all add: handlePauseSession_def Let_def split_beta split: option.splits)

lemma resumeContext_frame:
  "sessions (fst (resumeContext cid r now gw)) = sessions gw"
  "connected (fst (resumeContext cid r now gw)) = connected gw"
  "map fst (heap (fst (resumeContext cid r now gw))) = map fst (heap gw)"
  "sessionIdAt (fst (resumeContext cid r now gw)) r' = sessionIdAt gw r'"
  by (simp_all add: resumeContext_def Let_def split_beta split: option.splits)

lemma handleResumeSession_frame:
  "sessions (fst (handleResumeSession cid oc now gw)) = sessions gw"
  "connected (fst (handleResumeSession cid oc now gw)) = connected gw"
  "map fst (heap (fst (handleResumeSession cid oc now gw))) = map fst (heap gw)"
  "sessionIdAt (fst (handleResumeSession cid oc now gw)) r' = sessionIdAt gw r'"
  by (simp_all add: handleResumeSession_def resumeContext_frame Let_def split_beta split: option.splits)

lemma onAudioResponse_frame:
  "sessions (fst (onAudioResponse cid r t now gw)) = sessions gw"
  "connected (fst (onAudioResponse cid r t now gw)) = connected gw"
  "map fst (heap (fst (onAudioResponse cid r t now gw))) = map fst (heap gw)"
  "sessionIdAt (fst (onAudioResponse cid r t now gw)) r' = sessionIdAt gw r'"
  by (simp_all add: onAudioResponse_def)


lemma fireTimer_frame:
  "map fst (heap (fst (fireTimer h env gw))) = map fst (heap gw)"
  "sessionIdAt (fst (fireTimer h env gw)) r' = sessionIdAt gw r'"
  "set (connected (fst (fireTimer h env gw))) \<subseteq> set (connected gw)"
  by (auto simp: fireTimer_def graceTimeoutBody_def pauseCloseBody_def warningBody_def
        autoEndBody_def Let_def split_beta
        split: option.splits timer_body.splits query_result.splits)

lemma fireTimer_sessions:
  "sessions (fst (fireTimer h env gw)) = sessions gw
   \<or> (\<exists>cid. sessions (fst (fireTimer h env gw)) = AList.delete cid (sessions gw))"
  by (auto simp: fireTimer_def graceTimeoutBody_def pauseCloseBody_def warningBody_def
        autoEndBody_def Let_def split_beta
        split: option.splits timer_body.splits query_result.splits)

lemma ctxAt_None_iff: "ctxAt gw r = None \<longleftrightarrow> sessionIdAt gw r = None"
  by (simp add: sessionIdAt_def)

lemma singleFlight_frame:
  assumes sf: "singleFlight gw"
    and keys: "\<forall>k \<in> fst ` set (heap gw'). k < length (heap gw')"
    and sid: "\<And>r. ctxAt gw r \<noteq> None \<Longrightarrow> sessionIdAt gw' r = sessionIdAt gw r"
    and sub: "set (sessions gw') \<subseteq> set (sessions gw)"
    and dist: "distinct (map fst (sessions gw'))"
  shows "singleFlight gw'"
proof -
  have reg: "ctxAt gw r \<noteq> None" if "(c, r) \<in> set (sessions gw')" for c r
    using sf sub that unfolding singleFlight_def by blast
  have b: "\<forall>(c, r) \<in> set (sessions gw'). ctxAt gw' r \<noteq> None"
    using reg sid unfolding ctxAt_None_iff by fastforce
  have c: "\<forall>(c1, r1) \<in> set (sessions gw'). \<forall>(c2, r2) \<in> set (sessions gw').
            sessionIdAt gw' r1 = sessionIdAt gw' r2 \<longrightarrow> c1 = c2"
  proof (clarify)
    fix c1 r1 c2 r2
    assume m: "(c1, r1) \<in> set (sessions gw')" "(c2, r2) \<in> set (sessions gw')"
      and e: "sessionIdAt gw' r1 = sessionIdAt gw' r2"
    have "sessionIdAt gw r1 = sessionIdAt gw r2"
      using e sid[OF reg[OF m(1)]] sid[OF reg[OF m(2)]] by simp
    then show "c1 = c2"
      using sf sub m unfolding singleFlight_def by blast
  qed
  show ?thesis
    unfolding singleFlight_def using keys b c dist by blast
qed

lemma keys_from_map_fst:
  "map fst h' = map fst h \<Longrightarrow> \<forall>k \<in> fst ` set h. k < length h
     \<Longrightarrow> \<forall>k \<in> fst ` set h'. k < length h'"
  by (metis length_map set_map)

lemma set_delete_subset: "set (AList.delete k xs) \<subseteq> set xs"
  by (auto simp: AList.delete_eq)

lemma singleFlight_unchanged_or_deleted:
  assumes sf: "singleFlight gw"
    and keys: "map fst (heap gw') = map fst (heap gw)"
    and sid: "\<And>r. sessionIdAt gw' r = sessionIdAt gw r"
    and ses: "sessions gw' = sessions gw \<or> (\<exists>c. sessions gw' = AList.delete c (sessions gw))"
  shows "singleFlight gw'"
proof (rule singleFlight_frame[OF sf])
  show "\<forall>k \<in> fst ` set (heap gw'). k < length (heap gw')"
    using keys_from_map_fst[OF keys] sf by (simp add: singleFlight_def)
  show "sessionIdAt gw' r = sessionIdAt gw r" for r
    by (rule sid)
  show "set (sessions gw') \<subseteq> set (sessions gw)"
    using ses set_delete_subset by fastforce
  have "distinct (map fst (sessions gw))"
    using sf by (simp add: singleFlight_def)
  then show "distinct (map fst (sessions gw'))"
    using ses by (auto simp: distinct_delete)
qed

lemma alloc_facts [simp]:
  "fst (alloc c gw) = length (heap gw)"
  "sessions (snd (alloc c gw)) = sessions gw"
  "connected (snd (alloc c gw)) = connected gw"
  "gemini (snd (alloc c gw)) = gemini gw"
  "timers (snd (alloc c gw)) = timers gw"
  "nextHandle (snd (alloc c gw)) = nextHandle gw"
  "idleTimeouts (snd (alloc c gw)) = idleTimeouts gw"
  "map fst (heap (snd (alloc c gw))) = map fst (heap gw) @ [length (heap gw)]"
  by (simp_all add: alloc_def)

lemma ctxAt_alloc:
  "ctxAt (snd (alloc c gw)) r =
     (case ctxAt gw r of Some x \<Rightarrow> Some x
      | None \<Rightarrow> if r = length (heap gw) then Some c else None)"
  by (auto simp: ctxAt_def alloc_def map_add_def split: option.splits)

lemma sessionIdAt_alloc_old:
  "ctxAt gw r \<noteq> None \<Longrightarrow> sessionIdAt (snd (alloc c gw)) r = sessionIdAt gw r"
  by (auto simp: sessionIdAt_def ctxAt_alloc)

lemma sessionIdAt_alloc_new:
  "\<forall>k \<in> fst ` set (heap gw). k < length (heap gw) \<Longrightarrow>
     sessionIdAt (snd (alloc c gw)) (length (heap gw)) = Some (sessionId c)"
proof -
  assume "\<forall>k \<in> fst ` set (heap gw). k < length (heap gw)"
  then have "length (heap gw) \<notin> fst ` set (heap gw)"
    by blast
  then have "ctxAt gw (length (heap gw)) = None"
    by (simp add: ctxAt_def map_of_eq_None_iff)
  then show ?thesis
    by (simp add: sessionIdAt_def ctxAt_alloc)
qed

lemma admit_frame:
  "map fst (heap (fst (admit cid sid ex oc now gw))) = map fst (heap gw) @ [length (heap gw)]"
  "sessionIdAt (fst (admit cid sid ex oc now gw)) r
     = sessionIdAt (snd (alloc (newSessionContext cid sid ex now) gw)) r"
  "sessions (fst (admit cid sid ex oc now gw)) = sessions gw
   \<or> sessions (fst (admit cid sid ex oc now gw)) = AList.update cid (length (heap gw)) (sessions gw)"
  by (simp_all add: admit_def Let_def split_beta reject_def)


lemma set_update_cases:
  "distinct (map fst xs) \<Longrightarrow> (c, r) \<in> set (AList.update k v xs)
     \<Longrightarrow> (c = k \<and> r = v) \<or> ((c, r) \<in> set xs \<and> c \<noteq> k)"
proof (induction xs)
  case Nil
  then show ?case by simp
next
  case (Cons p ps)
  show ?case
  proof (cases "fst p = k")
    case True
    then have nk: "k \<notin> fst ` set ps" using Cons.prems(1) by auto
    have "(c, r) = (k, v) \<or> (c, r) \<in> set ps" using Cons.prems(2) True by simp
    then show ?thesis using nk by force
  next
    case False
    then show ?thesis using Cons by (cases p) auto
  qed
qed

lemma singleFlight_update:
  assumes sf: "singleFlight gw"
    and keys: "\<forall>k \<in> fst ` set (heap gw'). k < length (heap gw')"
    and sid: "\<And>r. ctxAt gw r \<noteq> None \<Longrightarrow> sessionIdAt gw' r = sessionIdAt gw r"
    and ses: "sessions gw' = AList.update cid r0 S0"
    and sub: "set S0 \<subseteq> set (sessions gw)"
    and dist: "distinct (map fst S0)"
    and new: "sessionIdAt gw' r0 = Some s"
    and nodup: "\<And>c r. (c, r) \<in> set S0 \<Longrightarrow> c \<noteq> cid \<Longrightarrow> sessionIdAt gw r \<noteq> Some s"
  shows "singleFlight gw'"
proof -
  have old: "ctxAt gw r \<noteq> None" if "(c, r) \<in> set S0" for c r
    using sf sub that unfolding singleFlight_def by blast
  have cases: "(c = cid \<and> r = r0) \<or> ((c, r) \<in> set S0 \<and> c \<noteq> cid)"
    if "(c, r) \<in> set (sessions gw')" for c r
    using that set_update_cases[OF dist, of c r cid r0] by (simp add: ses)
  have b': "ctxAt gw' r \<noteq> None" if m: "(c, r) \<in> set (sessions gw')" for c r
  proof
    assume n: "ctxAt gw' r = None"
    from cases[OF m] show False
    proof
      assume "c = cid \<and> r = r0"
      then show False using new n by (simp add: sessionIdAt_def)
    next
      assume a: "(c, r) \<in> set S0 \<and> c \<noteq> cid"
      then have o: "ctxAt gw r \<noteq> None" using old by blast
      then have "sessionIdAt gw' r = sessionIdAt gw r" using sid by blast
      then show False using o n by (simp add: sessionIdAt_def)
    qed
  qed
  have b: "\<forall>(c, r) \<in> set (sessions gw'). ctxAt gw' r \<noteq> None"
    using b' by blast
  have c: "\<forall>(c1, r1) \<in> set (sessions gw'). \<forall>(c2, r2) \<in> set (sessions gw').
            sessionIdAt gw' r1 = sessionIdAt gw' r2 \<longrightarrow> c1 = c2"
  proof (clarify)
    fix c1 r1 c2 r2
    assume m1: "(c1, r1) \<in> set (sessions gw')" and m2: "(c2, r2) \<in> set (sessions gw')"
      and e: "sessionIdAt gw' r1 = sessionIdAt gw' r2"
    consider (both_new) "c1 = cid" "c2 = cid"
      | (first_new) "c1 = cid" "r1 = r0" "(c2, r2) \<in> set S0" "c2 \<noteq> cid"
      | (second_new) "c2 = cid" "r2 = r0" "(c1, r1) \<in> set S0" "c1 \<noteq> cid"
      | (both_old) "(c1, r1) \<in> set S0" "(c2, r2) \<in> set S0"
      using cases[OF m1] cases[OF m2] by blast
    then show "c1 = c2"
    proof cases
      case both_new
      then show ?thesis by simp
    next
      case first_new
      then have "sessionIdAt gw r2 = Some s"
        using e new sid[OF old] by metis
      then show ?thesis using nodup first_new by blast
    next
      case second_new
      then have "sessionIdAt gw r1 = Some s"
        using e new sid[OF old] by metis
      then show ?thesis using nodup second_new by blast
    next
      case both_old
      then have "sessionIdAt gw r1 = sessionIdAt gw r2"
        using e sid[OF old] by metis
      then show ?thesis using sf sub both_old unfolding singleFlight_def by blast
    qed
  qed
  have d: "distinct (map fst (sessions gw'))"
    by (simp add: ses distinct_update dist)
  show ?thesis
    unfolding singleFlight_def using keys b c d by blast
qed

lemma find_None_sessionIdAt:
  assumes "findSessionBySessionId gw sid = None" "(c, r) \<in> set (sessions gw)"
  shows "sessionIdAt gw r \<noteq> Some sid"
  using assms
  by (auto simp: findSessionBySessionId_def find_None_iff sessionIdAt_def split: option.splits)

lemma find_Some_sessionIdAt:
  assumes "findSessionBySessionId gw sid = Some (c, r)"
  shows "(c, r) \<in> set (sessions gw)" "sessionIdAt gw r = Some sid"
  using assms
  by (auto simp: findSessionBySessionId_def find_Some_iff sessionIdAt_def in_set_conv_nth
        split: option.splits)

lemma singleFlight_admit:
  assumes sf: "singleFlight gw" and nf: "findSessionBySessionId gw sid = None"
  shows "singleFlight (fst (admit cid sid ex oc now gw))"
proof -
  let ?gw' = "fst (admit cid sid ex oc now gw)"
  have hk: "\<forall>k \<in> fst ` set (heap gw). k < length (heap gw)"
    using sf by (simp add: singleFlight_def)
  have keys: "\<forall>k \<in> fst ` set (heap ?gw'). k < length (heap ?gw')"
  proof -
    have "fst ` set (heap ?gw') = set (map fst (heap gw) @ [length (heap gw)])"
      using admit_frame(1)[of cid sid ex oc now gw] by (metis set_map)
    moreover have "length (heap ?gw') = Suc (length (heap gw))"
      using admit_frame(1)[of cid sid ex oc now gw] by (metis length_map length_append_singleton)
    ultimately show ?thesis using hk by auto
  qed
  have sid_old: "sessionIdAt ?gw' r = sessionIdAt gw r" if "ctxAt gw r \<noteq> None" for r
    using that by (simp add: admit_frame(2) sessionIdAt_alloc_old)
  have sid_new: "sessionIdAt ?gw' (length (heap gw)) = Some sid"
    using sessionIdAt_alloc_new[OF hk] by (simp add: admit_frame(2) newSessionContext_def)
  from admit_frame(3)[of cid sid ex oc now gw] show ?thesis
  proof
    assume "sessions ?gw' = sessions gw"
    then show ?thesis
      using singleFlight_frame[OF sf keys sid_old] sf by (simp add: singleFlight_def)
  next
    assume u: "sessions ?gw' = AList.update cid (length (heap gw)) (sessions gw)"
    show ?thesis
    proof (rule singleFlight_update[OF sf keys sid_old u _ _ sid_new])
      show "set (sessions gw) \<subseteq> set (sessions gw)" by simp
      show "distinct (map fst (sessions gw))" using sf by (simp add: singleFlight_def)
      show "sessionIdAt gw r \<noteq> Some sid" if "(c, r) \<in> set (sessions gw)" for c r
        using find_None_sessionIdAt[OF nf that] .
    qed
  qed
qed




lemma singleFlight_cong:
  "sessions gw' = sessions gw \<Longrightarrow> heap gw' = heap gw \<Longrightarrow> singleFlight gw' = singleFlight gw"
  by (simp add: singleFlight_def sessionIdAt_def ctxAt_def)

lemma singleFlight_reject:
  "singleFlight gw \<Longrightarrow> singleFlight (fst (reject cid cause m gw))"
  by (simp add: reject_def singleFlight_cong[of "markDisconnected cid gw" gw])

lemma reconnect_frame:
  "map fst (heap (fst (reconnect cid sid old r c h now gw))) = map fst (heap gw)"
  "sessionIdAt (fst (reconnect cid sid old r c h now gw)) r' = sessionIdAt gw r'"
  "sessions (fst (reconnect cid sid old r c h now gw))
     = AList.update cid r (AList.delete old (sessions gw))"
  by (simp_all add: reconnect_def Let_def)

lemma set_delete_iff: "(c, r) \<in> set (AList.delete k xs) \<longleftrightarrow> (c, r) \<in> set xs \<and> c \<noteq> k"
  by (auto simp: AList.delete_eq)

lemma singleFlight_reconnect:
  assumes sf: "singleFlight gw" and found: "findSessionBySessionId gw sid = Some (old, r)"
  shows "singleFlight (fst (reconnect cid sid old r c h now gw))"
proof (rule singleFlight_update[OF sf _ _ reconnect_frame(3)])
  let ?gw' = "fst (reconnect cid sid old r c h now gw)"
  show "\<forall>k \<in> fst ` set (heap ?gw'). k < length (heap ?gw')"
    using keys_from_map_fst[OF reconnect_frame(1)] sf by (simp add: singleFlight_def)
  show "sessionIdAt ?gw' r' = sessionIdAt gw r'" for r'
    by (rule reconnect_frame(2))
  show "set (AList.delete old (sessions gw)) \<subseteq> set (sessions gw)"
    by (rule set_delete_subset)
  show "distinct (map fst (AList.delete old (sessions gw)))"
    using sf by (simp add: singleFlight_def distinct_delete)
  show "sessionIdAt ?gw' r = Some sid"
    using find_Some_sessionIdAt(2)[OF found] by (simp add: reconnect_frame(2))
  show "sessionIdAt gw r' \<noteq> Some sid"
    if m: "(c', r') \<in> set (AList.delete old (sessions gw))" and "c' \<noteq> cid" for c' r'
  proof
    assume e: "sessionIdAt gw r' = Some sid"
    have 1: "(c', r') \<in> set (sessions gw)" "c' \<noteq> old"
      using m by (simp_all add: set_delete_iff)
    have "c' = old"
      using sf 1(1) find_Some_sessionIdAt[OF found] e unfolding singleFlight_def by fastforce
    then show False using 1(2) by simp
  qed
qed

lemma freshAdmission_cases:
  "(\<exists>cause m. freshAdmission cid sid a env now gw = reject cid cause m gw)
   \<or> (\<exists>ex. freshAdmission cid sid a env now gw = admit cid sid ex (createOutcome env) now gw)"
  by (simp add: freshAdmission_def unexpected_def split: query_result.splits) blast

lemma singleFlight_freshAdmission:
  assumes sf: "singleFlight gw" and nf: "findSessionBySessionId gw sid = None"
  shows "singleFlight (fst (freshAdmission cid sid a env now gw))"
  using freshAdmission_cases[of cid sid a env now gw]
proof (elim disjE exE)
  fix cause m
  assume "freshAdmission cid sid a env now gw = reject cid cause m gw"
  then show ?thesis using singleFlight_reject[OF sf] by simp
next
  fix ex
  assume "freshAdmission cid sid a env now gw = admit cid sid ex (createOutcome env) now gw"
  then show ?thesis using singleFlight_admit[OF sf nf] by simp
qed

lemma handleConnection_cases:
  "(\<exists>cause m. handleConnection cid hs env now gw = reject cid cause m gw)
   \<or> (\<exists>sid old r c h. findSessionBySessionId gw sid = Some (old, r)
         \<and> handleConnection cid hs env now gw = reconnect cid sid old r c h now gw)
   \<or> (\<exists>sid a. findSessionBySessionId gw sid = None
         \<and> handleConnection cid hs env now gw = freshAdmission cid sid a env now gw)"
proof -
  have rejI: "\<exists>cause m. x = reject cid cause m gw" if "x = reject cid cause m gw"
    for x cause m
    using that by blast
  show ?thesis
  proof (cases "query_sessionId hs")
    case None
    then show ?thesis
      by (intro disjI1 rejI) (simp add: handleConnection_def)
  next
    case (Some sid)
    show ?thesis
    proof (cases "sid = []")
      case True
      then show ?thesis using Some
        by (intro disjI1 rejI) (simp add: handleConnection_def)
    next
      case sid: False
      show ?thesis
      proof (cases "truthyStr (token hs)")
        case False
        then show ?thesis using Some sid
          by (intro disjI1 rejI) (simp add: handleConnection_def)
      next
        case tok: True
        show ?thesis
        proof (cases "verifyAccessToken env")
          case None
          then show ?thesis using Some sid tok
            by (intro disjI1 rejI) (simp add: handleConnection_def)
        next
          case a: (Some a)
          show ?thesis
          proof (cases "findSessionBySessionId gw sid")
            case None
            then have "handleConnection cid hs env now gw = freshAdmission cid sid a env now gw"
              using Some sid tok a by (simp add: handleConnection_def)
            then show ?thesis using None by blast
          next
            case found: (Some p)
            obtain old r where p: "p = (old, r)" by (cases p)
            show ?thesis
            proof (cases "ctxAt gw r")
              case None
              then show ?thesis using Some sid tok a found p
                by (intro disjI1 rejI) (simp add: handleConnection_def unexpected_def)
            next
              case c: (Some c)
              show ?thesis
              proof (cases "disconnectTimer c")
                case None
                then show ?thesis using Some sid tok a found p c
                  by (intro disjI1 rejI) (simp add: handleConnection_def)
              next
                case h: (Some h)
                show ?thesis
                proof (cases "studentId c = a")
                  case True
                  then have "handleConnection cid hs env now gw
                      = reconnect cid sid old r c h now gw"
                    using Some sid tok a found p c h by (simp add: handleConnection_def)
                  then show ?thesis using found p by blast
                next
                  case False
                  then show ?thesis using Some sid tok a found p c h
                    by (intro disjI1 rejI) (simp add: handleConnection_def)
                qed
              qed
            qed
          qed
        qed
      qed
    qed
  qed
qed

lemma singleFlight_handleConnection:
  assumes sf: "singleFlight gw"
  shows "singleFlight (fst (handleConnection cid hs env now gw))"
  using handleConnection_cases[of cid hs env now gw]
proof (elim disjE exE conjE)
  fix cause m
  assume "handleConnection cid hs env now gw = reject cid cause m gw"
  then show ?thesis using singleFlight_reject[OF sf] by simp
next
  fix sid old r c h
  assume "findSessionBySessionId gw sid = Some (old, r)"
    "handleConnection cid hs env now gw = reconnect cid sid old r c h now gw"
  then show ?thesis using singleFlight_reconnect[OF sf] by simp
next
  fix sid a
  assume "findSessionBySessionId gw sid = None"
    "handleConnection cid hs env now gw = freshAdmission cid sid a env now gw"
  then show ?thesis using singleFlight_freshAdmission[OF sf] by simp
qed


lemma sf_disconnect:
  assumes sf: "singleFlight gw"
  shows "singleFlight (fst (handleDisconnect cid now gw))"
  by (rule singleFlight_unchanged_or_deleted[OF sf]) (simp_all add: handleDisconnect_frame)

lemma sf_audio:
  assumes sf: "singleFlight gw"
  shows "singleFlight (fst (handleAudioChunk cid env now gw))"
  by (rule singleFlight_unchanged_or_deleted[OF sf]) (simp_all add: handleAudioChunk_frame)

lemma sf_pause:
  assumes sf: "singleFlight gw"
  shows "singleFlight (fst (handlePauseSession cid dbError now gw))"
  by (rule singleFlight_unchanged_or_deleted[OF sf]) (simp_all add: handlePauseSession_frame)

lemma sf_resume:
  assumes sf: "singleFlight gw"
  shows "singleFlight (fst (handleResumeSession cid outcome now gw))"
  by (rule singleFlight_unchanged_or_deleted[OF sf]) (simp_all add: handleResumeSession_frame)

lemma sf_response:
  assumes sf: "singleFlight gw"
  shows "singleFlight (fst (onAudioResponse cid r t now gw))"
  by (rule singleFlight_unchanged_or_deleted[OF sf]) (simp_all add: onAudioResponse_frame)


lemma sf_fire:
  assumes sf: "singleFlight gw"
  shows "singleFlight (fst (fireTimer h env gw))"
  by (rule singleFlight_unchanged_or_deleted[OF sf fireTimer_frame(1) fireTimer_frame(2)
        fireTimer_sessions])

lemma sf_markConnected: "singleFlight (markConnected cid gw) = singleFlight gw"
  by (rule singleFlight_cong) (simp_all add: markConnected_def)

lemma sf_markDisconnected: "singleFlight (markDisconnected cid gw) = singleFlight gw"
  by (rule singleFlight_cong) simp_all

lemma singleFlight_step:
  assumes sf: "singleFlight gw"
  shows "singleFlight (fst (step e now gw))"
proof (cases e)
  case (Connect cid hs env)
  then show ?thesis
    using sf singleFlight_handleConnection[of "markConnected cid gw"] sf_markConnected by simp
next
  case (ClientGone cid)
  then show ?thesis
    using sf sf_disconnect[of "markDisconnected cid gw"] sf_markDisconnected by simp
next
  case (AudioChunk cid env)
  then show ?thesis using sf_audio[OF sf] by simp
next
  case (PauseRequest cid dbError)
  then show ?thesis using sf_pause[OF sf] by simp
next
  case (ResumeRequest cid outcome)
  then show ?thesis using sf_resume[OF sf] by simp
next
  case (TimerFires h env)
  then show ?thesis using sf_fire[OF sf] by simp
next
  case (ProviderResponse cid r t)
  then show ?thesis using sf_response[OF sf] by simp
qed

lemma singleFlight_init: "singleFlight init_gateway"
  by (simp add: singleFlight_def init_gateway_def)

lemma reachable_singleFlight: "reachable gw \<Longrightarrow> singleFlight gw"
  by (induction rule: reachable.induct) (simp_all add: singleFlight_init singleFlight_step)

lemma filter_at_most_one:
  "distinct (map fst xs) \<Longrightarrow> (\<And>x y. x \<in> set xs \<Longrightarrow> y \<in> set xs \<Longrightarrow> P x \<Longrightarrow> P y \<Longrightarrow> fst x = fst y)
     \<Longrightarrow> length (filter P xs) \<le> 1"
proof (induction xs)
  case Nil
  then show ?case by simp
next
  case (Cons x xs)
  have d: "fst x \<notin> fst ` set xs" "distinct (map fst xs)"
    using Cons.prems(1) by simp_all
  have ih: "length (filter P xs) \<le> 1"
    by (rule Cons.IH[OF d(2)]) (rule Cons.prems(2), simp_all)
  show ?case
  proof (cases "P x")
    case True
    have "\<not> P y" if y: "y \<in> set xs" for y
    proof
      assume "P y"
      then have "fst x = fst y"
        using Cons.prems(2)[of x y] True y by simp
      then show False using d(1) y by (metis imageI)
    qed
    then have "filter P xs = []"
      by (simp add: filter_empty_conv)
    then show ?thesis using True by simp
  next
    case False
    then show ?thesis using ih by simp
  qed
qed

lemma singleFlight_same_session:
  assumes sf: "singleFlight gw"
    and m: "(c1, r1) \<in> set (sessions gw)" "(c2, r2) \<in> set (sessions gw)"
    and x: "ctxAt gw r1 = Some x1" "ctxAt gw r2 = Some x2"
    and e: "sessionId x1 = sessionId x2"
  shows "c1 = c2"
proof -
  have "sessionIdAt gw r1 = sessionIdAt gw r2"
    using x e by (simp add: sessionIdAt_def)
  then show ?thesis
    using sf m unfolding singleFlight_def by blast
qed

lemma singleFlight_contextsFor:
  assumes sf: "singleFlight gw"
  shows "length (contextsFor gw sid) \<le> 1"
  unfolding contextsFor_def
proof (rule filter_at_most_one)
  show "distinct (map fst (sessions gw))" using sf by (simp add: singleFlight_def)
next
  fix x y :: "clientId \<times> ref"
  assume m: "x \<in> set (sessions gw)" "y \<in> set (sessions gw)"
    and px: "case x of (c, r) \<Rightarrow> case ctxAt gw r of None \<Rightarrow> False | Some ctx \<Rightarrow> sessionId ctx = sid"
    and py: "case y of (c, r) \<Rightarrow> case ctxAt gw r of None \<Rightarrow> False | Some ctx \<Rightarrow> sessionId ctx = sid"
  obtain c1 r1 where x: "x = (c1, r1)" by (cases x)
  obtain c2 r2 where y: "y = (c2, r2)" by (cases y)
  obtain x1 where x1: "ctxAt gw r1 = Some x1" "sessionId x1 = sid"
    using px x by (cases "ctxAt gw r1") simp_all
  obtain x2 where x2: "ctxAt gw r2 = Some x2" "sessionId x2 = sid"
    using py y by (cases "ctxAt gw r2") simp_all
  have "c1 = c2"
    by (rule singleFlight_same_session[OF sf _ _ x1(1) x2(1)]) (use m x y x1 x2 in simp_all)
  then show "fst x = fst y" using x y by simp
qed


section \<open>The grace-period invariant\<close>


lemma fieldAt_modify [simp]:
  "(\<And>c. status (f c) = status c) \<Longrightarrow> statusAt (modify r f gw) r' = statusAt gw r'"
  "(\<And>c. disconnectTimer (f c) = disconnectTimer c)
     \<Longrightarrow> disconnectTimerAt (modify r f gw) r' = disconnectTimerAt gw r'"
  by (simp_all add: statusAt_def disconnectTimerAt_def option.map_comp comp_def)

lemma fieldAt_modify_other [simp]:
  "r' \<noteq> r \<Longrightarrow> statusAt (modify r f gw) r' = statusAt gw r'"
  "r' \<noteq> r \<Longrightarrow> disconnectTimerAt (modify r f gw) r' = disconnectTimerAt gw r'"
  by (simp_all add: statusAt_def disconnectTimerAt_def)

lemma fieldAt_primitives [simp]:
  "statusAt (clearTimeout h gw) r = statusAt gw r"
  "statusAt (clearTimeoutOpt ho gw) r = statusAt gw r"
  "statusAt (clearTimeouts hs gw) r = statusAt gw r"
  "statusAt (clearIdle cid gw) r = statusAt gw r"
  "statusAt (markDisconnected cid gw) r = statusAt gw r"
  "statusAt (snd (setTimeout b d now gw)) r = statusAt gw r"
  "statusAt (fst (closeGemini sid t gw)) r = statusAt gw r"
  "statusAt (gw\<lparr>sessions := s\<rparr>) r = statusAt gw r"
  "statusAt (gw\<lparr>idleTimeouts := i\<rparr>) r = statusAt gw r"
  "statusAt (gw\<lparr>timers := ts\<rparr>) r = statusAt gw r"
  "statusAt (gw\<lparr>gemini := g\<rparr>) r = statusAt gw r"
  "statusAt (gw\<lparr>connected := cs\<rparr>) r = statusAt gw r"
  "disconnectTimerAt (clearTimeout h gw) r = disconnectTimerAt gw r"
  "disconnectTimerAt (clearTimeoutOpt ho gw) r = disconnectTimerAt gw r"
  "disconnectTimerAt (clearTimeouts hs gw) r = disconnectTimerAt gw r"
  "disconnectTimerAt (clearIdle cid gw) r = disconnectTimerAt gw r"
  "disconnectTimerAt (markDisconnected cid gw) r = disconnectTimerAt gw r"
  "disconnectTimerAt (snd (setTimeout b d now gw)) r = disconnectTimerAt gw r"
  "disconnectTimerAt (fst (closeGemini sid t gw)) r = disconnectTimerAt gw r"
  "disconnectTimerAt (gw\<lparr>sessions := s\<rparr>) r = disconnectTimerAt gw r"
  "disconnectTimerAt (gw\<lparr>idleTimeouts := i\<rparr>) r = disconnectTimerAt gw r"
  "disconnectTimerAt (gw\<lparr>timers := ts\<rparr>) r = disconnectTimerAt gw r"
  "disconnectTimerAt (gw\<lparr>gemini := g\<rparr>) r = disconnectTimerAt gw r"
  "disconnectTimerAt (gw\<lparr>connected := cs\<rparr>) r = disconnectTimerAt gw r"
  by (simp_all add: statusAt_def disconnectTimerAt_def)

lemma setupWarning_status [simp]:
  "statusAt (setupWarning cid r lim now gw th) r' = statusAt gw r'"
  "disconnectTimerAt (setupWarning cid r lim now gw th) r' = disconnectTimerAt gw r'"
  by (simp_all add: setupWarning_def Let_def split_beta pushTimerHandle_def)

lemma foldl_setupWarning_status [simp]:
  "statusAt (foldl (setupWarning cid r lim now) gw ths) r' = statusAt gw r'"
  "disconnectTimerAt (foldl (setupWarning cid r lim now) gw ths) r' = disconnectTimerAt gw r'"
  by (induction ths arbitrary: gw; simp)+

lemma setupTimerWarnings_status [simp]:
  "statusAt (setupTimerWarnings cid r now gw) r' = statusAt gw r'"
  "disconnectTimerAt (setupTimerWarnings cid r now gw) r' = disconnectTimerAt gw r'"
  by (simp_all add: setupTimerWarnings_def del: foldl.simps split: option.splits)

lemma setupAutoEnd_status [simp]:
  "statusAt (setupAutoEnd cid r now gw) r' = statusAt gw r'"
  "disconnectTimerAt (setupAutoEnd cid r now gw) r' = disconnectTimerAt gw r'"
  by (simp_all add: setupAutoEnd_def Let_def split_beta pushTimerHandle_def split: option.splits)

lemma resumeContext_status:
  "disconnectTimerAt (fst (resumeContext cid r now gw)) r' = disconnectTimerAt gw r'"
  "r' \<noteq> r \<Longrightarrow> statusAt (fst (resumeContext cid r now gw)) r' = statusAt gw r'"
  by (simp_all add: resumeContext_def Let_def split_beta split: option.splits)

lemma handleResumeSession_status:
  "disconnectTimerAt (fst (handleResumeSession cid oc now gw)) r' = disconnectTimerAt gw r'"
  "map_of (sessions gw) cid \<noteq> Some r' \<Longrightarrow>
     statusAt (fst (handleResumeSession cid oc now gw)) r' = statusAt gw r'"
  by (auto simp: handleResumeSession_def resumeContext_status Let_def split_beta
        split: option.splits)

lemma handleDisconnect_status:
  "map_of (sessions gw) cid \<noteq> Some r' \<Longrightarrow>
     statusAt (fst (handleDisconnect cid now gw)) r' = statusAt gw r'"
  "map_of (sessions gw) cid \<noteq> Some r' \<Longrightarrow>
     disconnectTimerAt (fst (handleDisconnect cid now gw)) r' = disconnectTimerAt gw r'"
  "map_of (sessions gw) cid = Some r \<Longrightarrow> ctxAt gw r = Some c \<Longrightarrow>
     statusAt (fst (handleDisconnect cid now gw)) r = Some GracePeriod"
  by (auto simp: handleDisconnect_def Let_def split_beta statusAt_def
        split: option.splits)


lemma fieldAt_set [simp]:
  "statusAt (modify r (\<lambda>c. c\<lparr>status := v\<rparr>) gw) r
     = (case ctxAt gw r of None \<Rightarrow> None | Some c \<Rightarrow> Some v)"
  by (simp add: statusAt_def split: option.splits)

lemma graceInv_benign:
  assumes gi: "graceInv gw"
    and ses: "set (sessions gw') \<subseteq> set (sessions gw)"
    and con: "set (connected gw') \<subseteq> set (connected gw)"
    and dt: "\<And>r. disconnectTimerAt gw' r = disconnectTimerAt gw r"
    and st: "\<And>r. statusAt gw' r = statusAt gw r \<or> statusAt gw r = Some Active
               \<or> statusAt gw' r = Some GracePeriod"
  shows "graceInv gw'"
  unfolding graceInv_def
proof (intro ballI allI impI, clarify)
  fix c r h
  assume m: "(c, r) \<in> set (sessions gw')" and t: "disconnectTimerAt gw' r = Some (Some h)"
  have "statusAt gw r = Some GracePeriod \<and> c \<notin> set (connected gw)"
    using gi m ses t unfolding graceInv_def dt by blast
  then show "statusAt gw' r = Some GracePeriod \<and> c \<notin> set (connected gw')"
    using st[of r] con by auto
qed

lemma forwardAudio_status:
  "disconnectTimerAt (fst (forwardAudio cid r c d t now gw)) r' = disconnectTimerAt gw r'"
  "r' \<noteq> r \<Longrightarrow> statusAt (fst (forwardAudio cid r c d t now gw)) r' = statusAt gw r'"
  by (simp_all add: forwardAudio_def audioForwardFailed_def Let_def split_beta
        split: option.splits sum.splits)

lemma handleAudioChunk_status:
  "disconnectTimerAt (fst (handleAudioChunk cid env now gw)) r' = disconnectTimerAt gw r'"
  "statusAt (fst (handleAudioChunk cid env now gw)) r' = statusAt gw r'
     \<or> statusAt gw r' = Some Active"
proof -
  show "disconnectTimerAt (fst (handleAudioChunk cid env now gw)) r' = disconnectTimerAt gw r'"
    by (simp add: handleAudioChunk_def forwardAudio_status Let_def split: option.splits)
  show "statusAt (fst (handleAudioChunk cid env now gw)) r' = statusAt gw r'
     \<or> statusAt gw r' = Some Active"
  proof (cases "map_of (sessions gw) cid")
    case None
    then show ?thesis by (simp add: handleAudioChunk_def)
  next
    case (Some r)
    show ?thesis
    proof (cases "r' = r")
      case False
      then show ?thesis using Some
        by (simp add: handleAudioChunk_def forwardAudio_status Let_def split: option.splits)
    next
      case True
      show ?thesis
      proof (cases "ctxAt gw r")
        case None
        then show ?thesis using Some by (simp add: handleAudioChunk_def)
      next
        case c: (Some c)
        show ?thesis
        proof (cases "status c = Active")
          case False
          then show ?thesis using Some c by (simp add: handleAudioChunk_def)
        next
          case act: True
          then show ?thesis using c True by (simp add: statusAt_def)
        qed
      qed
    qed
  qed
qed

lemma handlePauseSession_status:
  "disconnectTimerAt (fst (handlePauseSession cid e now gw)) r' = disconnectTimerAt gw r'"
  "statusAt (fst (handlePauseSession cid e now gw)) r' = statusAt gw r'
     \<or> statusAt gw r' = Some Active"
proof -
  show "disconnectTimerAt (fst (handlePauseSession cid e now gw)) r' = disconnectTimerAt gw r'"
    by (simp add: handlePauseSession_def Let_def split_beta split: option.splits)
  show "statusAt (fst (handlePauseSession cid e now gw)) r' = statusAt gw r'
     \<or> statusAt gw r' = Some Active"
  proof (cases "map_of (sessions gw) cid")
    case None
    then show ?thesis by (simp add: handlePauseSession_def)
  next
    case (Some r)
    show ?thesis
    proof (cases "r' = r")
      case False
      then show ?thesis using Some
        by (simp add: handlePauseSession_def Let_def split_beta split: option.splits)
    next
      case True
      show ?thesis
      proof (cases "ctxAt gw r")
        case None
        then show ?thesis using Some by (simp add: handlePauseSession_def)
      next
        case c: (Some c)
        show ?thesis
        proof (cases "status c = Active")
          case False
          then show ?thesis using Some c by (simp add: handlePauseSession_def)
        next
          case act: True
          then show ?thesis using c True by (simp add: statusAt_def)
        qed
      qed
    qed
  qed
qed

lemma onAudioResponse_status:
  "disconnectTimerAt (fst (onAudioResponse cid r t now gw)) r' = disconnectTimerAt gw r'"
  "statusAt (fst (onAudioResponse cid r t now gw)) r' = statusAt gw r'"
  by (simp_all add: onAudioResponse_def)

lemma pauseCloseBody_status:
  "disconnectTimerAt (fst (pauseCloseBody cid r env gw)) r' = disconnectTimerAt gw r'"
  "statusAt (fst (pauseCloseBody cid r env gw)) r' = statusAt gw r'
     \<or> statusAt (fst (pauseCloseBody cid r env gw)) r' = Some GracePeriod"
  by (auto simp: pauseCloseBody_def Let_def split_beta statusAt_def split: option.splits)

lemma graceTimeoutBody_status:
  "disconnectTimerAt (fst (graceTimeoutBody cid r env gw)) r' = disconnectTimerAt gw r'"
  "statusAt (fst (graceTimeoutBody cid r env gw)) r' = statusAt gw r'"
  by (simp_all add: graceTimeoutBody_def Let_def split_beta
        split: option.splits query_result.splits)

lemma autoEndBody_status:
  "disconnectTimerAt (fst (autoEndBody cid r env gw)) r' = disconnectTimerAt gw r'"
  "statusAt (fst (autoEndBody cid r env gw)) r' = statusAt gw r'"
  by (simp_all add: autoEndBody_def Let_def split_beta split: option.splits)

lemma fireTimer_status:
  "disconnectTimerAt (fst (fireTimer h env gw)) r' = disconnectTimerAt gw r'"
  "statusAt (fst (fireTimer h env gw)) r' = statusAt gw r'
     \<or> statusAt (fst (fireTimer h env gw)) r' = Some GracePeriod"
proof -
  show "disconnectTimerAt (fst (fireTimer h env gw)) r' = disconnectTimerAt gw r'"
    by (simp add: fireTimer_def pauseCloseBody_status graceTimeoutBody_status autoEndBody_status
          warningBody_def Let_def split: option.splits timer_body.splits)
  show "statusAt (fst (fireTimer h env gw)) r' = statusAt gw r'
     \<or> statusAt (fst (fireTimer h env gw)) r' = Some GracePeriod"
  proof (cases "map_of (timers gw) h")
    case None
    then show ?thesis by (simp add: fireTimer_def)
  next
    case (Some p)
    obtain due b where p: "p = (due, b)" by (cases p)
    show ?thesis
    proof (cases b)
      case (PauseCloseTimer cid r)
      then show ?thesis
        using Some p pauseCloseBody_status(2)[of cid r env "clearTimeout h gw" r']
        by (simp add: fireTimer_def)
    qed (use Some p in \<open>simp_all add: fireTimer_def graceTimeoutBody_status autoEndBody_status
          warningBody_def Let_def\<close>)
  qed
qed

lemma fireTimer_sessions_subset:
  "set (sessions (fst (fireTimer h env gw))) \<subseteq> set (sessions gw)"
  using fireTimer_sessions[of h env gw] set_delete_subset by fastforce


lemma graceInv_audio:
  "graceInv gw \<Longrightarrow> graceInv (fst (handleAudioChunk cid env now gw))"
  by (rule graceInv_benign[where gw=gw])
     (use handleAudioChunk_status[of cid env now gw] in \<open>auto simp: handleAudioChunk_frame\<close>)

lemma graceInv_pause:
  "graceInv gw \<Longrightarrow> graceInv (fst (handlePauseSession cid e now gw))"
  by (rule graceInv_benign[where gw=gw])
     (use handlePauseSession_status[of cid e now gw] in \<open>auto simp: handlePauseSession_frame\<close>)

lemma graceInv_response:
  "graceInv gw \<Longrightarrow> graceInv (fst (onAudioResponse cid r t now gw))"
  by (rule graceInv_benign[where gw=gw])
     (simp_all add: onAudioResponse_frame onAudioResponse_status)

lemma graceInv_fire:
  "graceInv gw \<Longrightarrow> graceInv (fst (fireTimer h env gw))"
  by (rule graceInv_benign[where gw=gw])
     (use fireTimer_status[of h env gw] fireTimer_frame(3)[of h env gw]
        fireTimer_sessions_subset[of h env gw] in auto)




lemma in_sessions_map_of:
  "distinct (map fst xs) \<Longrightarrow> (c, r) \<in> set xs \<longleftrightarrow> map_of xs c = Some r"
  by (auto dest: map_of_SomeD)

lemma graceInv_resume:
  assumes gi: "graceInv gw" and en: "cid \<in> set (connected gw)"
  shows "graceInv (fst (handleResumeSession cid oc now gw))"
  unfolding graceInv_def
proof (intro ballI allI impI, clarify)
  let ?gw' = "fst (handleResumeSession cid oc now gw)"
  fix c r h
  assume m: "(c, r) \<in> set (sessions ?gw')" and t: "disconnectTimerAt ?gw' r = Some (Some h)"
  have m': "(c, r) \<in> set (sessions gw)" using m by (simp add: handleResumeSession_frame)
  have t': "disconnectTimerAt gw r = Some (Some h)" using t by (simp add: handleResumeSession_status)
  have g: "statusAt gw r = Some GracePeriod \<and> c \<notin> set (connected gw)"
    using gi m' t' unfolding graceInv_def by blast
  have "map_of (sessions gw) cid \<noteq> Some r"
  proof
    assume "map_of (sessions gw) cid = Some r"
    then have "(cid, r) \<in> set (sessions gw)" by (rule map_of_SomeD)
    then have "cid \<notin> set (connected gw)"
      using gi t' unfolding graceInv_def by blast
    then show False using en by simp
  qed
  then have "statusAt ?gw' r = statusAt gw r"
    by (rule handleResumeSession_status(2))
  then show "statusAt ?gw' r = Some GracePeriod \<and> c \<notin> set (connected ?gw')"
    using g by (simp add: handleResumeSession_frame)
qed

lemma graceInv_disconnect:
  assumes gi: "graceInv gw" and sf: "singleFlight gw" and off: "cid \<notin> set (connected gw)"
  shows "graceInv (fst (handleDisconnect cid now gw))"
  unfolding graceInv_def
proof (intro ballI allI impI, clarify)
  let ?gw' = "fst (handleDisconnect cid now gw)"
  fix c r h
  assume m: "(c, r) \<in> set (sessions ?gw')" and t: "disconnectTimerAt ?gw' r = Some (Some h)"
  have m': "(c, r) \<in> set (sessions gw)" using m by (simp add: handleDisconnect_frame)
  have con: "connected ?gw' = connected gw" by (simp add: handleDisconnect_frame)
  show "statusAt ?gw' r = Some GracePeriod \<and> c \<notin> set (connected ?gw')"
  proof (cases "map_of (sessions gw) cid = Some r")
    case False
    then have "disconnectTimerAt gw r = Some (Some h)" "statusAt ?gw' r = statusAt gw r"
      using t by (simp_all add: handleDisconnect_status)
    then show ?thesis using gi m' con unfolding graceInv_def by fastforce
  next
    case True
    then have mc: "(cid, r) \<in> set (sessions gw)" by (rule map_of_SomeD)
    obtain x where x: "ctxAt gw r = Some x"
      using sf mc unfolding singleFlight_def by fastforce
    have "c = cid"
      by (rule singleFlight_same_session[OF sf m' mc x x]) simp
    then show ?thesis
      using handleDisconnect_status(3)[OF True x] off con by simp
  qed
qed

lemma graceInv_markConnected:
  assumes gi: "graceInv gw" and fresh: "map_of (sessions gw) cid = None"
  shows "graceInv (markConnected cid gw)"
  unfolding graceInv_def
proof (intro ballI allI impI, clarify)
  fix c r h
  assume m: "(c, r) \<in> set (sessions (markConnected cid gw))"
    and t: "disconnectTimerAt (markConnected cid gw) r = Some (Some h)"
  have m': "(c, r) \<in> set (sessions gw)" using m by (simp add: markConnected_def)
  have t': "disconnectTimerAt gw r = Some (Some h)" using t by (simp add: markConnected_def)
  have g: "statusAt gw r = Some GracePeriod \<and> c \<notin> set (connected gw)"
    using gi m' t' unfolding graceInv_def by blast
  have "c \<noteq> cid"
    using m' fresh by (metis fst_conv image_eqI map_of_eq_None_iff)
  then show "statusAt (markConnected cid gw) r = Some GracePeriod
      \<and> c \<notin> set (connected (markConnected cid gw))"
    using g by (simp add: markConnected_def)
qed

lemma graceInv_markDisconnected:
  "graceInv gw \<Longrightarrow> graceInv (markDisconnected cid gw)"
  by (rule graceInv_benign[where gw=gw]) auto

lemma graceInv_reject:
  "graceInv gw \<Longrightarrow> graceInv (fst (reject cid cause m gw))"
  by (simp add: reject_def graceInv_markDisconnected)


lemma reconnect_status:
  "r' \<noteq> r \<Longrightarrow> disconnectTimerAt (fst (reconnect cid sid old r c h now gw)) r'
     = disconnectTimerAt gw r'"
  "r' \<noteq> r \<Longrightarrow> statusAt (fst (reconnect cid sid old r c h now gw)) r' = statusAt gw r'"
  "disconnectTimerAt (fst (reconnect cid sid old r c h now gw)) r \<noteq> Some (Some h')"
  "connected (fst (reconnect cid sid old r c h now gw)) = connected gw"
  by (auto simp: reconnect_def Let_def disconnectTimerAt_def split: option.splits)

lemma graceInv_reconnect:
  assumes gi: "graceInv gw" and sf: "singleFlight gw"
  shows "graceInv (fst (reconnect cid sid old r c h now gw))"
  unfolding graceInv_def
proof (intro ballI allI impI, clarify)
  let ?gw' = "fst (reconnect cid sid old r c h now gw)"
  fix c' r' h'
  assume m: "(c', r') \<in> set (sessions ?gw')" and t: "disconnectTimerAt ?gw' r' = Some (Some h')"
  have ne: "r' \<noteq> r"
    using t reconnect_status(3)[of cid sid old r c h now gw h'] by auto
  have d: "distinct (map fst (AList.delete old (sessions gw)))"
    using sf by (simp add: singleFlight_def distinct_delete)
  have "(c' = cid \<and> r' = r) \<or> ((c', r') \<in> set (AList.delete old (sessions gw)) \<and> c' \<noteq> cid)"
    using m set_update_cases[OF d, of c' r' cid r] by (simp add: reconnect_frame)
  then have m': "(c', r') \<in> set (sessions gw)"
    using ne set_delete_subset by fastforce
  have "disconnectTimerAt gw r' = Some (Some h')"
    using t ne by (simp add: reconnect_status)
  then have "statusAt gw r' = Some GracePeriod \<and> c' \<notin> set (connected gw)"
    using gi m' unfolding graceInv_def by blast
  then show "statusAt ?gw' r' = Some GracePeriod \<and> c' \<notin> set (connected ?gw')"
    using ne by (simp add: reconnect_status)
qed

lemma fieldAt_alloc_old:
  "ctxAt gw r \<noteq> None \<Longrightarrow> statusAt (snd (alloc c gw)) r = statusAt gw r"
  "ctxAt gw r \<noteq> None \<Longrightarrow> disconnectTimerAt (snd (alloc c gw)) r = disconnectTimerAt gw r"
  by (auto simp: statusAt_def disconnectTimerAt_def ctxAt_alloc)

lemma admit_status:
  "ctxAt gw r' \<noteq> None \<Longrightarrow>
     disconnectTimerAt (fst (admit cid sid ex oc now gw)) r' = disconnectTimerAt gw r'"
  "ctxAt gw r' \<noteq> None \<Longrightarrow> statusAt (fst (admit cid sid ex oc now gw)) r' = statusAt gw r'"
  "set (connected (fst (admit cid sid ex oc now gw))) \<subseteq> set (connected gw)"
  by (auto simp: admit_def Let_def split_beta reject_def fieldAt_alloc_old)

lemma graceInv_admit:
  assumes gi: "graceInv gw" and sf: "singleFlight gw"
  shows "graceInv (fst (admit cid sid ex oc now gw))"
  unfolding graceInv_def
proof (intro ballI allI impI, clarify)
  let ?gw' = "fst (admit cid sid ex oc now gw)"
  let ?n = "length (heap gw)"
  fix c r h
  assume m: "(c, r) \<in> set (sessions ?gw')" and t: "disconnectTimerAt ?gw' r = Some (Some h)"
  have hk: "\<forall>k \<in> fst ` set (heap gw). k < ?n"
    using sf by (simp add: singleFlight_def)
  have d: "distinct (map fst (sessions gw))"
    using sf by (simp add: singleFlight_def)
  have new: "disconnectTimerAt ?gw' ?n \<noteq> Some (Some h)"
  proof -
    have "?n \<notin> fst ` set (heap gw)" using hk by blast
    then have "ctxAt gw ?n = None" by (simp add: ctxAt_def map_of_eq_None_iff)
    then have "ctxAt (snd (alloc (newSessionContext cid sid ex now) gw)) ?n
        = Some (newSessionContext cid sid ex now)"
      by (simp add: ctxAt_alloc)
    then have "disconnectTimerAt (snd (alloc (newSessionContext cid sid ex now) gw)) ?n
        = Some None"
      by (simp add: disconnectTimerAt_def newSessionContext_def)
    then show ?thesis
      by (simp add: admit_def Let_def split_beta reject_def)
  qed
  then have ne: "r \<noteq> ?n" using t by auto
  have m': "(c, r) \<in> set (sessions gw)"
    using admit_frame(3)[of cid sid ex oc now gw] m ne set_update_cases[OF d, of c r cid ?n]
    by auto
  then have ex: "ctxAt gw r \<noteq> None"
    using sf unfolding singleFlight_def by blast
  have "disconnectTimerAt gw r = Some (Some h)"
    using t admit_status(1)[OF ex] by simp
  then have "statusAt gw r = Some GracePeriod \<and> c \<notin> set (connected gw)"
    using gi m' unfolding graceInv_def by blast
  then show "statusAt ?gw' r = Some GracePeriod \<and> c \<notin> set (connected ?gw')"
    using admit_status(2)[OF ex] admit_status(3)[of cid sid ex oc now gw] by auto
qed

lemma graceInv_freshAdmission:
  assumes gi: "graceInv gw" and sf: "singleFlight gw"
  shows "graceInv (fst (freshAdmission cid sid a env now gw))"
  using freshAdmission_cases[of cid sid a env now gw]
proof (elim disjE exE)
  fix cause m
  assume "freshAdmission cid sid a env now gw = reject cid cause m gw"
  then show ?thesis using graceInv_reject[OF gi] by simp
next
  fix ex
  assume "freshAdmission cid sid a env now gw = admit cid sid ex (createOutcome env) now gw"
  then show ?thesis using graceInv_admit[OF gi sf] by simp
qed

lemma graceInv_handleConnection:
  assumes gi: "graceInv gw" and sf: "singleFlight gw"
  shows "graceInv (fst (handleConnection cid hs env now gw))"
  using handleConnection_cases[of cid hs env now gw]
proof (elim disjE exE conjE)
  fix cause m
  assume "handleConnection cid hs env now gw = reject cid cause m gw"
  then show ?thesis using graceInv_reject[OF gi] by simp
next
  fix sid old r c h
  assume "handleConnection cid hs env now gw = reconnect cid sid old r c h now gw"
  then show ?thesis using graceInv_reconnect[OF gi sf] by simp
next
  fix sid a
  assume "handleConnection cid hs env now gw = freshAdmission cid sid a env now gw"
  then show ?thesis using graceInv_freshAdmission[OF gi sf] by simp
qed

lemma invariants_step:
  assumes sf: "singleFlight gw" and gi: "graceInv gw" and en: "enabled e gw"
  shows "graceInv (fst (step e now gw))"
proof (cases e)
  case (Connect cid hs env)
  have "graceInv (markConnected cid gw)"
    using graceInv_markConnected[OF gi] en Connect by simp
  moreover have "singleFlight (markConnected cid gw)"
    using sf sf_markConnected by simp
  ultimately show ?thesis
    using Connect graceInv_handleConnection by simp
next
  case (ClientGone cid)
  have "graceInv (markDisconnected cid gw)"
    by (rule graceInv_markDisconnected[OF gi])
  moreover have "singleFlight (markDisconnected cid gw)"
    using sf sf_markDisconnected by simp
  moreover have "cid \<notin> set (connected (markDisconnected cid gw))"
    by simp
  ultimately show ?thesis
    using ClientGone graceInv_disconnect by simp
next
  case (AudioChunk cid env)
  then show ?thesis using graceInv_audio[OF gi] by simp
next
  case (PauseRequest cid dbError)
  then show ?thesis using graceInv_pause[OF gi] by simp
next
  case (ResumeRequest cid outcome)
  then show ?thesis using graceInv_resume[OF gi] en by (simp add: isConnected_def)
next
  case (TimerFires h env)
  then show ?thesis using graceInv_fire[OF gi] by simp
next
  case (ProviderResponse cid r t)
  then show ?thesis using graceInv_response[OF gi] by simp
qed

lemma graceInv_init: "graceInv init_gateway"
  by (simp add: graceInv_def init_gateway_def)

lemma reachable_graceInv: "reachable gw \<Longrightarrow> graceInv gw"
proof (induction rule: reachable.induct)
  case reachable_init
  show ?case by (rule graceInv_init)
next
  case (reachable_step gw e now)
  then show ?case
    using invariants_step[OF reachable_singleFlight] by blast
qed


section \<open>At most one context per exam session\<close>


lemma reachable_run:
  "reachable gw \<Longrightarrow> runnable evs gw \<Longrightarrow> reachable (fst (run evs gw))"
proof (induction evs arbitrary: gw)
  case Nil
  then show ?case by simp
next
  case (Cons p evs)
  obtain e now where p: "p = (e, now)" by (cases p)
  have "reachable (fst (step e now gw))"
    using Cons.prems p by (auto intro: reachable_step)
  then have "reachable (fst (run evs (fst (step e now gw))))"
    using Cons.IH Cons.prems(2) p by simp
  then show ?case using p by (simp add: split_beta Let_def)
qed

lemma reconnect_replaces:
  assumes sf: "singleFlight gw"
    and found: "findSessionBySessionId gw sid = Some (old, r)"
  shows "contextsFor (fst (reconnect cid sid old r c h now gw)) sid = [(cid, r)]"
proof -
  let ?gw' = "fst (reconnect cid sid old r c h now gw)"
  have sf': "singleFlight ?gw'"
    by (rule singleFlight_reconnect[OF sf found])
  have le: "length (contextsFor ?gw' sid) \<le> 1"
    by (rule singleFlight_contextsFor[OF sf'])
  have "map_of (sessions ?gw') cid = Some r"
    by (simp add: reconnect_frame update_conv')
  then have m: "(cid, r) \<in> set (sessions ?gw')"
    by (rule map_of_SomeD)
  have "sessionIdAt ?gw' r = Some sid"
    using find_Some_sessionIdAt(2)[OF found] by (simp add: reconnect_frame)
  then have "(cid, r) \<in> set (contextsFor ?gw' sid)"
    using m by (auto simp: contextsFor_def sessionIdAt_def split: option.splits)
  then show ?thesis
    using le by (cases "contextsFor ?gw' sid") auto
qed

text \<open>
  Runs without overlap. In every state the gateway reaches when each handler and each
  timer callback runs to completion before the next one starts, the registry holds at
  most one context for any exam session id (whatever the context's state). A connection
  naming a session whose registered context is not in the grace period is rejected as a
  duplicate connection (code 4006) and leaves the registry and the context objects
  unchanged. A reconnection by the owner during the grace period leaves exactly one
  registry entry for the session, the one under the new socket id: the old entry is
  replaced, not joined by a second one.
\<close>

lemma single_flight_without_overlap:
  assumes r: "reachable gw"
  shows "length (contextsFor gw sid) \<le> 1
     \<and> (query_sessionId hs = Some sid \<and> sid \<noteq> [] \<and> truthyStr (token hs)
          \<and> verifyAccessToken env = Some student
          \<and> findSessionBySessionId gw sid = Some (old, r) \<and> ctxAt gw r = Some c
          \<and> status c \<noteq> GracePeriod
        \<longrightarrow> snd (step (Connect cid hs env) now gw)
              = [Emit cid (ConnectionError 4006 ''Session already connected''), Disconnect cid]
          \<and> sessions (fst (step (Connect cid hs env) now gw)) = sessions gw
          \<and> heap (fst (step (Connect cid hs env) now gw)) = heap gw)
     \<and> (query_sessionId hs = Some sid \<and> sid \<noteq> [] \<and> truthyStr (token hs)
          \<and> verifyAccessToken env = Some student
          \<and> findSessionBySessionId gw sid = Some (old, r) \<and> ctxAt gw r = Some c
          \<and> disconnectTimer c = Some h \<and> studentId c = student
        \<longrightarrow> contextsFor (fst (step (Connect cid hs env) now gw)) sid = [(cid, r)])"
proof (intro conjI impI)
  have sf: "singleFlight gw" by (rule reachable_singleFlight[OF r])
  have gi: "graceInv gw" by (rule reachable_graceInv[OF r])
  let ?gw0 = "markConnected cid gw"
  have sf0: "singleFlight ?gw0" using sf sf_markConnected by simp
  have f0: "findSessionBySessionId ?gw0 s = findSessionBySessionId gw s" for s
    by (simp add: findSessionBySessionId_def markConnected_def)
  have c0: "ctxAt ?gw0 x = ctxAt gw x" for x
    by (simp add: markConnected_def)
  show "length (contextsFor gw sid) \<le> 1"
    by (rule singleFlight_contextsFor[OF sf])
  {
    assume a: "query_sessionId hs = Some sid \<and> sid \<noteq> [] \<and> truthyStr (token hs)
          \<and> verifyAccessToken env = Some student
          \<and> findSessionBySessionId gw sid = Some (old, r) \<and> ctxAt gw r = Some c
          \<and> status c \<noteq> GracePeriod"
    have m: "(old, r) \<in> set (sessions gw)"
      using a find_Some_sessionIdAt(1) by blast
    have "disconnectTimer c = None"
    proof (cases "disconnectTimer c")
      case None
      then show ?thesis .
    next
      case (Some h')
      then have "disconnectTimerAt gw r = Some (Some h')"
        using a by (simp add: disconnectTimerAt_def)
      then have "statusAt gw r = Some GracePeriod"
        using gi m unfolding graceInv_def by blast
      then show ?thesis using a by (simp add: statusAt_def)
    qed
    then have h: "handleConnection cid hs env now ?gw0
           = reject cid DuplicateConnection ''Session already connected'' ?gw0"
      using a by (simp add: handleConnection_def f0 c0)
    have e: "step (Connect cid hs env) now gw
           = reject cid DuplicateConnection ''Session already connected'' ?gw0"
      by (simp add: h)
    show "snd (step (Connect cid hs env) now gw)
              = [Emit cid (ConnectionError 4006 ''Session already connected''), Disconnect cid]"
      unfolding e by (simp add: reject_def)
    show "sessions (fst (step (Connect cid hs env) now gw)) = sessions gw"
      unfolding e by (simp add: reject_def markConnected_def)
    show "heap (fst (step (Connect cid hs env) now gw)) = heap gw"
      unfolding e by (simp add: reject_def markConnected_def)
  }
  {
    assume a: "query_sessionId hs = Some sid \<and> sid \<noteq> [] \<and> truthyStr (token hs)
          \<and> verifyAccessToken env = Some student
          \<and> findSessionBySessionId gw sid = Some (old, r) \<and> ctxAt gw r = Some c
          \<and> disconnectTimer c = Some h \<and> studentId c = student"
    then have h: "handleConnection cid hs env now ?gw0 = reconnect cid sid old r c h now ?gw0"
      by (simp add: handleConnection_def f0 c0)
    have found0: "findSessionBySessionId ?gw0 sid = Some (old, r)"
      using a by (simp add: f0)
    have e: "step (Connect cid hs env) now gw = reconnect cid sid old r c h now ?gw0"
      by (simp add: h)
    show "contextsFor (fst (step (Connect cid hs env) now gw)) sid = [(cid, r)]"
      unfolding e by (rule reconnect_replaces[OF sf0 found0])
  }
qed


lemma single_flight_without_overlap_example:
  "reachable admitted \<and> reachable dropped
   \<and> length (contextsFor dropped ''s'') \<le> 1
   \<and> snd (step (Connect ''B'' sample_handshake sample_env) 50 admitted)
       = [Emit ''B'' (ConnectionError 4006 ''Session already connected''), Disconnect ''B'']
   \<and> sessions (fst (step (Connect ''B'' sample_handshake sample_env) 50 admitted))
       = sessions admitted
   \<and> contextsFor (fst (step (Connect ''B'' sample_handshake sample_env) 102000 dropped)) ''s''
       = [(''B'', 0)]"
proof -
  have "enabled (Connect ''A'' sample_handshake sample_env) init_gateway"
    by code_simp
  then have ra: "reachable admitted"
    unfolding admitted_def by (rule reachable_step[OF reachable_init])
  have "runnable [(Connect ''A'' sample_handshake sample_env, 0),
               (ProviderResponse ''A'' 0 (Some ''Guten Tag''), 2000),
               (ClientGone ''A'', 100000)] init_gateway"
    by code_simp
  then have rd: "reachable dropped"
    unfolding dropped_def by (rule reachable_run[OF reachable_init])
  have q: "query_sessionId sample_handshake = Some ''s''" "''s'' \<noteq> []"
    "truthyStr (token sample_handshake)" "verifyAccessToken sample_env = Some ''stu''"
    by (simp_all add: sample_handshake_def sample_env_def truthyStr_def)
  have fa: "findSessionBySessionId admitted ''s'' = Some (''A'', 0)"
    by code_simp
  have "ctxAt admitted 0 \<noteq> None"
    by code_simp
  then have ca: "ctxAt admitted 0 = Some (the (ctxAt admitted 0))"
    by simp
  have sa: "status (the (ctxAt admitted 0)) \<noteq> GracePeriod"
    by code_simp
  have fd: "findSessionBySessionId dropped ''s'' = Some (''A'', 0)"
    by code_simp
  have "ctxAt dropped 0 \<noteq> None"
    by code_simp
  then have cd: "ctxAt dropped 0 = Some (the (ctxAt dropped 0))"
    by simp
  have td: "disconnectTimer (the (ctxAt dropped 0)) = Some 4"
    "studentId (the (ctxAt dropped 0)) = ''stu''"
    by code_simp+
  show ?thesis
    using ra rd q fa ca sa fd cd td
      single_flight_without_overlap[OF ra, where sid="''s''" and hs=sample_handshake and env=sample_env
        and student="''stu''" and old="''A''" and r=0 and c="the (ctxAt admitted 0)"
        and cid="''B''" and now=50]
      single_flight_without_overlap[OF rd, where sid="''s''" and hs=sample_handshake and env=sample_env
        and student="''stu''" and old="''A''" and r=0 and c="the (ctxAt dropped 0)"
        and h=4 and cid="''B''" and now=102000]
    by simp
qed

text \<open>
  Claim C3. At most one context per exam session is to exist at any time, enforced by
  the registry lookup before a context is created. The lookup and the registration are
  separated by the waits of the fresh admission, and nothing is checked again before
  \<^verbatim>\<open>this.sessions.set\<close>. Two sockets \<open>A\<close> and \<open>B\<close> of the owning student name the
  sample session, and \<open>B\<close> connects while the handler of \<open>A\<close> waits for the store:
  both lookups find nothing, both handlers go on to admit, both sockets receive
  \<^verbatim>\<open>session_ready\<close>, and the registry then holds two active contexts for the one
  session. Had \<open>B\<close> connected after \<open>A\<close> was registered, it would have been rejected
  as a duplicate (code 4006).
\<close>

theorem overlapping_admissions_register_twice:
  "admissionChecks ''A'' sample_handshake sample_env 0 (markConnected ''A'' init_gateway)
     = AwaitingStore ''s'' ''stu''
   \<and> admissionChecks ''B'' sample_handshake sample_env 10 both_connecting
     = AwaitingStore ''s'' ''stu''
   \<and> snd (freshAdmission ''A'' ''s'' ''stu'' sample_env 20 both_connecting)
     = [ProviderConnect ''s'' [], Emit ''A'' (SessionReady ''s'' 1 (Some 240) ''ready'')]
   \<and> snd (freshAdmission ''B'' ''s'' ''stu'' sample_env 30 first_admitted)
     = [ProviderConnect ''s'' [], Emit ''B'' (SessionReady ''s'' 1 (Some 240) ''ready'')]
   \<and> contextsFor both_admitted ''s'' = [(''A'', 0), (''B'', 1)]
   \<and> map_option status (ctxAt both_admitted 0) = Some Active
   \<and> map_option status (ctxAt both_admitted 1) = Some Active
   \<and> snd (step (Connect ''B'' sample_handshake sample_env) 30 admitted)
     = [Emit ''B'' (ConnectionError 4006 ''Session already connected''), Disconnect ''B'']"
  by code_simp


section \<open>Closing the adapter handle\<close>

lemma map_of_delete_self: "map_of (AList.delete k xs) k = None"
  by (simp add: delete_conv')

text \<open>
  Claim C8. Closing the adapter handle is idempotent. For a session id with no
  registered handle the call changes nothing, raises nothing and does not touch the
  provider. For a registered handle the entry is removed from the bookkeeping whether
  or not the provider's close throws, and nothing is raised. Hence a second close of
  the same id (auto-end after a manual end) raises nothing, leaves the bookkeeping as the
  first close left it, and makes no further provider close call.
\<close>

theorem closeLiveSession_idempotent:
  "(map_of as sid = None \<longrightarrow>
      closeLiveSession sid t as =
        (None, as, [LogWarn ''Attempted to close non-existent Gemini session'']))
   \<and> fst (closeLiveSession sid t as) = None
   \<and> map_of (fst (snd (closeLiveSession sid t as))) sid = None
   \<and> (\<forall>k. k \<noteq> sid \<longrightarrow> map_of (fst (snd (closeLiveSession sid t as))) k = map_of as k)
   \<and> fst (closeLiveSession sid t' (fst (snd (closeLiveSession sid t as)))) = None
   \<and> fst (snd (closeLiveSession sid t' (fst (snd (closeLiveSession sid t as)))))
       = fst (snd (closeLiveSession sid t as))
   \<and> provider_closes (snd (snd (closeLiveSession sid t' (fst (snd (closeLiveSession sid t as)))))) = 0"
proof -
  have removed: "map_of (fst (snd (closeLiveSession sid t as))) sid = None"
    by (auto simp: closeLiveSession_def session_close_def delete_conv' split: option.splits)
  have second: "closeLiveSession sid t' (fst (snd (closeLiveSession sid t as))) =
      (None, fst (snd (closeLiveSession sid t as)),
       [LogWarn ''Attempted to close non-existent Gemini session''])"
    using removed by (simp add: closeLiveSession_def[of sid t'])
  have others: "\<forall>k. k \<noteq> sid \<longrightarrow> map_of (fst (snd (closeLiveSession sid t as))) k = map_of as k"
    by (auto simp: closeLiveSession_def session_close_def delete_conv' split: option.splits)
  have noerr: "fst (closeLiveSession sid t as) = None"
    by (auto simp: closeLiveSession_def session_close_def split: option.splits)
  have absent: "map_of as sid = None \<longrightarrow>
      closeLiveSession sid t as =
        (None, as, [LogWarn ''Attempted to close non-existent Gemini session''])"
    by (simp add: closeLiveSession_def)
  show ?thesis
    using removed second others noerr absent by (simp add: provider_closes_def)
qed

theorem closeLiveSession_idempotent_witness:
  "map_of [(''s1'', \<lparr>g_teilNumber = 1, g_status = Connected, setupComplete = True\<rparr>)] ''s2'' = None
   \<and> closeLiveSession ''s2'' True
        [(''s1'', \<lparr>g_teilNumber = 1, g_status = Connected, setupComplete = True\<rparr>)]
      = (None, [(''s1'', \<lparr>g_teilNumber = 1, g_status = Connected, setupComplete = True\<rparr>)],
         [LogWarn ''Attempted to close non-existent Gemini session''])
   \<and> map_of (fst (snd (closeLiveSession ''s1'' True
        [(''s1'', \<lparr>g_teilNumber = 1, g_status = Connected, setupComplete = True\<rparr>)]))) ''s1'' = None"
  using closeLiveSession_idempotent
    [of "[(''s1'', \<lparr>g_teilNumber = 1, g_status = Connected, setupComplete = True\<rparr>)]" "''s2''" True True]
    closeLiveSession_idempotent
    [of "[(''s1'', \<lparr>g_teilNumber = 1, g_status = Connected, setupComplete = True\<rparr>)]" "''s1''" True True]
  by simp

end
